(* ===== verification/Js_Prelude.thy ===== *)
theory Js_Prelude
  imports Main "HOL-Library.AList" "HOL-Library.Sublist"
begin

text \<open>
  Shared vocabulary of the development: JavaScript objects as insertion-ordered association
  lists, truthiness of optional strings, and the effect type of the asynchronous methods with
  its combinators and its frame and invariant rules.

  An \<open>async\<close> method that reads and writes a state and may throw is a function of type
  \<open>act\<close>: from the state to either the thrown error (\<^term>\<open>Inl e\<close>) or the value
  (\<^term>\<open>Inr x\<close>), together with the state it leaves behind; a state change made before a
  throw stays. One call runs to its end without another call of the same client in between;
  the components whose point is interleaving (the promise map, the lock, the worker) have
  step relations of their own.
\<close>

section \<open>Collections\<close>

named_theorems act_simps "unfolding rules of the effect combinators"
named_theorems effect_intro "rules that build up a frame or an invariant of a method"

section \<open>Objects\<close>

text \<open>
  A JavaScript object, \<open>Map\<close> or storage area: property order is insertion order, a write to
  a present key keeps its position, a write to a new key appends. These are exactly
  \<^const>\<open>AList.update\<close> and \<^const>\<open>AList.delete\<close>; a read is \<^const>\<open>map_of\<close>.
\<close>

type_synonym 'v obj = "(string \<times> 'v) list"

definition obj_keys :: "'v obj \<Rightarrow> string list" where
  "obj_keys m = map fst m"

definition obj_wf :: "'v obj \<Rightarrow> bool" where
  "obj_wf m \<longleftrightarrow> distinct (map fst m)"

text \<open>The spread \<open>{...a, ...b}\<close>: the properties of \<open>b\<close> written over those of \<open>a\<close>.\<close>

fun obj_spread :: "'v obj \<Rightarrow> 'v obj \<Rightarrow> 'v obj" where
  "obj_spread a [] = a"
| "obj_spread a ((k, v) # b) = obj_spread (AList.update k v a) b"

lemma obj_wf_Nil [simp, intro]: "obj_wf []"
  by (simp add: obj_wf_def)

lemma obj_wf_update [simp, intro]: "obj_wf m \<Longrightarrow> obj_wf (AList.update k v m)"
  by (simp add: obj_wf_def distinct_update)

lemma obj_wf_delete [simp, intro]: "obj_wf m \<Longrightarrow> obj_wf (AList.delete k m)"
  by (simp add: obj_wf_def distinct_delete)

lemma map_of_update [simp]: "map_of (AList.update k v m) = (map_of m)(k \<mapsto> v)"
  by (rule update_conv')

lemma map_of_delete [simp]: "map_of (AList.delete k m) = (map_of m)(k := None)"
  by (rule delete_conv')

lemma set_obj_keys: "set (obj_keys m) = dom (map_of m)"
  by (simp add: obj_keys_def dom_map_of_conv_image_fst)

lemma obj_keys_update:
  "obj_keys (AList.update k v m) =
     (if k \<in> set (obj_keys m) then obj_keys m else obj_keys m @ [k])"
  by (simp add: obj_keys_def update_keys)

lemma obj_keys_delete: "obj_keys (AList.delete k m) = filter (\<lambda>j. j \<noteq> k) (obj_keys m)"
  by (induction m) (auto simp: obj_keys_def)

lemma distinct_obj_keys: "obj_wf m \<Longrightarrow> distinct (obj_keys m)"
  by (simp add: obj_wf_def obj_keys_def)

lemma map_of_obj_spread: "map_of (obj_spread a b) k =
    (case map_of (rev b) k of None \<Rightarrow> map_of a k | Some v \<Rightarrow> Some v)"
  by (induction a b rule: obj_spread.induct) (auto simp: map_add_def split: option.splits)

section \<open>Truthiness\<close>

text \<open>
  An optional string (\<open>string | undefined\<close>) is a \<^typ>\<open>string option\<close>; the empty string is
  falsy, as \<open>undefined\<close> is. \<open>or_else\<close> is the operator \<open>||\<close> between two of them,
  \<open>or_default\<close> the same with a string on the right.
\<close>

definition truthy :: "string option \<Rightarrow> bool" where
  "truthy s = (case s of None \<Rightarrow> False | Some t \<Rightarrow> t \<noteq> [])"

definition or_else :: "string option \<Rightarrow> string option \<Rightarrow> string option" where
  "or_else a b = (if truthy a then a else b)"

definition or_default :: "string option \<Rightarrow> string \<Rightarrow> string" where
  "or_default a d = (case a of None \<Rightarrow> d | Some t \<Rightarrow> if t = [] then d else t)"

text \<open>The value of an optional string inside a template literal.\<close>

definition tmpl :: "string option \<Rightarrow> string" where
  "tmpl s = (case s of None \<Rightarrow> ''undefined'' | Some t \<Rightarrow> t)"

lemma truthy_simps [simp]: "truthy None = False" "truthy (Some t) = (t \<noteq> [])"
  by (simp_all add: truthy_def)

lemma or_else_simps [simp]:
  "or_else None b = b" "or_else (Some []) b = b" "t \<noteq> [] \<Longrightarrow> or_else (Some t) b = Some t"
  by (simp_all add: or_else_def)

lemma or_default_simps [simp]:
  "or_default None d = d" "or_default (Some []) d = d" "t \<noteq> [] \<Longrightarrow> or_default (Some t) d = t"
  by (simp_all add: or_default_def)

lemma tmpl_simps [simp]: "tmpl None = ''undefined''" "tmpl (Some t) = t"
  by (simp_all add: tmpl_def)

section \<open>Effects\<close>

type_synonym ('s, 'e, 'a) act = "'s \<Rightarrow> ('e + 'a) \<times> 's"

definition ret :: "'a \<Rightarrow> ('s, 'e, 'a) act" where
  "ret x s = (Inr x, s)"

definition throw :: "'e \<Rightarrow> ('s, 'e, 'a) act" where
  "throw e s = (Inl e, s)"

definition andThen :: "('s, 'e, 'a) act \<Rightarrow> ('a \<Rightarrow> ('s, 'e, 'b) act) \<Rightarrow> ('s, 'e, 'b) act" where
  "andThen m f s = (case m s of (Inl e, t) \<Rightarrow> (Inl e, t) | (Inr x, t) \<Rightarrow> f x t)"

definition andNext :: "('s, 'e, 'a) act \<Rightarrow> ('s, 'e, 'b) act \<Rightarrow> ('s, 'e, 'b) act" where
  "andNext m n = andThen m (\<lambda>_. n)"

text \<open>\<open>try { m } catch (e) { h e }\<close>\<close>

definition catching :: "('s, 'e, 'a) act \<Rightarrow> ('e \<Rightarrow> ('s, 'f, 'a) act) \<Rightarrow> ('s, 'f, 'a) act" where
  "catching m h s = (case m s of (Inl e, t) \<Rightarrow> h e t | (Inr x, t) \<Rightarrow> (Inr x, t))"

text \<open>\<open>try { m } finally { f }\<close>, for a clean-up \<open>f\<close> that does not throw.\<close>

definition ensuring :: "('s, 'e, 'a) act \<Rightarrow> ('s \<Rightarrow> 's) \<Rightarrow> ('s, 'e, 'a) act" where
  "ensuring m f s = (case m s of (r, t) \<Rightarrow> (r, f t))"

definition gets :: "('s \<Rightarrow> 'a) \<Rightarrow> ('s, 'e, 'a) act" where
  "gets f s = (Inr (f s), s)"

definition modify :: "('s \<Rightarrow> 's) \<Rightarrow> ('s, 'e, unit) act" where
  "modify f s = (Inr (), f s)"

text \<open>A method of a part of the state, run on the whole: \<open>get\<close> reads the part, \<open>put\<close> writes
  it back.\<close>

definition zoom :: "('s \<Rightarrow> 't) \<Rightarrow> ('t \<Rightarrow> 's \<Rightarrow> 's) \<Rightarrow> ('t, 'e, 'a) act \<Rightarrow> ('s, 'e, 'a) act" where
  "zoom get put m s = (case m (get s) of (r, t) \<Rightarrow> (r, put t s))"

text \<open>\<open>for (const x of xs) { await f(x); }\<close>\<close>

fun forEach :: "'x list \<Rightarrow> ('x \<Rightarrow> ('s, 'e, unit) act) \<Rightarrow> ('s, 'e, unit) act" where
  "forEach [] f = ret ()"
| "forEach (x # xs) f = andNext (f x) (forEach xs f)"

lemma ret_app [simp]: "ret x s = (Inr x, s)"
  by (simp add: ret_def)

lemma throw_app [simp]: "throw e s = (Inl e, s)"
  by (simp add: throw_def)

lemma gets_app [simp]: "gets f s = (Inr (f s), s)"
  by (simp add: gets_def)

lemma modify_app [simp]: "modify f s = (Inr (), f s)"
  by (simp add: modify_def)

lemmas [act_simps] = andThen_def andNext_def catching_def ensuring_def zoom_def

lemma andThen_Inr_iff:
  "andThen m f s = (Inr y, t) \<longleftrightarrow> (\<exists>x u. m s = (Inr x, u) \<and> f x u = (Inr y, t))"
  by (auto simp: andThen_def split: prod.splits sum.splits)

lemma andThen_Inl_iff:
  "andThen m f s = (Inl e, t) \<longleftrightarrow>
     m s = (Inl e, t) \<or> (\<exists>x u. m s = (Inr x, u) \<and> f x u = (Inl e, t))"
  by (auto simp: andThen_def split: prod.splits sum.splits)

lemma andThen_ret_left [simp]: "andThen (ret x) f s = f x s"
  by (simp add: andThen_def)

lemma andThen_throw [simp]: "andThen (throw e) f s = (Inl e, s)"
  by (simp add: andThen_def)

lemma andThen_gets [simp]: "andThen (gets g) f s = f (g s) s"
  by (simp add: andThen_def)

lemma andThen_modify [simp]: "andThen (modify g) f s = f () (g s)"
  by (simp add: andThen_def)

lemma andNext_modify [simp]: "andNext (modify g) n s = n (g s)"
  by (simp add: andNext_def)

lemma andThen_step: "m s = (Inr x, t) \<Longrightarrow> andThen m f s = f x t"
  by (simp add: andThen_def)

lemma andThen_fail: "m s = (Inl e, t) \<Longrightarrow> andThen m f s = (Inl e, t)"
  by (simp add: andThen_def)

section \<open>Frames and invariants\<close>

text \<open>
  \<open>effect R m\<close>: whatever \<open>m\<close> returns or throws, the state after is related by \<open>R\<close> to the
  state before. For a reflexive and transitive \<open>R\<close> (a frame such as "these fields are
  unchanged", or "the invariant, if it held, still holds") it is built up along the
  combinators by the rules below.
\<close>

definition effect :: "('s \<Rightarrow> 's \<Rightarrow> bool) \<Rightarrow> ('s, 'e, 'a) act \<Rightarrow> bool" where
  "effect R m \<longleftrightarrow> (\<forall>s. R s (snd (m s)))"

definition frame :: "('s \<Rightarrow> 'b) \<Rightarrow> 's \<Rightarrow> 's \<Rightarrow> bool" where
  "frame f s t \<longleftrightarrow> f t = f s"

definition keeps :: "('s \<Rightarrow> bool) \<Rightarrow> 's \<Rightarrow> 's \<Rightarrow> bool" where
  "keeps P s t \<longleftrightarrow> (P s \<longrightarrow> P t)"

definition preorder_rel :: "('s \<Rightarrow> 's \<Rightarrow> bool) \<Rightarrow> bool" where
  "preorder_rel R \<longleftrightarrow> (\<forall>s. R s s) \<and> (\<forall>s t u. R s t \<longrightarrow> R t u \<longrightarrow> R s u)"

lemma preorder_frame [simp, intro]: "preorder_rel (frame f)"
  by (simp add: preorder_rel_def frame_def)

lemma preorder_keeps [simp, intro]: "preorder_rel (keeps P)"
  by (simp add: preorder_rel_def keeps_def)

lemma effectD: "effect R m \<Longrightarrow> m s = (r, t) \<Longrightarrow> R s t"
  by (metis effect_def snd_conv)

lemma effectI: "(\<And>s r t. m s = (r, t) \<Longrightarrow> R s t) \<Longrightarrow> effect R m"
  by (metis effect_def surjective_pairing)

lemma effect_ret [effect_intro]: "preorder_rel R \<Longrightarrow> effect R (ret x)"
  by (simp add: effect_def preorder_rel_def)

lemma effect_throw [effect_intro]: "preorder_rel R \<Longrightarrow> effect R (throw e)"
  by (simp add: effect_def preorder_rel_def)

lemma effect_gets [effect_intro]: "preorder_rel R \<Longrightarrow> effect R (gets f)"
  by (simp add: effect_def preorder_rel_def)

lemma effect_modify [effect_intro]: "(\<And>s. R s (f s)) \<Longrightarrow> effect R (modify f)"
  by (simp add: effect_def)

lemma effect_andThen [effect_intro]:
  assumes R: "preorder_rel R" and m: "effect R m" and f: "\<And>x. effect R (f x)"
  shows "effect R (andThen m f)"
proof (rule effectI)
  fix s r t assume st: "andThen m f s = (r, t)"
  obtain q u where u: "m s = (q, u)" by (cases "m s")
  from m u have "R s u" by (rule effectD)
  moreover have "R u t"
  proof (cases q)
    case (Inl e)
    with u st R show ?thesis by (simp add: andThen_def preorder_rel_def)
  next
    case (Inr x)
    with u st have "f x u = (r, t)" by (simp add: andThen_def)
    with f show ?thesis by (rule effectD)
  qed
  ultimately show "R s t" using R by (meson preorder_rel_def)
qed

lemma effect_andNext [effect_intro]:
  "preorder_rel R \<Longrightarrow> effect R m \<Longrightarrow> effect R n \<Longrightarrow> effect R (andNext m n)"
  unfolding andNext_def by (rule effect_andThen)

lemma effect_catching [effect_intro]:
  assumes R: "preorder_rel R" and m: "effect R m" and h: "\<And>e. effect R (h e)"
  shows "effect R (catching m h)"
proof (rule effectI)
  fix s r t assume st: "catching m h s = (r, t)"
  obtain q u where u: "m s = (q, u)" by (cases "m s")
  from m u have "R s u" by (rule effectD)
  moreover have "R u t"
  proof (cases q)
    case (Inr x)
    with u st R show ?thesis by (simp add: catching_def preorder_rel_def)
  next
    case (Inl e)
    with u st have "h e u = (r, t)" by (simp add: catching_def)
    with h show ?thesis by (rule effectD)
  qed
  ultimately show "R s t" using R by (meson preorder_rel_def)
qed

lemma effect_ensuring [effect_intro]:
  assumes R: "preorder_rel R" and m: "effect R m" and f: "\<And>s. R s (f s)"
  shows "effect R (ensuring m f)"
proof (rule effectI)
  fix s r t assume st: "ensuring m f s = (r, t)"
  obtain q u where u: "m s = (q, u)" by (cases "m s")
  with st have "t = f u" by (simp add: ensuring_def)
  with R m f u show "R s t" by (metis effectD preorder_rel_def)
qed

lemma effect_forEach [effect_intro]:
  "preorder_rel R \<Longrightarrow> (\<And>x. effect R (f x)) \<Longrightarrow> effect R (forEach xs f)"
  by (induction xs) (auto intro!: effect_intro)

lemma effect_if [effect_intro]:
  "effect R m \<Longrightarrow> effect R n \<Longrightarrow> effect R (if b then m else n)"
  by simp

lemma effect_if_app [effect_intro]:
  "effect R m \<Longrightarrow> effect R n \<Longrightarrow> effect R (\<lambda>s. if b s then m s else n s)"
  by (simp add: effect_def)

lemma effect_case_option [effect_intro]:
  "effect R m \<Longrightarrow> (\<And>x. effect R (f x)) \<Longrightarrow> effect R (case x of None \<Rightarrow> m | Some y \<Rightarrow> f y)"
  by (cases x) auto

lemma effect_case_sum [effect_intro]:
  "(\<And>x. effect R (f x)) \<Longrightarrow> (\<And>y. effect R (g y)) \<Longrightarrow>
     effect R (case z of Inl x \<Rightarrow> f x | Inr y \<Rightarrow> g y)"
  by (cases z) auto

lemma effect_let [effect_intro]: "effect R (f x) \<Longrightarrow> effect R (let y = x in f y)"
  by simp

lemma effect_zoom:
  "(\<And>s t. S (get s) t \<Longrightarrow> R s (put t s)) \<Longrightarrow> effect S m \<Longrightarrow> effect R (zoom get put m)"
  by (auto simp: effect_def zoom_def split: prod.splits) (metis snd_conv)

lemma effect_andThen_keep:
  "effect R m \<Longrightarrow> (\<And>x. effect R (f x)) \<Longrightarrow> preorder_rel R \<Longrightarrow>
     andThen m f s = (r, t) \<Longrightarrow> R s t"
  by (rule effectD [OF effect_andThen])

end
