(* ===== verification/Js_Text.thy ===== *)
theory Js_Text
  imports Js_Prelude
begin

text \<open>
  The string methods the source uses. A JavaScript string is a \<^typ>\<open>string\<close>, one
  \<^typ>\<open>char\<close> per code unit, so the model covers code units below 256.
\<close>

section \<open>Splitting and joining\<close>

fun join :: "string \<Rightarrow> string list \<Rightarrow> string" where
  "join sep [] = []"
| "join sep [x] = x"
| "join sep (x # y # ys) = x @ sep @ join sep (y # ys)"

text \<open>\<open>s.split(sep)\<close> for a non-empty separator: cut at the leftmost occurrence, again in the
  rest.\<close>

fun split_str :: "string \<Rightarrow> string \<Rightarrow> string list" where
  "split_str sep [] = [[]]"
| "split_str sep (c # cs) =
     (if sep \<noteq> [] \<and> prefix sep (c # cs) then [] # split_str sep (drop (length sep) (c # cs))
      else (case split_str sep cs of [] \<Rightarrow> [[c]] | w # ws \<Rightarrow> (c # w) # ws))"

text \<open>\<open>x\<close> is clean for \<open>sep\<close>: in \<open>x\<close> followed by \<open>sep\<close>, the separator occurs at the end
  only.\<close>

definition sep_clean :: "string \<Rightarrow> string \<Rightarrow> bool" where
  "sep_clean sep x \<longleftrightarrow> (\<forall>i < length x. \<not> prefix sep (drop i (x @ sep)))"

lemma split_str_not_Nil [simp]: "split_str sep s \<noteq> []"
  by (induction sep s rule: split_str.induct) (auto split: list.splits)

lemma sep_clean_Nil [simp]: "sep_clean sep []"
  by (simp add: sep_clean_def)

lemma sep_clean_Cons:
  "sep_clean sep (c # x) \<longleftrightarrow> \<not> prefix sep (c # x @ sep) \<and> sep_clean sep x"
proof -
  have "(\<forall>i < length (c # x). \<not> prefix sep (drop i ((c # x) @ sep))) \<longleftrightarrow>
      \<not> prefix sep (c # x @ sep) \<and> (\<forall>i < length x. \<not> prefix sep (drop i (x @ sep)))"
    by (auto simp: less_Suc_eq_0_disj)
  then show ?thesis by (simp add: sep_clean_def)
qed

lemma prefix_append_long:
  "length p \<le> length xs \<Longrightarrow> prefix p (xs @ ys) \<longleftrightarrow> prefix p xs"
  by (auto simp: prefix_append)

lemma split_str_clean_append:
  "sep \<noteq> [] \<Longrightarrow> sep_clean sep x \<Longrightarrow> split_str sep (x @ sep @ r) = x # split_str sep r"
proof (induction x)
  case Nil
  then obtain d ds where "sep = d # ds" by (cases sep) auto
  then show ?case by simp
next
  case (Cons c x)
  from Cons.prems have "\<not> prefix sep (c # x @ sep)" and clean: "sep_clean sep x"
    by (simp_all add: sep_clean_Cons)
  moreover have "prefix sep ((c # x @ sep) @ r) = prefix sep (c # x @ sep)"
    by (rule prefix_append_long) simp
  ultimately have "\<not> prefix sep (c # x @ sep @ r)" by simp
  moreover from Cons.IH Cons.prems(1) clean have "split_str sep (x @ sep @ r) = x # split_str sep r"
    by simp
  ultimately show ?case by simp
qed

lemma split_str_clean: "sep_clean sep x \<Longrightarrow> split_str sep x = [x]"
proof (induction x)
  case Nil
  show ?case by simp
next
  case (Cons c x)
  then have no: "\<not> prefix sep (c # x @ sep)" and "sep_clean sep x"
    by (simp_all add: sep_clean_Cons)
  from no have "\<not> prefix sep (c # x)"
    by (metis append_Cons prefix_prefix)
  with Cons.IH \<open>sep_clean sep x\<close> show ?case by simp
qed

lemma split_str_join:
  "sep \<noteq> [] \<Longrightarrow> xs \<noteq> [] \<Longrightarrow> \<forall>x \<in> set xs. sep_clean sep x \<Longrightarrow> split_str sep (join sep xs) = xs"
  by (induction sep xs rule: join.induct) (simp_all add: split_str_clean split_str_clean_append)

lemma join_split_str: "sep \<noteq> [] \<Longrightarrow> join sep (split_str sep s) = s"
proof (induction sep s rule: split_str.induct)
  case (1 sep)
  show ?case by simp
next
  case (2 sep c cs)
  show ?case
  proof (cases "prefix sep (c # cs)")
    case True
    then obtain r where r: "c # cs = sep @ r" by (auto simp: prefix_def)
    with 2 True have IH: "join sep (split_str sep r) = r" by simp
    have "split_str sep (c # cs) = [] # split_str sep r"
      using split_str_clean_append [of sep "[]" r] "2.prems" r by simp
    moreover have "join sep ([] # split_str sep r) = sep @ r"
      using IH by (cases "split_str sep r") auto
    ultimately show ?thesis using r by simp
  next
    case False
    with 2 have IH: "join sep (split_str sep cs) = cs" by simp
    obtain w ws where "split_str sep cs = w # ws" by (cases "split_str sep cs") auto
    with False IH show ?thesis by (cases ws) simp_all
  qed
qed

text \<open>A single-character separator: clean means that the character does not occur.\<close>

lemma sep_clean_char [simp]: "sep_clean [d] x \<longleftrightarrow> d \<notin> set x"
  by (induction x) (auto simp: sep_clean_Cons)

lemma split_char_no_sep: "w \<in> set (split_str [d] s) \<Longrightarrow> d \<notin> set w"
  by (induction "[d]" s arbitrary: w rule: split_str.induct)
     (fastforce split: if_splits list.splits)+

lemma split_char_Cons:
  "split_str [d] (c # s) =
     (if c = d then [] # split_str [d] s
      else (case split_str [d] s of [] \<Rightarrow> [[c]] | w # ws \<Rightarrow> (c # w) # ws))"
  by simp

section \<open>Searching and replacing\<close>

fun str_includes :: "string \<Rightarrow> string \<Rightarrow> bool" where
  "str_includes [] t = (t = [])"
| "str_includes (c # cs) t = (prefix t (c # cs) \<or> str_includes cs t)"

definition starts_with :: "string \<Rightarrow> string \<Rightarrow> bool" where
  "starts_with s p = prefix p s"

definition replace_char :: "char \<Rightarrow> char \<Rightarrow> string \<Rightarrow> string" where
  "replace_char a b s = map (\<lambda>c. if c = a then b else c) s"

lemma str_includes_iff: "str_includes s t \<longleftrightarrow> (\<exists>a b. s = a @ t @ b)"
proof (induction s)
  case Nil
  show ?case by simp
next
  case (Cons c s)
  have "(\<exists>a b. c # s = a @ t @ b) \<longleftrightarrow> prefix t (c # s) \<or> (\<exists>a b. s = a @ t @ b)"
    (is "?L \<longleftrightarrow> ?R")
  proof
    assume ?L
    then obtain a b where "c # s = a @ t @ b" by blast
    then show ?R by (cases a) (auto simp: prefix_def)
  next
    assume ?R
    then show ?L by (metis append_Cons append_Nil prefix_def)
  qed
  with Cons show ?case by simp
qed

section \<open>White space\<close>

text \<open>The white space of \<open>\s\<close> and \<open>trim\<close> below code unit 256.\<close>

definition is_ws :: "char \<Rightarrow> bool" where
  "is_ws c = (of_char c \<in> {9, 10, 11, 12, 13, 32, 160 :: nat})"

definition trim :: "string \<Rightarrow> string" where
  "trim s = rev (dropWhile is_ws (rev (dropWhile is_ws s)))"

text \<open>\<open>s.split(/\s+/)\<close>\<close>

function split_ws :: "string \<Rightarrow> string list" where
  "split_ws s =
     (let w = takeWhile (\<lambda>c. \<not> is_ws c) s; r = dropWhile (\<lambda>c. \<not> is_ws c) s
      in if r = [] then [w] else w # split_ws (dropWhile is_ws r))"
  by pat_completeness auto
termination
proof (relation "measure length")
  fix s w r
  assume "w = takeWhile (\<lambda>c. \<not> is_ws c) s" and r: "r = dropWhile (\<lambda>c. \<not> is_ws c) s"
    and "r \<noteq> []"
  then have "is_ws (hd r)" by (metis hd_dropWhile)
  then have "length (dropWhile is_ws r) < length r"
    using \<open>r \<noteq> []\<close> by (cases r) (auto simp: le_imp_less_Suc length_dropWhile_le)
  also have "length r \<le> length s" by (simp add: r length_dropWhile_le)
  finally show "(dropWhile is_ws r, s) \<in> measure length" by simp
qed simp

declare split_ws.simps [simp del]

section \<open>Case\<close>

definition to_lower_char :: "char \<Rightarrow> char" where
  "to_lower_char c =
     (let n = of_char c :: nat
      in if (65 \<le> n \<and> n \<le> 90) \<or> (192 \<le> n \<and> n \<le> 222 \<and> n \<noteq> 215) then char_of (n + 32) else c)"

definition to_lower :: "string \<Rightarrow> string" where
  "to_lower s = map to_lower_char s"

section \<open>Decimal numerals\<close>

definition digit_char :: "nat \<Rightarrow> char" where
  "digit_char d = char_of (48 + d)"

fun show_nat :: "nat \<Rightarrow> string" where
  "show_nat n = (if n < 10 then [digit_char n] else show_nat (n div 10) @ [digit_char (n mod 10)])"

declare show_nat.simps [simp del]

definition show_int :: "int \<Rightarrow> string" where
  "show_int i = (if i < 0 then CHR ''-'' # show_nat (nat (- i)) else show_nat (nat i))"

definition is_digit :: "char \<Rightarrow> bool" where
  "is_digit c = (48 \<le> (of_char c :: nat) \<and> (of_char c :: nat) \<le> 57)"

definition digit_val :: "char \<Rightarrow> nat" where
  "digit_val c = of_char c - 48"

fun read_nat :: "nat \<Rightarrow> string \<Rightarrow> nat" where
  "read_nat acc [] = acc"
| "read_nat acc (c # cs) = read_nat (10 * acc + digit_val c) cs"

lemma of_digit_char [simp]: "d < 10 \<Longrightarrow> of_char (digit_char d) = 48 + d"
  by (simp add: digit_char_def)

lemma is_digit_digit_char [simp]: "d < 10 \<Longrightarrow> is_digit (digit_char d)"
  by (simp add: is_digit_def)

lemma digit_val_digit_char [simp]: "d < 10 \<Longrightarrow> digit_val (digit_char d) = d"
  by (simp add: digit_val_def)

lemma read_nat_append: "read_nat acc (xs @ ys) = read_nat (read_nat acc xs) ys"
  by (induction xs arbitrary: acc) auto

lemma show_nat_not_Nil [simp]: "show_nat n \<noteq> []"
  by (subst show_nat.simps) simp

lemma show_nat_digits: "\<forall>c \<in> set (show_nat n). is_digit c"
proof (induction n rule: show_nat.induct)
  case (1 n)
  then show ?case by (subst show_nat.simps) auto
qed

lemma read_show_nat: "read_nat 0 (show_nat n) = n"
proof (induction n rule: show_nat.induct)
  case (1 n)
  show ?case
  proof (cases "n < 10")
    case True
    then show ?thesis by (subst show_nat.simps) simp
  next
    case False
    with 1 have "read_nat 0 (show_nat (n div 10)) = n div 10" by simp
    with False show ?thesis by (subst show_nat.simps) (simp add: read_nat_append)
  qed
qed

lemma show_nat_inject: "show_nat m = show_nat n \<longleftrightarrow> m = n"
  by (metis read_show_nat)

end
