(* ===== verification/Js_Json.thy ===== *)
theory Js_Json
  imports Js_Text
begin

text \<open>
  JSON values, \<open>JSON.stringify\<close> and \<open>JSON.parse\<close>, with the round trip between them. Numbers
  are integers: every number the SDK stores or reads itself (times in seconds or milliseconds,
  lifetimes, status codes) is one; a text with a fraction or an exponent, and a
  \<open>\u\<close> escape above code unit 255, are outside the model, and \<open>json_parse\<close> rejects them.
\<close>

datatype json =
    JNull
  | JBool bool
  | JNum int
  | JStr string
  | JArr "json list"
  | JObj "(string \<times> json) list"

section \<open>Reading values\<close>

text \<open>Property access \<open>v[k]\<close>: \<open>undefined\<close> (\<^const>\<open>None\<close>) for a missing property and for
  a value without properties of its own.\<close>

definition json_get :: "json \<Rightarrow> string \<Rightarrow> json option" where
  "json_get v k = (case v of JObj m \<Rightarrow> map_of m k | _ \<Rightarrow> None)"

definition json_str :: "json option \<Rightarrow> string option" where
  "json_str v = (case v of Some (JStr s) \<Rightarrow> Some s | _ \<Rightarrow> None)"

definition json_truthy :: "json option \<Rightarrow> bool" where
  "json_truthy v = (case v of None \<Rightarrow> False | Some x \<Rightarrow>
     (case x of JNull \<Rightarrow> False | JBool b \<Rightarrow> b | JNum n \<Rightarrow> n \<noteq> 0 | JStr s \<Rightarrow> s \<noteq> []
      | JArr _ \<Rightarrow> True | JObj _ \<Rightarrow> True))"

definition json_is_num :: "json option \<Rightarrow> bool" where
  "json_is_num v = (case v of Some (JNum _) \<Rightarrow> True | _ \<Rightarrow> False)"

text \<open>\<open>v == null\<close>, which \<open>undefined\<close> satisfies too.\<close>

definition json_nullish :: "json option \<Rightarrow> bool" where
  "json_nullish v = (case v of None \<Rightarrow> True | Some JNull \<Rightarrow> True | _ \<Rightarrow> False)"

text \<open>An optional property of an object literal: \<open>undefined\<close> leaves it out of the JSON text.\<close>

definition opt_prop :: "string \<Rightarrow> json option \<Rightarrow> (string \<times> json) list" where
  "opt_prop k v = (case v of None \<Rightarrow> [] | Some x \<Rightarrow> [(k, x)])"

section \<open>Printing\<close>

definition hex_char :: "nat \<Rightarrow> char" where
  "hex_char d = char_of (if d < 10 then 48 + d else 87 + d)"

definition escape_char :: "char \<Rightarrow> string" where
  "escape_char c =
     (if c = CHR 0x22 then [CHR 0x5C, CHR 0x22]
      else if c = CHR 0x5C then [CHR 0x5C, CHR 0x5C]
      else if c = CHR 0x08 then [CHR 0x5C, CHR ''b'']
      else if c = CHR 0x0C then [CHR 0x5C, CHR ''f'']
      else if c = CHR 0x0A then [CHR 0x5C, CHR ''n'']
      else if c = CHR 0x0D then [CHR 0x5C, CHR ''r'']
      else if c = CHR 0x09 then [CHR 0x5C, CHR ''t'']
      else if (of_char c :: nat) < 32 then
        [CHR 0x5C, CHR ''u'', CHR ''0'', CHR ''0'', hex_char (of_char c div 16), hex_char (of_char c mod 16)]
      else [c])"

definition quote_str :: "string \<Rightarrow> string" where
  "quote_str s = CHR 0x22 # concat (map escape_char s) @ [CHR 0x22]"

fun stringify :: "json \<Rightarrow> string" where
  "stringify JNull = ''null''"
| "stringify (JBool b) = (if b then ''true'' else ''false'')"
| "stringify (JNum n) = show_int n"
| "stringify (JStr s) = quote_str s"
| "stringify (JArr vs) = CHR ''['' # join '','' (map stringify vs) @ '']''"
| "stringify (JObj m) =
     CHR ''{'' # join '','' (map (\<lambda>(k, v). quote_str k @ '':'' @ stringify v) m) @ ''}''"

section \<open>Parsing\<close>

definition json_ws :: "char \<Rightarrow> bool" where
  "json_ws c = (c = CHR '' '' \<or> c = CHR 0x09 \<or> c = CHR 0x0A \<or> c = CHR 0x0D)"

definition skip_ws :: "string \<Rightarrow> string" where
  "skip_ws s = dropWhile json_ws s"

definition hex_val :: "char \<Rightarrow> nat option" where
  "hex_val c = (let n = of_char c :: nat in
     if 48 \<le> n \<and> n \<le> 57 then Some (n - 48)
     else if 97 \<le> n \<and> n \<le> 102 then Some (n - 87)
     else if 65 \<le> n \<and> n \<le> 70 then Some (n - 55)
     else None)"

definition hex4 :: "char \<Rightarrow> char \<Rightarrow> char \<Rightarrow> char \<Rightarrow> char option" where
  "hex4 a b c d = (case (hex_val a, hex_val b, hex_val c, hex_val d) of
     (Some w, Some x, Some y, Some z) \<Rightarrow>
       (if w = 0 \<and> x = 0 then Some (char_of (16 * y + z)) else None)
   | _ \<Rightarrow> None)"

definition unescape :: "char \<Rightarrow> char option" where
  "unescape e =
     (if e = CHR 0x22 \<or> e = CHR 0x5C \<or> e = CHR ''/'' then Some e
      else if e = CHR ''b'' then Some (CHR 0x08)
      else if e = CHR ''f'' then Some (CHR 0x0C)
      else if e = CHR ''n'' then Some (CHR 0x0A)
      else if e = CHR ''r'' then Some (CHR 0x0D)
      else if e = CHR ''t'' then Some (CHR 0x09)
      else None)"

fun parse_str :: "string \<Rightarrow> (string \<times> string) option" where
  "parse_str [] = None"
| "parse_str (c # cs) =
     (if c = CHR 0x22 then Some ([], cs)
      else if c = CHR 0x5C then
        (case cs of [] \<Rightarrow> None | e # r \<Rightarrow>
          (case unescape e of
             Some d \<Rightarrow> map_option (\<lambda>(s, t). (d # s, t)) (parse_str r)
           | None \<Rightarrow>
             (case r of w # x # y # z # r' \<Rightarrow>
                (if e = CHR ''u'' then
                   (case hex4 w x y z of None \<Rightarrow> None
                    | Some d \<Rightarrow> map_option (\<lambda>(s, t). (d # s, t)) (parse_str r'))
                 else None)
              | _ \<Rightarrow> None)))
      else if (of_char c :: nat) < 32 then None
      else map_option (\<lambda>(s, t). (c # s, t)) (parse_str cs))"

text \<open>The digits of a number; a leading zero stands alone, a fraction or exponent is refused.\<close>

definition parse_digits :: "string \<Rightarrow> (nat \<times> string) option" where
  "parse_digits s =
     (let ds = takeWhile is_digit s; r = dropWhile is_digit s
      in if ds = [] \<or> (hd ds = CHR ''0'' \<and> length ds > 1)
            \<or> (r \<noteq> [] \<and> hd r \<in> {CHR ''.'', CHR ''e'', CHR ''E''}) then None
         else Some (read_nat 0 ds, r))"

definition parse_num :: "string \<Rightarrow> (json \<times> string) option" where
  "parse_num s = (case s of
     [] \<Rightarrow> None
   | c # r \<Rightarrow>
       if c = CHR ''-'' then map_option (\<lambda>(n, t). (JNum (- int n), t)) (parse_digits r)
       else map_option (\<lambda>(n, t). (JNum (int n), t)) (parse_digits s))"

definition parse_lit :: "string \<Rightarrow> json \<Rightarrow> string \<Rightarrow> (json \<times> string) option" where
  "parse_lit w v s = (if prefix w s then Some (v, drop (length w) s) else None)"

fun parse_value :: "nat \<Rightarrow> string \<Rightarrow> (json \<times> string) option"
  and parse_elems :: "nat \<Rightarrow> string \<Rightarrow> (json list \<times> string) option"
  and parse_members :: "nat \<Rightarrow> string \<Rightarrow> ((string \<times> json) list \<times> string) option"
where
  "parse_value 0 s = None"
| "parse_value (Suc n) s =
     (case skip_ws s of
        [] \<Rightarrow> None
      | c # r \<Rightarrow>
          if c = CHR ''['' then
            (case skip_ws r of [] \<Rightarrow> None
             | d # q \<Rightarrow> if d = CHR '']'' then Some (JArr [], q)
                       else map_option (\<lambda>(vs, t). (JArr vs, t)) (parse_elems n r))
          else if c = CHR ''{'' then
            (case skip_ws r of [] \<Rightarrow> None
             | d # q \<Rightarrow> if d = CHR ''}'' then Some (JObj [], q)
                       else map_option (\<lambda>(m, t). (JObj (obj_spread [] m), t)) (parse_members n r))
          else if c = CHR 0x22 then map_option (\<lambda>(t, q). (JStr t, q)) (parse_str r)
          else if c = CHR ''n'' then parse_lit ''null'' JNull (c # r)
          else if c = CHR ''t'' then parse_lit ''true'' (JBool True) (c # r)
          else if c = CHR ''f'' then parse_lit ''false'' (JBool False) (c # r)
          else parse_num (c # r))"
| "parse_elems 0 s = None"
| "parse_elems (Suc n) s =
     (case parse_value n s of None \<Rightarrow> None
      | Some (v, r) \<Rightarrow>
          (case skip_ws r of [] \<Rightarrow> None
           | d # q \<Rightarrow> if d = CHR '']'' then Some ([v], q)
                     else if d = CHR '','' then map_option (\<lambda>(vs, t). (v # vs, t)) (parse_elems n q)
                     else None))"
| "parse_members 0 s = None"
| "parse_members (Suc n) s =
     (case skip_ws s of [] \<Rightarrow> None
      | c # r \<Rightarrow>
        if c \<noteq> CHR 0x22 then None
        else (case parse_str r of None \<Rightarrow> None
          | Some (k, r1) \<Rightarrow>
            (case skip_ws r1 of [] \<Rightarrow> None
             | e # r2 \<Rightarrow>
               if e \<noteq> CHR '':'' then None
               else (case parse_value n r2 of None \<Rightarrow> None
                 | Some (v, r3) \<Rightarrow>
                   (case skip_ws r3 of [] \<Rightarrow> None
                    | d # q \<Rightarrow> if d = CHR ''}'' then Some ([(k, v)], q)
                              else if d = CHR '','' then
                                map_option (\<lambda>(m, t). ((k, v) # m, t)) (parse_members n q)
                              else None)))))"

definition json_parse :: "string \<Rightarrow> json option" where
  "json_parse s = (case parse_value (Suc (length s)) s of
     None \<Rightarrow> None
   | Some (v, r) \<Rightarrow> if skip_ws r = [] then Some v else None)"

section \<open>Round trip\<close>

text \<open>A value of the language has distinct property names in every object.\<close>

fun json_wf :: "json \<Rightarrow> bool" where
  "json_wf (JArr vs) = (\<forall>v \<in> set vs. json_wf v)"
| "json_wf (JObj m) = (distinct (map fst m) \<and> (\<forall>p \<in> set m. json_wf (snd p)))"
| "json_wf _ = True"

lemma update_new: "k \<notin> fst ` set a \<Longrightarrow> AList.update k v a = a @ [(k, v)]"
  by (induction a) auto

lemma obj_spread_distinct:
  "distinct (map fst a @ map fst b) \<Longrightarrow> obj_spread a b = a @ b"
proof (induction a b rule: obj_spread.induct)
  case (2 a k v b)
  then have "AList.update k v a = a @ [(k, v)]"
    by (intro update_new) auto
  with 2 show ?case by auto
qed simp

lemma json_ws_char [simp]: "skip_ws [] = []"
  by (simp add: skip_ws_def)

lemma skip_ws_Cons: "skip_ws (c # s) = (if json_ws c then skip_ws s else c # s)"
  by (simp add: skip_ws_def)

lemma hex_char_facts:
  "d < 16 \<Longrightarrow> hex_val (hex_char d) = Some d"
  by (auto simp: hex_char_def hex_val_def Let_def)

lemma parse_str_escape:
  "parse_str (escape_char c @ r) = map_option (\<lambda>(s, t). (c # s, t)) (parse_str r)"
proof (cases "(of_char c :: nat) < 32")
  case True
  have u: "unescape (CHR ''u'') = None" by (simp add: unescape_def)
  have h: "hex4 (CHR ''0'') (CHR ''0'') (hex_char (of_char c div 16)) (hex_char (of_char c mod 16))
      = Some c"
  proof -
    have z: "hex_val (CHR ''0'') = Some 0" by (simp add: hex_val_def)
    have "(of_char c :: nat) div 16 < 16" "(of_char c :: nat) mod 16 < 16" using True by simp_all
    then show ?thesis by (simp add: hex4_def hex_char_facts z del: hex_val_def)
  qed
  from True u h show ?thesis
    by (auto simp: escape_char_def unescape_def)
next
  case False
  then show ?thesis
    by (auto simp: escape_char_def unescape_def)
qed

lemma parse_quoted: "parse_str (concat (map escape_char s) @ CHR 0x22 # r) = Some (s, r)"
  by (induction s) (simp_all add: parse_str_escape)

text \<open>What may follow a printed value: for a number, nothing that would continue it.\<close>

definition ends :: "string \<Rightarrow> bool" where
  "ends r \<longleftrightarrow> r = [] \<or> (\<not> is_digit (hd r) \<and> hd r \<notin> {CHR ''.'', CHR ''e'', CHR ''E''})"

lemma ends_simps [simp]: "ends []" "ends (CHR '']'' # r)" "ends (CHR ''}'' # r)" "ends (CHR '','' # r)"
  by (simp_all add: ends_def is_digit_def)

lemma show_nat_hd: "hd (show_nat n) = CHR ''0'' \<Longrightarrow> length (show_nat n) = 1"
proof (induction n rule: show_nat.induct)
  case (1 n)
  show ?case
  proof (cases "n < 10")
    case True
    then show ?thesis by (subst show_nat.simps) simp
  next
    case False
    let ?q = "show_nat (n div 10)"
    have eq: "show_nat n = ?q @ [digit_char (n mod 10)]"
      using False by (subst show_nat.simps) simp
    with "1.prems" have "hd ?q = CHR ''0''" by simp
    with "1.IH" False have one: "length ?q = 1" by simp
    have "n div 10 \<noteq> 0" using False by simp
    have "?q = [CHR ''0'']" using one \<open>hd ?q = CHR ''0''\<close> by (cases ?q) auto
    then have "read_nat 0 ?q = 0" by (simp add: digit_val_def)
    then have "n div 10 = 0" by (simp add: read_show_nat)
    with \<open>n div 10 \<noteq> 0\<close> show ?thesis ..
  qed
qed

lemma parse_digits_show: "ends r \<Longrightarrow> parse_digits (show_nat n @ r) = Some (n, r)"
proof -
  assume r: "ends r"
  then have "takeWhile is_digit r = []" and dr: "dropWhile is_digit r = r"
    by (cases r; simp add: ends_def)+
  then have t: "takeWhile is_digit (show_nat n @ r) = show_nat n"
    and d: "dropWhile is_digit (show_nat n @ r) = r"
    using show_nat_digits [of n] by (simp_all add: takeWhile_append dropWhile_append)
  show ?thesis
    using r show_nat_hd [of n] unfolding parse_digits_def Let_def t d
    by (auto simp: read_show_nat ends_def)
qed

lemma is_digit_hd_show_nat: "is_digit (hd (show_nat n))"
  using show_nat_digits [of n] by (simp add: hd_in_set)

lemma show_int_digit_or_minus: "hd (show_int i) = CHR ''-'' \<or> is_digit (hd (show_int i))"
  using is_digit_hd_show_nat by (simp add: show_int_def)

lemma parse_num_show: "ends r \<Longrightarrow> parse_num (show_int i @ r) = Some (JNum i, r)"
proof (cases "i < 0")
  case True
  assume "ends r"
  with True show ?thesis by (simp add: parse_num_def show_int_def parse_digits_show)
next
  case False
  assume r: "ends r"
  obtain c s where s: "show_nat (nat i) = c # s" by (cases "show_nat (nat i)") auto
  then have "is_digit c" using show_nat_digits [of "nat i"] by simp
  then have c: "c \<noteq> CHR ''-''" by (auto simp: is_digit_def)
  from r have "parse_digits (c # s @ r) = Some (nat i, r)"
    using parse_digits_show [of r "nat i"] s by simp
  with False s c show ?thesis by (simp add: parse_num_def show_int_def)
qed

lemma show_int_Cons:
  obtains c s where "show_int i = c # s" "\<not> json_ws c"
    "c \<notin> {CHR ''['', CHR ''{'', CHR 0x22, CHR ''n'', CHR ''t'', CHR ''f''}"
proof -
  obtain c s where "show_int i = c # s"
    by (cases "show_int i") (auto simp: show_int_def split: if_splits)
  moreover from this have "c = CHR ''-'' \<or> is_digit c"
    using show_int_digit_or_minus [of i] by simp
  ultimately show ?thesis
    by (intro that [of c s]) (auto simp: json_ws_def is_digit_def)
qed

lemma stringify_hd: "stringify v \<noteq> [] \<and> \<not> json_ws (hd (stringify v)) \<and> hd (stringify v) \<noteq> CHR '']''"
proof (cases v)
  case (JNum n)
  have "show_int n \<noteq> []" by (simp add: show_int_def)
  with JNum show_int_digit_or_minus [of n] show ?thesis
    by (auto simp: json_ws_def is_digit_def)
qed (simp_all add: json_ws_def quote_str_def)

lemma length_stringify_pos: "0 < length (stringify v)"
  using stringify_hd [of v] by simp

lemma parse_elems_join:
  assumes IH: "\<And>v n r. v \<in> set vs \<Longrightarrow> ends r \<Longrightarrow> length (stringify v) \<le> n \<Longrightarrow>
      parse_value n (stringify v @ r) = Some (v, r)"
    and "vs \<noteq> []" and "length (join '','' (map stringify vs)) < n"
  shows "parse_elems n (join '','' (map stringify vs) @ CHR '']'' # r) = Some (vs, r)"
  using assms
proof (induction vs arbitrary: n)
  case Nil
  then show ?case by simp
next
  case (Cons v vs)
  from Cons.prems(3) obtain m where n: "n = Suc m" by (cases n) auto
  show ?case
  proof (cases vs)
    case Nil
    with Cons.prems n show ?thesis
      by (simp add: skip_ws_Cons json_ws_def)
  next
    case (Cons w ws)
    let ?j = "join '','' (map stringify vs)"
    have eq: "join '','' (map stringify (v # vs)) = stringify v @ CHR '','' # ?j"
      using Cons by simp
    have len: "length (stringify v) \<le> m" "length ?j < m"
      using Cons.prems(3) n unfolding eq by simp_all
    have "parse_elems m (?j @ CHR '']'' # r) = Some (vs, r)"
      using Cons.IH Cons.prems(1) Cons len(2) by simp
    moreover have "parse_value m (stringify v @ CHR '','' # ?j @ CHR '']'' # r)
        = Some (v, CHR '','' # ?j @ CHR '']'' # r)"
      using Cons.prems(1) len(1) by simp
    ultimately show ?thesis
      unfolding eq n by (simp add: skip_ws_Cons json_ws_def)
  qed
qed

definition member_text :: "string \<times> json \<Rightarrow> string" where
  "member_text p = quote_str (fst p) @ '':'' @ stringify (snd p)"

lemma stringify_JObj:
  "stringify (JObj m) = CHR ''{'' # join '','' (map member_text m) @ ''}''"
proof -
  have "(\<lambda>(k, v). quote_str k @ '':'' @ stringify v) = member_text"
    by (simp add: member_text_def fun_eq_iff)
  then show ?thesis by (simp only: stringify.simps)
qed

lemma parse_members_join:
  assumes IH: "\<And>v n r. v \<in> snd ` set m \<Longrightarrow> ends r \<Longrightarrow> length (stringify v) \<le> n \<Longrightarrow>
      parse_value n (stringify v @ r) = Some (v, r)"
    and "m \<noteq> []" and "length (join '','' (map member_text m)) < n"
  shows "parse_members n (join '','' (map member_text m) @ CHR ''}'' # r) = Some (m, r)"
  using assms
proof (induction m arbitrary: n)
  case Nil
  then show ?case by simp
next
  case (Cons p m)
  obtain k v where p: "p = (k, v)" by (cases p)
  from Cons.prems(3) obtain i where n: "n = Suc i" by (cases n) auto
  note ws = skip_ws_Cons json_ws_def quote_str_def parse_quoted member_text_def p
  show ?case
  proof (cases m)
    case Nil
    have "length (stringify v) \<le> i"
      using Cons.prems(3) n Nil by (simp add: member_text_def p)
    then have "parse_value i (stringify v @ CHR ''}'' # r) = Some (v, CHR ''}'' # r)"
      using Cons.prems(1) p by simp
    with Nil n show ?thesis by (simp add: ws)
  next
    case (Cons w ws)
    let ?j = "join '','' (map member_text m)"
    have eq: "join '','' (map member_text (p # m)) = member_text p @ CHR '','' # ?j"
      using Cons by simp
    have len: "length (stringify v) \<le> i" "length ?j < i"
      using Cons.prems(3) n unfolding eq by (simp_all add: member_text_def p)
    have "parse_members i (?j @ CHR ''}'' # r) = Some (m, r)"
      using Cons.IH Cons.prems(1) Cons len(2) by simp
    moreover have "parse_value i (stringify v @ CHR '','' # ?j @ CHR ''}'' # r)
        = Some (v, CHR '','' # ?j @ CHR ''}'' # r)"
      using Cons.prems(1) p len(1) by simp
    ultimately show ?thesis
      unfolding eq n by (simp add: ws)
  qed
qed

lemma parse_stringify:
  "json_wf v \<Longrightarrow> ends r \<Longrightarrow> length (stringify v) \<le> n \<Longrightarrow>
     parse_value n (stringify v @ r) = Some (v, r)"
proof (induction v arbitrary: n r)
  case JNull
  then show ?case
    by (cases n) (simp_all add: skip_ws_Cons json_ws_def parse_lit_def)
next
  case (JBool b)
  then show ?case
    by (cases n; cases b) (simp_all add: skip_ws_Cons json_ws_def parse_lit_def)
next
  case (JNum i)
  obtain c s where cs: "show_int i = c # s" "\<not> json_ws c"
      "c \<notin> {CHR ''['', CHR ''{'', CHR 0x22, CHR ''n'', CHR ''t'', CHR ''f''}"
    by (rule show_int_Cons)
  from JNum have "parse_num (c # s @ r) = Some (JNum i, r)"
    using parse_num_show [of r i] cs(1) by simp
  with JNum cs show ?case
    by (cases n) (simp_all add: skip_ws_Cons)
next
  case (JStr t)
  then show ?case
    by (cases n) (simp_all add: skip_ws_Cons json_ws_def quote_str_def parse_quoted)
next
  case (JArr vs)
  show ?case
  proof (cases vs)
    case Nil
    with JArr.prems show ?thesis
      by (cases n) (simp_all add: skip_ws_Cons json_ws_def)
  next
    case (Cons v ws)
    let ?j = "join '','' (map stringify vs)"
    from JArr.prems obtain i where n: "n = Suc i" by (cases n) auto
    have "length ?j < i" using JArr.prems n by simp
    then have e: "parse_elems i (?j @ CHR '']'' # r) = Some (vs, r)"
      using JArr.IH JArr.prems(1) Cons by (intro parse_elems_join) auto
    have hd: "?j \<noteq> [] \<and> \<not> json_ws (hd ?j) \<and> hd ?j \<noteq> CHR '']''"
      using stringify_hd [of v] Cons by (cases ws) auto
    then obtain d q where "?j = d # q" "\<not> json_ws d" "d \<noteq> CHR '']''"
      by (cases ?j) auto
    with e n show ?thesis by (simp add: skip_ws_Cons json_ws_def)
  qed
next
  case (JObj m)
  show ?case
  proof (cases m)
    case Nil
    with JObj.prems show ?thesis
      by (cases n) (simp_all add: skip_ws_Cons json_ws_def)
  next
    case (Cons p ws)
    let ?j = "join '','' (map member_text m)"
    from JObj.prems obtain i where n: "n = Suc i" by (cases n) (auto simp: stringify_JObj)
    have len: "length ?j < i"
      using JObj.prems(3) n by (simp add: stringify_JObj del: stringify.simps)
    have e: "parse_members i (?j @ CHR ''}'' # r) = Some (m, r)"
    proof (rule parse_members_join [OF _ _ len])
      fix v i' r'
      assume "v \<in> snd ` set m" and r': "ends r'" "length (stringify v) \<le> i'"
      then obtain x where "x \<in> set m" "v = snd x" by auto
      moreover from this have "json_wf v" using JObj.prems(1) by auto
      ultimately show "parse_value i' (stringify v @ r') = Some (v, r')"
        using JObj.IH r' by (metis snds.intros surjective_pairing)
    qed (simp add: Cons)
    have "\<exists>q. ?j = CHR 0x22 # q"
      using Cons by (cases ws) (simp_all add: member_text_def quote_str_def)
    then obtain q where "?j = CHR 0x22 # q" ..
    moreover have "obj_spread [] m = m"
      using JObj.prems(1) by (simp add: obj_spread_distinct)
    ultimately show ?thesis
      using e n by (simp add: stringify_JObj skip_ws_Cons json_ws_def del: stringify.simps)
  qed
qed

text \<open>Parsing the text of a value gives the value back.\<close>

lemma json_parse_stringify: "json_wf v \<Longrightarrow> json_parse (stringify v) = Some v"
  using parse_stringify [of v "[]" "Suc (length (stringify v))"]
  by (simp add: json_parse_def)

lemma stringify_inject: "json_wf v \<Longrightarrow> json_wf w \<Longrightarrow> stringify v = stringify w \<longleftrightarrow> v = w"
  by (metis json_parse_stringify option.inject)

lemma stringify_not_Nil [simp]: "stringify v \<noteq> []"
  using stringify_hd by blast

lemma json_parse_example:
  "json_parse ''[ 1, -20 ,[true],null]'' = Some (JArr [JNum 1, JNum (-20), JArr [JBool True], JNull])"
  by code_simp

end
