(* ===== verification/Errors.thy ===== *)
theory Errors
  imports Js_Json
begin

text \<open>
  What the SDK throws (\<open>src/errors.ts\<close>, \<open>src/mfa/errors.ts\<close>, \<open>src/passkey/errors.ts\<close>): one
  constructor per error class, and the properties the handlers look at: the class tests
  (\<open>instanceof\<close>), the \<open>error\<close> code, its description and the \<open>message\<close> of the base class.
  Errors of the packages the SDK calls are the last three constructors: \<open>PasskeyGetToken\<close> and
  \<open>AnonymousSession\<close> are classes of \<open>@auth0/auth0-auth-js\<close> the source tests for, and
  \<open>Foreign\<close> carries the message of any other one.
\<close>

record mfa_requirements =
  req_enroll :: "string list option"
  req_challenge :: "string list option"

datatype js_error =
    PlainError string
  | TypeErr string
  | GenericError string string "json option"
  | InvalidConfigurationError string string
  | AuthenticationError string string "string option" "json option"
  | ConnectError string string string "string option" "json option"
  | TimeoutError
  | PopupTimeoutError
  | PopupCancelledError
  | PopupOpenError
  | MfaRequiredError string string "string option" "mfa_requirements option"
  | PasskeyVerificationRequiredError "string list"
  | MissingRefreshTokenError "string option" "string option"
  | MissingScopesError "string option" "string option"
  | UseDpopNonceError "string option"
  | MfaListAuthenticatorsError "string option" string
  | MfaEnrollmentError "string option" string
  | MfaChallengeError "string option" string
  | MfaVerifyError "string option" string
  | MfaEnrollmentFactorsError "string option" string
  | PasskeyError string string
  | MyAccountApiError "json option" "json option" "json option" "json option" "json option"
  | PasskeyGetToken string string "string option" "string list option"
  | AnonymousSession string string
  | Foreign "string option" string

text \<open>\<open>valueOrEmptyString\<close> of \<open>src/errors.ts\<close>.\<close>

definition valueOrEmptyString :: "string option \<Rightarrow> string list \<Rightarrow> string" where
  "valueOrEmptyString v exclude =
     (case v of None \<Rightarrow> [] | Some s \<Rightarrow> if s \<noteq> [] \<and> s \<notin> set exclude then s else [])"

text \<open>\<open>e instanceof GenericError\<close>: every class of \<open>errors.ts\<close> and \<open>mfa/errors.ts\<close> extends it;
  \<open>PasskeyError\<close>, \<open>MyAccountApiError\<close> and the packages' classes do not.\<close>

fun is_GenericError :: "js_error \<Rightarrow> bool" where
  "is_GenericError (PlainError _) = False"
| "is_GenericError (TypeErr _) = False"
| "is_GenericError (PasskeyError _ _) = False"
| "is_GenericError (MyAccountApiError _ _ _ _ _) = False"
| "is_GenericError (PasskeyGetToken _ _ _ _) = False"
| "is_GenericError (AnonymousSession _ _) = False"
| "is_GenericError (Foreign _ _) = False"
| "is_GenericError _ = True"

fun is_MfaRequiredError :: "js_error \<Rightarrow> bool" where
  "is_MfaRequiredError (MfaRequiredError _ _ _ _) = True"
| "is_MfaRequiredError _ = False"

text \<open>The property \<open>e.error\<close>, as each constructor passes it to \<open>super\<close>.\<close>

fun err_code :: "js_error \<Rightarrow> string option" where
  "err_code (GenericError e _ _) = Some e"
| "err_code (InvalidConfigurationError _ _) = Some ''invalid_configuration''"
| "err_code (AuthenticationError e _ _ _) = Some e"
| "err_code (ConnectError e _ _ _ _) = Some e"
| "err_code TimeoutError = Some ''timeout''"
| "err_code PopupTimeoutError = Some ''timeout''"
| "err_code PopupCancelledError = Some ''cancelled''"
| "err_code PopupOpenError = Some ''popup_open''"
| "err_code (MfaRequiredError e _ _ _) = Some e"
| "err_code (PasskeyVerificationRequiredError _) = Some ''verification_required''"
| "err_code (MissingRefreshTokenError _ _) = Some ''missing_refresh_token''"
| "err_code (MissingScopesError _ _) = Some ''missing_scopes''"
| "err_code (UseDpopNonceError _) = Some ''use_dpop_nonce''"
| "err_code (MfaListAuthenticatorsError e _) = e"
| "err_code (MfaEnrollmentError e _) = e"
| "err_code (MfaChallengeError e _) = e"
| "err_code (MfaVerifyError e _) = e"
| "err_code (MfaEnrollmentFactorsError e _) = e"
| "err_code (Foreign e _) = e"
| "err_code _ = None"

text \<open>The \<open>message\<close>, which for a \<open>GenericError\<close> is also its \<open>error_description\<close>.\<close>

fun err_message :: "js_error \<Rightarrow> string" where
  "err_message (PlainError m) = m"
| "err_message (TypeErr m) = m"
| "err_message (GenericError _ d _) = d"
| "err_message (InvalidConfigurationError m sug) = m @ '' '' @ sug"
| "err_message (AuthenticationError _ d _ _) = d"
| "err_message (ConnectError _ d _ _ _) = d"
| "err_message TimeoutError = ''Timeout''"
| "err_message PopupTimeoutError = ''Timeout''"
| "err_message PopupCancelledError = ''Popup closed''"
| "err_message PopupOpenError =
     ''Unable to open a popup for loginWithPopup - window.open returned `null`''"
| "err_message (MfaRequiredError _ d _ _) = d"
| "err_message (PasskeyVerificationRequiredError _) =
     ''Identifier verification is required before passkey creation. '' @
     ''Collect OTP codes for each identifier and call passkey.continueSignup().''"
| "err_message (MissingRefreshTokenError a s) =
     ''Missing Refresh Token (audience: '' @ [CHR 0x27] @ valueOrEmptyString a [''default''] @ [CHR 0x27] @
     '', scope: '' @ [CHR 0x27] @ valueOrEmptyString s [] @ [CHR 0x27] @ '')''"
| "err_message (MissingScopesError a s) =
     ''Missing requested scopes after refresh (audience: '' @ [CHR 0x27] @
     valueOrEmptyString a [''default''] @ [CHR 0x27] @
     '', missing scope: '' @ [CHR 0x27] @ valueOrEmptyString s [] @ [CHR 0x27] @ '')''"
| "err_message (UseDpopNonceError _) = ''Server rejected DPoP proof: wrong nonce''"
| "err_message (MfaListAuthenticatorsError _ d) = d"
| "err_message (MfaEnrollmentError _ d) = d"
| "err_message (MfaChallengeError _ d) = d"
| "err_message (MfaVerifyError _ d) = d"
| "err_message (MfaEnrollmentFactorsError _ d) = d"
| "err_message (PasskeyError _ m) = m"
| "err_message (MyAccountApiError _ _ _ d _) = (case json_str d of None \<Rightarrow> [] | Some t \<Rightarrow> t)"
| "err_message (PasskeyGetToken _ m _ _) = m"
| "err_message (AnonymousSession _ m) = m"
| "err_message (Foreign _ m) = m"

text \<open>\<open>GenericError.fromPayload\<close>\<close>

definition GenericError_fromPayload :: "string \<Rightarrow> string \<Rightarrow> js_error" where
  "GenericError_fromPayload e d = GenericError e d None"

text \<open>
  The message of a missing-refresh-token error contains the text by which the client
  recognises it (\<open>MISSING_REFRESH_TOKEN_ERROR_MESSAGE\<close>).
\<close>

lemma missing_refresh_token_message:
  "str_includes (err_message (MissingRefreshTokenError a s)) ''Missing Refresh Token''"
  unfolding str_includes_iff
  by (intro exI [of _ "[]"] exI) simp

lemma MfaRequired_is_Generic: "is_MfaRequiredError e \<Longrightarrow> is_GenericError e"
  by (cases e) auto

end
