(* ===== verification/Scope.thy ===== *)
theory Scope
  imports Errors
begin

text \<open>
  Scope strings (\<open>src/scope.ts\<close>, the scope functions of \<open>src/Auth0Client.utils.ts\<close> and the
  constants they read): merging, the per-audience defaults of a client, the scope of a
  request, and the set comparisons of the multi-resource refresh. A scope string denotes its
  words (\<open>scope_words\<close>), and the lemmas say what each function does to the set of words.
\<close>

section \<open>Constants\<close>

definition DEFAULT_AUDIENCE :: string where
  "DEFAULT_AUDIENCE = ''default''"

definition DEFAULT_SCOPE :: string where
  "DEFAULT_SCOPE = ''openid profile email''"

definition ONLINE_ACCESS_SCOPE :: string where
  "ONLINE_ACCESS_SCOPE = ''online_access''"

section \<open>scope.ts\<close>

text \<open>\<open>Array.from(new Set(arr))\<close>: the first occurrence of each element, in order.\<close>

fun dedupe :: "'a list \<Rightarrow> 'a list" where
  "dedupe [] = []"
| "dedupe (x # xs) = x # filter (\<lambda>y. y \<noteq> x) (dedupe xs)"

definition getUniqueScopes :: "string option list \<Rightarrow> string" where
  "getUniqueScopes scopes =
     join '' '' (dedupe (split_ws (trim (join '' '' (map the (filter truthy scopes))))))"

text \<open>The \<open>scope\<close> option of a client: absent, a string, or an object from audience to scope.\<close>

datatype auth_scopes = ScopeAbsent | ScopeString string | ScopeRecord "string obj"

definition injectDefaultScopes :: "auth_scopes \<Rightarrow> string \<Rightarrow> string list \<Rightarrow> string obj" where
  "injectDefaultScopes authScopes openIdScope extraScopes =
     (case authScopes of
        ScopeRecord rec \<Rightarrow>
          fold (\<lambda>(key, audienceScopes) requested.
                  AList.update key
                    (getUniqueScopes (Some openIdScope # Some audienceScopes # map Some extraScopes))
                    requested)
            rec [(DEFAULT_AUDIENCE, getUniqueScopes (Some openIdScope # map Some extraScopes))]
      | ScopeString s \<Rightarrow>
          [(DEFAULT_AUDIENCE, getUniqueScopes (Some openIdScope # Some s # map Some extraScopes))]
      | ScopeAbsent \<Rightarrow>
          [(DEFAULT_AUDIENCE, getUniqueScopes (Some openIdScope # None # map Some extraScopes))])"

definition scopesToRequest :: "string obj \<Rightarrow> string option \<Rightarrow> string option \<Rightarrow> string" where
  "scopesToRequest authScopes methodScopes audience =
     (let byAudience = (case audience of Some a \<Rightarrow> if a \<noteq> [] then map_of authScopes a else None
                        | None \<Rightarrow> None);
          scope = (if truthy byAudience then byAudience else map_of authScopes DEFAULT_AUDIENCE)
      in getUniqueScopes [scope, methodScopes])"

section \<open>Auth0Client.utils.ts\<close>

text \<open>\<open>s?.split(" ") || []\<close>\<close>

definition split_opt :: "string option \<Rightarrow> string list" where
  "split_opt s = (case s of None \<Rightarrow> [] | Some t \<Rightarrow> split_str '' '' t)"

definition withoutOnlineAccessScope :: "string list \<Rightarrow> string list" where
  "withoutOnlineAccessScope scopes = filter (\<lambda>s. s \<noteq> ONLINE_ACCESS_SCOPE) scopes"

definition allScopesAreIncluded :: "string option \<Rightarrow> string option \<Rightarrow> bool" where
  "allScopesAreIncluded scopeToInclude scopes =
     list_all (\<lambda>key. key \<in> set (split_opt scopes)) (split_opt scopeToInclude)"

definition getMissingScopes :: "string option \<Rightarrow> string option \<Rightarrow> bool \<Rightarrow> string" where
  "getMissingScopes requestedScope respondedScope onlineAccess =
     (let splitRequested = split_opt requestedScope;
          requestedScopes = (if onlineAccess then withoutOnlineAccessScope splitRequested
                             else splitRequested);
          respondedScopes = split_opt respondedScope
      in join '','' (filter (\<lambda>s. s \<notin> set respondedScopes) requestedScopes))"

definition getScopeToRequest ::
  "bool \<Rightarrow> string option \<Rightarrow> string \<Rightarrow> string option \<Rightarrow> string option \<Rightarrow> string" where
  "getScopeToRequest useMrrt audience scope cachedAudience cachedScope =
     (if useMrrt \<and> truthy cachedAudience \<and> truthy cachedScope then
        (if audience \<noteq> cachedAudience then scope
         else
           (let cachedScopes = split_str '' '' (the cachedScope);
                newScopes = split_str '' '' scope;
                newScopesAreIncluded = list_all (\<lambda>s. s \<in> set cachedScopes) newScopes
            in if length newScopes \<le> length cachedScopes \<and> newScopesAreIncluded
               then the cachedScope else scope))
      else scope)"

definition isRefreshWithMrrt ::
  "string option \<Rightarrow> string option \<Rightarrow> string option \<Rightarrow> string \<Rightarrow> bool" where
  "isRefreshWithMrrt cachedAudience cachedScope requestAudience requestScope =
     (if cachedAudience \<noteq> requestAudience then True
      else \<not> allScopesAreIncluded (Some requestScope) cachedScope)"

section \<open>Words\<close>

text \<open>Cut at every white-space character; the words are the non-empty pieces.\<close>

fun ws_cut :: "string \<Rightarrow> string list" where
  "ws_cut [] = [[]]"
| "ws_cut (c # s) =
     (if is_ws c then [] # ws_cut s
      else (case ws_cut s of [] \<Rightarrow> [[c]] | w # ws \<Rightarrow> (c # w) # ws))"

definition scope_words :: "string \<Rightarrow> string list" where
  "scope_words s = filter (\<lambda>w. w \<noteq> []) (ws_cut s)"

lemma ws_cut_not_Nil [simp]: "ws_cut s \<noteq> []"
  by (cases s) (auto split: list.splits)

lemma ws_cut_append_ws: "is_ws c \<Longrightarrow> ws_cut (a @ c # b) = ws_cut a @ ws_cut b"
  by (induction a) (auto split: list.splits)

lemma ws_cut_no_ws: "\<forall>c \<in> set w. \<not> is_ws c \<Longrightarrow> ws_cut w = [w]"
  by (induction w) auto

lemma is_ws_space [simp]: "is_ws (CHR '' '')"
  by (simp add: is_ws_def)

lemma ws_cut_piece: "w \<in> set (ws_cut s) \<Longrightarrow> c \<in> set w \<Longrightarrow> \<not> is_ws c"
proof (induction s arbitrary: w c)
  case (Cons d s)
  obtain v vs where v: "ws_cut s = v # vs" by (cases "ws_cut s") auto
  with Cons.prems consider "is_ws d" "w \<in> set (ws_cut s)" | "\<not> is_ws d" "w = d # v" | "w \<in> set vs"
    by (auto split: if_splits)
  then show ?case
    using Cons.IH Cons.prems v by cases auto
qed simp

lemma scope_words_append_ws:
  "is_ws c \<Longrightarrow> scope_words (a @ c # b) = scope_words a @ scope_words b"
  by (simp add: scope_words_def ws_cut_append_ws)

lemma scope_words_Cons_ws: "is_ws c \<Longrightarrow> scope_words (c # b) = scope_words b"
  using scope_words_append_ws [of c "[]" b] by (simp add: scope_words_def)

lemma scope_words_Nil [simp]: "scope_words [] = []"
  by (simp add: scope_words_def)

lemma scope_words_snoc_ws: "is_ws c \<Longrightarrow> scope_words (a @ [c]) = scope_words a"
  using scope_words_append_ws [of c a "[]"] by simp

lemma scope_words_dropWhile: "scope_words (dropWhile is_ws s) = scope_words s"
  by (induction s) (simp_all add: scope_words_Cons_ws)

lemma scope_words_rstrip: "scope_words (rev (dropWhile is_ws (rev s))) = scope_words s"
  by (induction s rule: rev_induct) (simp_all add: scope_words_snoc_ws)

lemma scope_words_trim: "scope_words (trim s) = scope_words s"
  by (simp add: trim_def scope_words_rstrip scope_words_dropWhile)

lemma scope_words_no_ws: "\<forall>c \<in> set w. \<not> is_ws c \<Longrightarrow> scope_words w = (if w = [] then [] else [w])"
  by (simp add: scope_words_def ws_cut_no_ws)

lemma scope_words_join: "scope_words (join '' '' xs) = concat (map scope_words xs)"
  by (induction "'' ''" xs rule: join.induct) (simp_all add: scope_words_append_ws)

lemma split_ws_end: "dropWhile (\<lambda>c. \<not> is_ws c) s = [] \<Longrightarrow> split_ws s = [s]"
  by (subst split_ws.simps) (simp only: Let_def if_True, metis append_Nil2 takeWhile_dropWhile_id)

lemma split_ws_more: "dropWhile (\<lambda>c. \<not> is_ws c) s \<noteq> [] \<Longrightarrow>
    split_ws s = takeWhile (\<lambda>c. \<not> is_ws c) s #
      split_ws (dropWhile is_ws (dropWhile (\<lambda>c. \<not> is_ws c) s))"
  by (subst split_ws.simps) (simp only: Let_def if_False)

lemma split_ws_not_Nil [simp]: "split_ws s \<noteq> []"
proof (cases "dropWhile (\<lambda>c. \<not> is_ws c) s = []")
  case True
  from split_ws_end [OF this] show ?thesis by simp
next
  case False
  from split_ws_more [OF this] show ?thesis by simp
qed

lemma hd_split_ws: "hd (split_ws s) = takeWhile (\<lambda>c. \<not> is_ws c) s"
proof (cases "dropWhile (\<lambda>c. \<not> is_ws c) s = []")
  case True
  then show ?thesis by (metis append_Nil2 list.sel(1) split_ws_end takeWhile_dropWhile_id)
next
  case False
  from split_ws_more [OF this] show ?thesis by simp
qed

lemma split_ws_words: "filter (\<lambda>w. w \<noteq> []) (split_ws s) = scope_words s"
proof (induction s rule: split_ws.induct)
  case (1 s)
  let ?w = "takeWhile (\<lambda>c. \<not> is_ws c) s" and ?r = "dropWhile (\<lambda>c. \<not> is_ws c) s"
  have nw: "\<forall>c \<in> set ?w. \<not> is_ws c" by (auto dest: set_takeWhileD)
  show ?case
  proof (cases "?r = []")
    case True
    then have "?w = s" by (simp add: takeWhile_eq_all_conv dropWhile_eq_Nil_conv)
    then have "\<forall>c \<in> set s. \<not> is_ws c" using nw by simp
    then show ?thesis by (simp add: split_ws_end [OF True] scope_words_no_ws)
  next
    case False
    then obtain c r where r: "?r = c # r" by (cases ?r) auto
    then have c: "is_ws c" by (metis hd_dropWhile list.sel(1) list.distinct(1))
    have "s = ?w @ c # r" by (metis r takeWhile_dropWhile_id)
    then have "scope_words s = scope_words ?w @ scope_words r"
      using scope_words_append_ws [OF c, of ?w r] by simp
    moreover have "filter (\<lambda>w. w \<noteq> []) (split_ws (dropWhile is_ws ?r)) = scope_words r"
      using 1 False c r by (simp add: scope_words_dropWhile)
    ultimately show ?thesis
      using nw by (simp only: split_ws_more [OF False] filter.simps) (simp add: scope_words_no_ws)
  qed
qed

lemma split_ws_hd: "s \<noteq> [] \<Longrightarrow> \<not> is_ws (last s) \<Longrightarrow> w \<in> set (tl (split_ws s)) \<Longrightarrow> w \<noteq> []"
proof (induction s arbitrary: w rule: split_ws.induct)
  case (1 s)
  let ?w = "takeWhile (\<lambda>c. \<not> is_ws c) s" and ?r = "dropWhile (\<lambda>c. \<not> is_ws c) s"
  let ?q = "dropWhile is_ws ?r"
  show ?case
  proof (cases "?r = []")
    case True
    with "1.prems" show ?thesis by (simp add: split_ws_end)
  next
    case False
    then have "last ?r = last s" by (metis last_appendR takeWhile_dropWhile_id)
    then have nw: "\<not> is_ws (last ?r)" using "1.prems" by simp
    have q: "?q \<noteq> []" 
      using nw False by (metis dropWhile_eq_Nil_conv last_in_set)
    have lq: "last ?q = last ?r" by (metis q last_appendR takeWhile_dropWhile_id)
    have hq: "\<not> is_ws (hd ?q)" using q by (rule hd_dropWhile)
    have w: "w \<in> set (split_ws ?q)"
      using "1.prems"(3) by (simp only: split_ws_more [OF False] list.sel)
    obtain d e where de: "?q = d # e" using q by (cases ?q) auto
    have "hd (split_ws ?q) \<noteq> []"
      using hq de by (simp add: hd_split_ws)
    moreover have "w \<in> set (tl (split_ws ?q)) \<Longrightarrow> w \<noteq> []"
      using "1.IH" [OF refl refl False q] nw lq by simp
    ultimately show ?thesis using w by (metis split_ws_not_Nil list.collapse set_ConsD)
  qed
qed

lemma split_ws_trimmed: "s \<noteq> [] \<Longrightarrow> \<not> is_ws (hd s) \<Longrightarrow> \<not> is_ws (last s) \<Longrightarrow> split_ws s = scope_words s"
proof -
  assume s: "s \<noteq> []" "\<not> is_ws (hd s)" "\<not> is_ws (last s)"
  then have "hd (split_ws s) \<noteq> []" by (cases s) (simp_all add: hd_split_ws)
  with s have "\<forall>w \<in> set (split_ws s). w \<noteq> []"
    by (metis split_ws_hd split_ws_not_Nil list.collapse set_ConsD)
  then have "filter (\<lambda>w. w \<noteq> []) (split_ws s) = split_ws s" by (simp add: filter_id_conv)
  then show ?thesis by (simp add: split_ws_words)
qed

lemma trim_ends: "trim s \<noteq> [] \<Longrightarrow> \<not> is_ws (hd (trim s)) \<and> \<not> is_ws (last (trim s))"
proof -
  assume ne: "trim s \<noteq> []"
  let ?d = "dropWhile is_ws s"
  let ?e = "dropWhile is_ws (rev ?d)"
  have "?e \<noteq> []" using ne by (simp add: trim_def)
  then have l: "\<not> is_ws (hd ?e)" by (rule hd_dropWhile)
  have "rev ?d = takeWhile is_ws (rev ?d) @ ?e" by simp
  then have "?d = rev ?e @ rev (takeWhile is_ws (rev ?d))" by (metis rev_append rev_rev_ident)
  then have "hd ?d = hd (rev ?e)" using \<open>?e \<noteq> []\<close> by (metis hd_append2 rev_is_Nil_conv)
  moreover have "?d \<noteq> []" using \<open>?e \<noteq> []\<close> by (metis dropWhile.simps(1) rev.simps(1))
  then have "\<not> is_ws (hd ?d)" by (rule hd_dropWhile)
  ultimately show ?thesis using l \<open>?e \<noteq> []\<close> by (simp add: trim_def last_rev)
qed

lemma split_ws_trim: "split_ws (trim s) = (if scope_words s = [] then [[]] else scope_words s)"
proof (cases "trim s = []")
  case True
  then have "scope_words s = []" by (metis scope_words_trim scope_words_Nil)
  with True show ?thesis by (simp add: split_ws_end)
next
  case False
  then have "split_ws (trim s) = scope_words s"
    using trim_ends split_ws_trimmed scope_words_trim by metis
  then show ?thesis using split_ws_not_Nil [of "trim s"] by auto
qed

section \<open>Merging scopes\<close>

lemma set_dedupe [simp]: "set (dedupe xs) = set xs"
  by (induction xs) auto

lemma distinct_dedupe [simp]: "distinct (dedupe xs)"
  by (induction xs) auto

lemma filter_distinct_cons: "distinct (x # xs) \<Longrightarrow> filter (\<lambda>y. y \<noteq> x) xs = xs"
  by (induction xs) auto

lemma dedupe_distinct [simp]: "distinct xs \<Longrightarrow> dedupe xs = xs"
  by (induction xs) (simp_all add: filter_distinct_cons)

lemma dedupe_eq_Nil [simp]: "dedupe xs = [] \<longleftrightarrow> xs = []"
  by (cases xs) auto

text \<open>All the words of a list of optional scope strings, in order.\<close>

definition all_words :: "string option list \<Rightarrow> string list" where
  "all_words scopes = concat (map scope_words (map the (filter truthy scopes)))"

lemma getUniqueScopes_eq: "getUniqueScopes scopes = join '' '' (dedupe (all_words scopes))"
proof -
  let ?s = "join '' '' (map the (filter truthy scopes))"
  have "scope_words ?s = all_words scopes" by (simp add: scope_words_join all_words_def)
  then show ?thesis
    by (cases "all_words scopes") (simp_all add: getUniqueScopes_def split_ws_trim)
qed

lemma scope_words_ok: "w \<in> set (scope_words s) \<Longrightarrow> w \<noteq> [] \<and> (\<forall>c \<in> set w. \<not> is_ws c)"
  by (auto simp: scope_words_def dest: ws_cut_piece)

lemma all_words_ok: "w \<in> set (all_words ss) \<Longrightarrow> w \<noteq> [] \<and> (\<forall>c \<in> set w. \<not> is_ws c)"
  by (auto simp: all_words_def dest: scope_words_ok)

lemma concat_words_id:
  "\<forall>w \<in> set ws. w \<noteq> [] \<and> (\<forall>c \<in> set w. \<not> is_ws c) \<Longrightarrow> concat (map scope_words ws) = ws"
  by (induction ws) (auto simp: scope_words_no_ws)

lemma scope_words_getUniqueScopes [simp]:
  "scope_words (getUniqueScopes scopes) = dedupe (all_words scopes)"
proof -
  have "\<forall>w \<in> set (dedupe (all_words scopes)). w \<noteq> [] \<and> (\<forall>c \<in> set w. \<not> is_ws c)"
    using all_words_ok by auto
  then show ?thesis
    by (simp add: getUniqueScopes_eq scope_words_join concat_words_id)
qed

lemma truthy_getUniqueScopes: "all_words ss \<noteq> [] \<Longrightarrow> getUniqueScopes ss \<noteq> []"
  by (metis dedupe_eq_Nil scope_words_Nil scope_words_getUniqueScopes)

lemma split_getUniqueScopes:
  "split_str '' '' (getUniqueScopes scopes) =
     (if all_words scopes = [] then [[]] else dedupe (all_words scopes))"
proof (cases "all_words scopes = []")
  case True
  then show ?thesis by (simp add: getUniqueScopes_eq)
next
  case False
  have "CHR '' '' \<notin> set w" if "w \<in> set (dedupe (all_words scopes))" for w
    using that all_words_ok [of w scopes] is_ws_space by auto
  then have "split_str '' '' (join '' '' (dedupe (all_words scopes))) = dedupe (all_words scopes)"
    using False by (intro split_str_join) auto
  with False show ?thesis by (simp add: getUniqueScopes_eq)
qed

lemma all_words_Cons [simp]:
  "all_words (None # ss) = all_words ss"
  "all_words (Some t # ss) = scope_words t @ all_words ss"
  "all_words [] = []"
  by (simp_all add: all_words_def)

lemma set_all_words_mono: "Some t \<in> set ss \<Longrightarrow> set (scope_words t) \<subseteq> set (all_words ss)"
  by (induction ss) (auto simp: all_words_def split: if_splits)

section \<open>Properties\<close>

text \<open>
  \<open>getUniqueScopes\<close> returns exactly the words of its truthy arguments, each of them once and
  separated by single spaces, and merging a merged string again changes nothing.
\<close>

theorem getUniqueScopes_merges:
  "set (scope_words (getUniqueScopes scopes)) = set (all_words scopes) \<and>
   distinct (scope_words (getUniqueScopes scopes)) \<and>
   getUniqueScopes scopes = join '' '' (scope_words (getUniqueScopes scopes)) \<and>
   getUniqueScopes [Some (getUniqueScopes scopes)] = getUniqueScopes scopes"
proof (intro conjI)
  show "getUniqueScopes [Some (getUniqueScopes scopes)] = getUniqueScopes scopes"
    by (simp add: getUniqueScopes_eq [of "[Some (getUniqueScopes scopes)]"])
      (simp add: getUniqueScopes_eq)
qed (simp_all, simp add: getUniqueScopes_eq)

definition base_words :: "string \<Rightarrow> string list \<Rightarrow> string list" where
  "base_words openIdScope extraScopes = all_words (Some openIdScope # map Some extraScopes)"

lemma set_words_insert: "set (all_words (x # b # ss)) = set (all_words (b # x # ss))"
  by (cases x; cases b) auto

lemma fold_inject_base:
  assumes "\<forall>v \<in> ran (map_of acc). W \<subseteq> set (scope_words v)"
    and "\<And>k v. W \<subseteq> set (scope_words (f k v))"
  shows "\<forall>v \<in> ran (map_of (fold (\<lambda>(k, v) r. AList.update k (f k v) r) rec acc)).
           W \<subseteq> set (scope_words v)"
  using assms
proof (induction rec arbitrary: acc)
  case (Cons p rec)
  obtain k v where p: "p = (k, v)" by (cases p)
  have "\<forall>u \<in> ran (map_of (AList.update k (f k v) acc)). W \<subseteq> set (scope_words u)"
    using Cons.prems(1) Cons.prems(2) [of k v] by (auto simp: ran_def split: if_splits)
  from Cons.IH [OF this Cons.prems(2)] p show ?case by simp
qed simp

lemma fold_inject_default:
  "map_of acc d \<noteq> None \<Longrightarrow>
     map_of (fold (\<lambda>(k, v) r. AList.update k (f k v) r) rec acc) d \<noteq> None"
  by (induction rec arbitrary: acc) (auto simp: case_prod_unfold)

lemma injectDefaultScopes_ran:
  "\<forall>v \<in> ran (map_of (injectDefaultScopes a oidc extras)).
     set (base_words oidc extras) \<subseteq> set (scope_words v)"
proof (cases a)
  case (ScopeRecord rec)
  have "\<forall>v \<in> ran (map_of (fold (\<lambda>(k, v) r. AList.update k
            (getUniqueScopes (Some oidc # Some v # map Some extras)) r)
            rec [(DEFAULT_AUDIENCE, getUniqueScopes (Some oidc # map Some extras))])).
          set (base_words oidc extras) \<subseteq> set (scope_words v)"
    by (rule fold_inject_base) (auto simp: base_words_def)
  with ScopeRecord show ?thesis by (simp add: injectDefaultScopes_def)
qed (auto simp: injectDefaultScopes_def base_words_def)

lemma injectDefaultScopes_default:
  "map_of (injectDefaultScopes a oidc extras) DEFAULT_AUDIENCE \<noteq> None"
proof (cases a)
  case (ScopeRecord rec)
  then show ?thesis
    using fold_inject_default [of "[(DEFAULT_AUDIENCE, getUniqueScopes (Some oidc # map Some extras))]"
        DEFAULT_AUDIENCE "\<lambda>k v. getUniqueScopes (Some oidc # Some v # map Some extras)" rec]
    by (simp add: injectDefaultScopes_def)
qed (simp_all add: injectDefaultScopes_def)

text \<open>
  with the scopes a client was configured with, every request's scope holds the \<open>openid\<close>
  scope, the session scope the client injects, and all scopes the method asked for, whatever
  the audience.
\<close>

theorem scopesToRequest_keeps_base:
  "set (base_words oidc extras) \<union> set (all_words [methodScopes])
     \<subseteq> set (scope_words (scopesToRequest (injectDefaultScopes a oidc extras) methodScopes audience))"
proof -
  let ?m = "map_of (injectDefaultScopes a oidc extras)"
  let ?b = "case audience of Some x \<Rightarrow> if x \<noteq> [] then ?m x else None | None \<Rightarrow> None"
  let ?s = "if truthy ?b then ?b else ?m DEFAULT_AUDIENCE"
  obtain v where v: "?s = Some v" "v \<in> ran ?m"
  proof (cases "truthy ?b")
    case True
    then obtain v where b: "?b = Some v" by (cases ?b) auto
    then have "v \<in> ran ?m" by (auto intro: ranI split: option.splits if_splits)
    with True b show ?thesis by (intro that [of v]) simp_all
  next
    case False
    moreover obtain v where "?m DEFAULT_AUDIENCE = Some v"
      using injectDefaultScopes_default by blast
    ultimately show ?thesis by (intro that [of v]) (auto intro: ranI)
  qed
  from v(2) have "set (base_words oidc extras) \<subseteq> set (scope_words v)"
    using injectDefaultScopes_ran by blast
  moreover have "scopesToRequest (injectDefaultScopes a oidc extras) methodScopes audience
      = getUniqueScopes [Some v, methodScopes]"
    using v(1) by (simp add: scopesToRequest_def Let_def)
  ultimately show ?thesis by (cases methodScopes) auto
qed

lemma join_comma_Nil:
  "[] \<notin> set ws \<Longrightarrow> join '','' ws = [] \<longleftrightarrow> ws = []"
  by (induction "'',''" ws rule: join.induct) auto

text \<open>
  after a multi-resource refresh, \<open>getMissingScopes\<close> reports nothing exactly when every word
  of the requested (merged) scope is among the response's scopes, \<open>online_access\<close> excepted in
  online mode.
\<close>

theorem getMissingScopes_empty_iff:
  "getMissingScopes (Some (getUniqueScopes scopes)) responded onlineAccess = [] \<longleftrightarrow>
     set (all_words scopes) - (if onlineAccess then {ONLINE_ACCESS_SCOPE} else {})
       \<subseteq> set (split_opt responded)"
proof (cases "all_words scopes = []")
  case True
  then show ?thesis
    by (simp add: getMissingScopes_def split_opt_def [of "Some _"] split_getUniqueScopes Let_def
        withoutOnlineAccessScope_def ONLINE_ACCESS_SCOPE_def)
next
  case False
  let ?req = "if onlineAccess then withoutOnlineAccessScope (dedupe (all_words scopes))
              else dedupe (all_words scopes)"
  let ?miss = "filter (\<lambda>s. s \<notin> set (split_opt responded)) ?req"
  have "[] \<notin> set ?miss"
    using all_words_ok [of "[]" scopes] by (auto simp: withoutOnlineAccessScope_def)
  then have "join '','' ?miss = [] \<longleftrightarrow> ?miss = []" by (rule join_comma_Nil)
  also have "\<dots> \<longleftrightarrow> set ?req \<subseteq> set (split_opt responded)"
    by (auto simp: filter_empty_conv)
  also have "set ?req = set (all_words scopes) - (if onlineAccess then {ONLINE_ACCESS_SCOPE} else {})"
    by (auto simp: withoutOnlineAccessScope_def)
  finally show ?thesis
    using False by (simp add: getMissingScopes_def split_opt_def [of "Some _"] split_getUniqueScopes Let_def)
qed

text \<open>
  the scope sent with a refresh never leaves out a requested scope, and it differs from the
  requested one only for multi-resource refreshes of the audience the cached token was issued
  for, where it is the cached token's scope.
\<close>

theorem getScopeToRequest_never_downscopes:
  "set (split_str '' '' scope) \<subseteq>
     set (split_str '' '' (getScopeToRequest useMrrt audience scope cachedAudience cachedScope)) \<and>
   (getScopeToRequest useMrrt audience scope cachedAudience cachedScope = scope \<or>
      (useMrrt \<and> audience = cachedAudience \<and>
       Some (getScopeToRequest useMrrt audience scope cachedAudience cachedScope) = cachedScope))"
proof -
  have "Some (the cachedScope) = cachedScope" if "truthy cachedScope"
    using that by (cases cachedScope) auto
  then show ?thesis
    by (auto simp: getScopeToRequest_def Let_def list_all_iff)
qed

end
