(* ===== verification/CacheKey.thy ===== *)
theory CacheKey
  imports Scope
begin

text \<open>
  Cache keys (\<open>src/cache/shared.ts\<close>): building the text of a key, reading it back, and when
  the two are inverse.
\<close>

definition CACHE_KEY_PREFIX :: string where
  "CACHE_KEY_PREFIX = ''@@auth0spajs@@''"

definition CACHE_KEY_ID_TOKEN_SUFFIX :: string where
  "CACHE_KEY_ID_TOKEN_SUFFIX = ''@@user@@''"

text \<open>\<open>clientId\<close> is optional because reading a text without separator leaves it undefined.\<close>

record cache_key =
  ck_clientId :: "string option"
  ck_scope :: "string option"
  ck_audience :: "string option"
  ck_prefix :: string
  ck_suffix :: "string option"

definition new_CacheKey :: "string option \<Rightarrow> string option \<Rightarrow> string option \<Rightarrow> cache_key" where
  "new_CacheKey clientId scope audience =
     \<lparr>ck_clientId = clientId, ck_scope = scope, ck_audience = audience,
      ck_prefix = CACHE_KEY_PREFIX, ck_suffix = None\<rparr>"

definition toKey :: "cache_key \<Rightarrow> string" where
  "toKey k = join ''::'' (map the (filter truthy
     [Some (ck_prefix k), ck_clientId k, ck_audience k, ck_scope k, ck_suffix k]))"

text \<open>\<open>[prefix, clientId, audience, scope] = key.split('::')\<close>\<close>

definition nth_opt :: "'a list \<Rightarrow> nat \<Rightarrow> 'a option" where
  "nth_opt xs i = (if i < length xs then Some (xs ! i) else None)"

definition fromKey :: "string \<Rightarrow> cache_key" where
  "fromKey key = (let parts = split_str ''::'' key in
     \<lparr>ck_clientId = nth_opt parts 1, ck_scope = nth_opt parts 3, ck_audience = nth_opt parts 2,
      ck_prefix = hd parts, ck_suffix = None\<rparr>)"

text \<open>The key of the id token of a client.\<close>

definition getIdTokenCacheKey :: "string option \<Rightarrow> string" where
  "getIdTokenCacheKey clientId =
     toKey \<lparr>ck_clientId = clientId, ck_scope = None, ck_audience = None,
            ck_prefix = CACHE_KEY_PREFIX, ck_suffix = Some CACHE_KEY_ID_TOKEN_SUFFIX\<rparr>"

text \<open>
  A component that survives the trip: not empty, and no \<open>::\<close> in it nor formed with the
  separator after it.
\<close>

definition key_part :: "string \<Rightarrow> bool" where
  "key_part s \<longleftrightarrow> s \<noteq> [] \<and> sep_clean ''::'' s"

definition canonical_key :: "cache_key \<Rightarrow> bool" where
  "canonical_key k \<longleftrightarrow> ck_suffix k = None \<and> ck_prefix k = CACHE_KEY_PREFIX \<and>
     (case (ck_clientId k, ck_audience k, ck_scope k) of
        (Some c, Some a, Some s) \<Rightarrow> key_part c \<and> key_part a \<and> key_part s
      | _ \<Rightarrow> False)"

lemma key_part_prefix [simp]: "key_part CACHE_KEY_PREFIX"
  by code_simp

lemma sep_clean_prefix [simp]: "sep_clean ''::'' CACHE_KEY_PREFIX"
  using key_part_prefix by (simp add: key_part_def)

lemma prefix_not_Nil [simp]: "CACHE_KEY_PREFIX \<noteq> []"
  by (simp add: CACHE_KEY_PREFIX_def)

lemma split_toKey:
  assumes "canonical_key k"
  shows "split_str ''::'' (toKey k) =
           [CACHE_KEY_PREFIX, the (ck_clientId k), the (ck_audience k), the (ck_scope k)]"
proof -
  from assms obtain c a s where k: "ck_clientId k = Some c" "ck_audience k = Some a"
      "ck_scope k = Some s" "ck_prefix k = CACHE_KEY_PREFIX" "ck_suffix k = None"
    and p: "key_part c" "key_part a" "key_part s"
    by (auto simp: canonical_key_def split: option.splits)
  have "toKey k = join ''::'' [CACHE_KEY_PREFIX, c, a, s]"
    using k p by (simp add: toKey_def key_part_def)
  moreover have "split_str ''::'' (join ''::'' [CACHE_KEY_PREFIX, c, a, s]) = [CACHE_KEY_PREFIX, c, a, s]"
    using p by (intro split_str_join) (auto simp: key_part_def)
  ultimately show ?thesis using k by simp
qed

lemma fromKey_of_toKey: "canonical_key k \<Longrightarrow> fromKey (toKey k) = k"
  by (cases k) (auto simp: fromKey_def split_toKey nth_opt_def Let_def canonical_key_def
      split: option.splits)

text \<open>
  a cache key built from a client id, an audience and a scope is read back from its text
  unchanged, when none of the three is empty or holds the separator \<open>::\<close>.
\<close>

theorem fromKey_toKey: "canonical_key k \<Longrightarrow> fromKey (toKey k) = k"
  by (rule fromKey_of_toKey)

theorem fromKey_toKey_witness:
  "fromKey (toKey (new_CacheKey (Some ''client1'') (Some ''openid profile'') (Some ''https://api'')))
     = new_CacheKey (Some ''client1'') (Some ''openid profile'') (Some ''https://api'')"
proof -
  have "canonical_key (new_CacheKey (Some ''client1'') (Some ''openid profile'') (Some ''https://api''))"
    by code_simp
  then show ?thesis by (rule fromKey_toKey)
qed

text \<open>
  The condition is needed: an audience with \<open>::\<close> in it, such as a literal IPv6 address, is cut
  in two, and a key without audience takes its scope for the audience.
\<close>

lemma fromKey_ipv6_audience:
  "ck_audience (fromKey (toKey (new_CacheKey (Some ''c'') (Some ''openid'') (Some ''http://[::1]''))))
     = Some ''http://[''"
  by code_simp

lemma toKey_collision:
  "toKey (new_CacheKey (Some ''c'') (Some ''x'') None) = toKey (new_CacheKey (Some ''c'') None (Some ''x''))"
  by (simp add: toKey_def new_CacheKey_def)

end
