(* ===== verification/Cache.thy ===== *)
theory Cache
  imports CacheKey
begin

text \<open>
  What the SDK caches and where (\<open>src/cache/shared.ts\<close>, \<open>cache-memory.ts\<close>,
  \<open>cache-localstorage.ts\<close>, \<open>key-manifest.ts\<close>): the entries, the interface \<open>ICache\<close>, its two
  implementations, and the manifest of keys for a cache that cannot list them. The locale
  \<open>cache_laws\<close> is the contract of the interface; both implementations are interpreted.
\<close>

section \<open>Entries\<close>

record decoded_token =
  dt_claims :: "json obj"
  dt_user :: "json obj"

record id_token_entry =
  ide_id_token :: "string option"
  ide_decodedToken :: "decoded_token option"

text \<open>\<open>Partial<CacheEntry>\<close>\<close>

record cache_entry =
  ce_id_token :: "string option"
  ce_token_type :: "string option"
  ce_access_token :: "string option"
  ce_expires_in :: "int option"
  ce_decodedToken :: "decoded_token option"
  ce_audience :: "string option"
  ce_scope :: "string option"
  ce_client_id :: "string option"
  ce_refresh_token :: "string option"
  ce_oauthTokenScope :: "string option"

definition empty_entry :: cache_entry where
  "empty_entry = \<lparr>ce_id_token = None, ce_token_type = None, ce_access_token = None,
     ce_expires_in = None, ce_decodedToken = None, ce_audience = None, ce_scope = None,
     ce_client_id = None, ce_refresh_token = None, ce_oauthTokenScope = None\<rparr>"

definition CacheKey_fromCacheEntry :: "cache_entry \<Rightarrow> cache_key" where
  "CacheKey_fromCacheEntry entry = new_CacheKey (ce_client_id entry) (ce_scope entry) (ce_audience entry)"

text \<open>
  A stored value: \<open>WrappedCacheEntry\<close>, \<open>KeyManifestEntry\<close> or \<open>IdTokenEntry\<close>. The expiry of a
  wrapped entry is \<^const>\<open>None\<close> when it is \<open>NaN\<close>, the sum with a missing \<open>expires_in\<close>.
\<close>

datatype cacheable =
    Wrapped cache_entry "int option"
  | Manifest "string list"
  | IdTok id_token_entry

fun entry_body :: "cacheable \<Rightarrow> cache_entry option" where
  "entry_body (Wrapped b _) = Some b"
| "entry_body _ = None"

section \<open>The interface ICache\<close>

record 'c icache =
  ic_get :: "'c \<Rightarrow> string \<Rightarrow> cacheable option"
  ic_set :: "string \<Rightarrow> cacheable \<Rightarrow> 'c \<Rightarrow> 'c"
  ic_remove :: "string \<Rightarrow> 'c \<Rightarrow> 'c"
  ic_allKeys :: "('c \<Rightarrow> string list) option"

section \<open>InMemoryCache\<close>

definition InMemoryCache :: "cacheable obj icache" where
  "InMemoryCache = \<lparr>ic_get = map_of, ic_set = AList.update, ic_remove = AList.delete,
     ic_allKeys = Some obj_keys\<rparr>"

section \<open>LocalStorageCache\<close>

text \<open>The JSON form of the stored values.\<close>

definition decoded_to_json :: "decoded_token \<Rightarrow> json" where
  "decoded_to_json d = JObj [(''claims'', JObj (dt_claims d)), (''user'', JObj (dt_user d))]"

definition entry_to_json :: "cache_entry \<Rightarrow> json" where
  "entry_to_json e = JObj (
     opt_prop ''id_token'' (map_option JStr (ce_id_token e)) @
     opt_prop ''token_type'' (map_option JStr (ce_token_type e)) @
     opt_prop ''access_token'' (map_option JStr (ce_access_token e)) @
     opt_prop ''expires_in'' (map_option JNum (ce_expires_in e)) @
     opt_prop ''decodedToken'' (map_option decoded_to_json (ce_decodedToken e)) @
     opt_prop ''audience'' (map_option JStr (ce_audience e)) @
     opt_prop ''scope'' (map_option JStr (ce_scope e)) @
     opt_prop ''client_id'' (map_option JStr (ce_client_id e)) @
     opt_prop ''refresh_token'' (map_option JStr (ce_refresh_token e)) @
     opt_prop ''oauthTokenScope'' (map_option JStr (ce_oauthTokenScope e)))"

fun cacheable_to_json :: "cacheable \<Rightarrow> json" where
  "cacheable_to_json (Wrapped b x) = JObj [(''body'', entry_to_json b),
     (''expiresAt'', case x of Some n \<Rightarrow> JNum n | None \<Rightarrow> JNull)]"
| "cacheable_to_json (Manifest ks) = JObj [(''keys'', JArr (map JStr ks))]"
| "cacheable_to_json (IdTok i) = JObj (
     opt_prop ''id_token'' (map_option JStr (ide_id_token i)) @
     opt_prop ''decodedToken'' (map_option decoded_to_json (ide_decodedToken i)))"

text \<open>
  The SDK casts what \<open>JSON.parse\<close> returns to the type it expects; the value is read as the kind
  of entry its properties show. \<open>JSON.stringify\<close> prints \<open>NaN\<close> as \<open>null\<close>, and a \<open>null\<close> expiry
  counts as zero in the comparison with the clock.
\<close>

definition json_props :: "json option \<Rightarrow> json obj" where
  "json_props v = (case v of Some (JObj m) \<Rightarrow> m | _ \<Rightarrow> [])"

definition decoded_of_json :: "json option \<Rightarrow> decoded_token option" where
  "decoded_of_json v = (case v of
     Some (JObj m) \<Rightarrow>
       Some \<lparr>dt_claims = json_props (map_of m ''claims''), dt_user = json_props (map_of m ''user'')\<rparr>
   | _ \<Rightarrow> None)"

definition json_num :: "json option \<Rightarrow> int option" where
  "json_num v = (case v of Some (JNum n) \<Rightarrow> Some n | _ \<Rightarrow> None)"

definition entry_of_json :: "json obj \<Rightarrow> cache_entry" where
  "entry_of_json m = \<lparr>
     ce_id_token = json_str (map_of m ''id_token''),
     ce_token_type = json_str (map_of m ''token_type''),
     ce_access_token = json_str (map_of m ''access_token''),
     ce_expires_in = json_num (map_of m ''expires_in''),
     ce_decodedToken = decoded_of_json (map_of m ''decodedToken''),
     ce_audience = json_str (map_of m ''audience''),
     ce_scope = json_str (map_of m ''scope''),
     ce_client_id = json_str (map_of m ''client_id''),
     ce_refresh_token = json_str (map_of m ''refresh_token''),
     ce_oauthTokenScope = json_str (map_of m ''oauthTokenScope'')\<rparr>"

definition strings_of :: "json list \<Rightarrow> string list" where
  "strings_of vs = map (\<lambda>v. case v of JStr s \<Rightarrow> s | _ \<Rightarrow> []) vs"

definition cacheable_of_json :: "json \<Rightarrow> cacheable option" where
  "cacheable_of_json v = (case v of
     JObj m \<Rightarrow>
       (case (map_of m ''body'', map_of m ''expiresAt'', map_of m ''keys'') of
          (Some (JObj b), Some (JNum x), _) \<Rightarrow> Some (Wrapped (entry_of_json b) (Some x))
        | (Some (JObj b), Some JNull, _) \<Rightarrow> Some (Wrapped (entry_of_json b) (Some 0))
        | (None, None, Some (JArr ks)) \<Rightarrow> Some (Manifest (strings_of ks))
        | (None, None, None) \<Rightarrow>
            Some (IdTok \<lparr>ide_id_token = json_str (map_of m ''id_token''),
                         ide_decodedToken = decoded_of_json (map_of m ''decodedToken'')\<rparr>)
        | _ \<Rightarrow> None)
   | _ \<Rightarrow> None)"

text \<open>The state is the browser's \<open>localStorage\<close>: texts by key.\<close>

definition ls_get :: "string obj \<Rightarrow> string \<Rightarrow> cacheable option" where
  "ls_get storage key = (case map_of storage key of
     None \<Rightarrow> None
   | Some text \<Rightarrow>
       if text = [] then None
       else (case json_parse text of None \<Rightarrow> None | Some v \<Rightarrow> cacheable_of_json v))"

definition ls_set :: "string \<Rightarrow> cacheable \<Rightarrow> string obj \<Rightarrow> string obj" where
  "ls_set key entry storage = AList.update key (stringify (cacheable_to_json entry)) storage"

definition ls_allKeys :: "string obj \<Rightarrow> string list" where
  "ls_allKeys storage = filter (\<lambda>k. starts_with k CACHE_KEY_PREFIX) (obj_keys storage)"

definition LocalStorageCache :: "string obj icache" where
  "LocalStorageCache = \<lparr>ic_get = ls_get, ic_set = ls_set, ic_remove = AList.delete,
     ic_allKeys = Some ls_allKeys\<rparr>"

section \<open>CacheKeyManifest\<close>

text \<open>\<open>manifestKey\<close> of a client.\<close>

definition createManifestKeyFrom :: "string \<Rightarrow> string" where
  "createManifestKeyFrom clientId = CACHE_KEY_PREFIX @ ''::'' @ clientId"

definition manifest_get :: "'c icache \<Rightarrow> string \<Rightarrow> 'c \<Rightarrow> string list option" where
  "manifest_get ic manifestKey c = (case ic_get ic c manifestKey of
     Some (Manifest ks) \<Rightarrow> Some ks
   | _ \<Rightarrow> None)"

definition manifest_add :: "'c icache \<Rightarrow> string \<Rightarrow> string \<Rightarrow> 'c \<Rightarrow> 'c" where
  "manifest_add ic manifestKey key c =
     (let keys = dedupe (case manifest_get ic manifestKey c of None \<Rightarrow> [] | Some ks \<Rightarrow> ks)
      in ic_set ic manifestKey (Manifest (if key \<in> set keys then keys else keys @ [key])) c)"

definition manifest_remove :: "'c icache \<Rightarrow> string \<Rightarrow> string \<Rightarrow> 'c \<Rightarrow> 'c" where
  "manifest_remove ic manifestKey key c =
     (case manifest_get ic manifestKey c of
        None \<Rightarrow> c
      | Some ks \<Rightarrow>
          (let keys = filter (\<lambda>k. k \<noteq> key) (dedupe ks)
           in if keys \<noteq> [] then ic_set ic manifestKey (Manifest keys) c
              else ic_remove ic manifestKey c))"

definition manifest_clear :: "'c icache \<Rightarrow> string \<Rightarrow> 'c \<Rightarrow> 'c" where
  "manifest_clear ic manifestKey c = ic_remove ic manifestKey c"

section \<open>The contract of ICache\<close>

text \<open>
  What a client of the interface relies on: a read after a write or a removal, for the values
  the implementation can hold (\<open>ok\<close>: the in-memory cache holds everything, the storage holds
  what JSON can express), and that every value read back can be written again with its tokens
  changed.
\<close>

locale cache_laws =
  fixes ic :: "'c icache" and ok :: "cacheable \<Rightarrow> bool"
  assumes get_set: "ok v \<Longrightarrow> ic_get ic (ic_set ic k v c) j = (if j = k then Some v else ic_get ic c j)"
    and get_remove: "ic_get ic (ic_remove ic k c) j = (if j = k then None else ic_get ic c j)"
    and get_ok: "ic_get ic c k = Some v \<Longrightarrow> ok v"
    and ok_refresh: "ok (Wrapped b x) \<Longrightarrow> ok (Wrapped (b\<lparr>ce_refresh_token := r\<rparr>) x)"
    and ok_strip: "ok (Wrapped b x) \<Longrightarrow> ok (Wrapped (empty_entry\<lparr>ce_refresh_token := r, ce_audience := a, ce_scope := s\<rparr>) x)"
    and ok_manifest: "ok (Manifest ks)"
begin

lemma get_set_same: "ok v \<Longrightarrow> ic_get ic (ic_set ic k v c) k = Some v"
  by (simp add: get_set)

lemma get_remove_same: "ic_get ic (ic_remove ic k c) k = None"
  by (simp add: get_remove)

lemma get_fold_remove:
  "ic_get ic (fold (ic_remove ic) ks c) j = (if j \<in> set ks then None else ic_get ic c j)"
  by (induction ks arbitrary: c) (auto simp: get_remove)

text \<open>The manifest is a set of keys.\<close>

lemma manifest_get_add:
  "manifest_get ic mk (manifest_add ic mk key c) =
     Some (let keys = dedupe (case manifest_get ic mk c of None \<Rightarrow> [] | Some ks \<Rightarrow> ks)
           in if key \<in> set keys then keys else keys @ [key])"
  by (simp add: manifest_add_def manifest_get_def get_set ok_manifest Let_def)

lemma manifest_add_frame: "j \<noteq> mk \<Longrightarrow> ic_get ic (manifest_add ic mk key c) j = ic_get ic c j"
  by (simp add: manifest_add_def get_set ok_manifest Let_def)

lemma manifest_remove_frame: "j \<noteq> mk \<Longrightarrow> ic_get ic (manifest_remove ic mk key c) j = ic_get ic c j"
  by (simp add: manifest_remove_def get_set get_remove ok_manifest Let_def split: option.splits)

lemma manifest_get_remove:
  "(case manifest_get ic mk (manifest_remove ic mk key c) of None \<Rightarrow> {} | Some ks \<Rightarrow> set ks) =
     (case manifest_get ic mk c of None \<Rightarrow> {} | Some ks \<Rightarrow> set ks) - {key}"
  by (auto simp: manifest_remove_def manifest_get_def get_set get_remove ok_manifest Let_def
      filter_empty_conv split: option.splits cacheable.splits)

end

section \<open>Both implementations satisfy it\<close>

interpretation mem: cache_laws InMemoryCache "\<lambda>_. True"
  by unfold_locales (simp_all add: InMemoryCache_def)

definition decoded_wf :: "decoded_token \<Rightarrow> bool" where
  "decoded_wf d = (json_wf (JObj (dt_claims d)) \<and> json_wf (JObj (dt_user d)))"

fun cacheable_wf :: "cacheable \<Rightarrow> bool" where
  "cacheable_wf (Wrapped b x) = (x \<noteq> None \<and> pred_option decoded_wf (ce_decodedToken b))"
| "cacheable_wf (Manifest _) = True"
| "cacheable_wf (IdTok i) = pred_option decoded_wf (ide_decodedToken i)"

text \<open>The property list of a literal with optional properties, read back.\<close>

definition first_of :: "'a option \<Rightarrow> 'a option \<Rightarrow> 'a option" where
  "first_of v w = (case v of None \<Rightarrow> w | Some x \<Rightarrow> Some x)"

lemma first_of_None [simp]: "first_of v None = v"
  by (cases v) (simp_all add: first_of_def)

lemma map_of_opt_prop:
  "map_of (opt_prop k v @ m) j = (if j = k then first_of v (map_of m j) else map_of m j)"
  "map_of (opt_prop k v) j = (if j = k then v else None)"
  by (auto simp: opt_prop_def first_of_def split: option.splits)

lemma json_str_map [simp]: "json_str (map_option JStr s) = s"
  by (cases s) (simp_all add: json_str_def)

lemma json_num_map [simp]: "json_num (map_option JNum s) = s"
  by (cases s) (simp_all add: json_num_def)

lemma json_readers_None [simp]: "json_str None = None" "json_num None = None" "decoded_of_json None = None"
  by (simp_all add: json_str_def json_num_def decoded_of_json_def)

lemma decoded_of_to [simp]: "decoded_of_json (map_option decoded_to_json d) = d"
  by (cases d) (simp_all add: decoded_of_json_def decoded_to_json_def json_props_def)

lemma entry_of_to:
  "entry_to_json e = JObj m \<Longrightarrow> entry_of_json m = e"
  by (cases e) (auto simp: entry_to_json_def entry_of_json_def map_of_opt_prop simp del: map_of_append)

lemma cacheable_of_to: "cacheable_wf v \<Longrightarrow> cacheable_of_json (cacheable_to_json v) = Some v"
proof (cases v)
  case (Wrapped b x)
  assume "cacheable_wf v"
  with Wrapped obtain n where n: "x = Some n" by auto
  obtain m where m: "entry_to_json b = JObj m" by (simp add: entry_to_json_def)
  from entry_of_to [OF this] m n Wrapped show ?thesis by (simp add: cacheable_of_json_def)
next
  case (Manifest ks)
  have "strings_of (map JStr ks) = ks" by (induction ks) (simp_all add: strings_of_def)
  with Manifest show ?thesis by (simp add: cacheable_of_json_def)
next
  case (IdTok i)
  then show ?thesis
    by (cases i) (simp add: cacheable_of_json_def map_of_opt_prop del: map_of_append)
qed

lemma Ball_opt_prop [simp]: "(\<forall>p \<in> set (opt_prop k v). P p) \<longleftrightarrow> pred_option (\<lambda>x. P (k, x)) v"
  by (cases v) (simp_all add: opt_prop_def)

lemma keys_opt_prop: "map fst (opt_prop k v) = (if v = None then [] else [k])"
  by (cases v) (simp_all add: opt_prop_def)

lemma fst_set_opt_prop: "fst ` set (opt_prop k v) = (if v = None then {} else {k})"
  by (cases v) (simp_all add: opt_prop_def)

lemma distinct_opt_prop: "distinct (map fst (opt_prop k v @ m)) \<longleftrightarrow>
    distinct (map fst m) \<and> (v = None \<or> k \<notin> fst ` set m)"
  by (auto simp: opt_prop_def split: option.splits)

lemma decoded_wf_json: "decoded_wf d \<Longrightarrow> json_wf (decoded_to_json d)"
  by (simp add: decoded_wf_def decoded_to_json_def)

lemma entry_wf_json:
  assumes "pred_option decoded_wf (ce_decodedToken b)"
  shows "json_wf (entry_to_json b)"
proof -
  have "pred_option json_wf (map_option decoded_to_json (ce_decodedToken b))"
    using assms decoded_wf_json by (cases "ce_decodedToken b") simp_all
  then show ?thesis
    by (simp add: entry_to_json_def ball_Un distinct_opt_prop keys_opt_prop fst_set_opt_prop image_Un
        option.pred_map comp_def option.pred_True del: map_append)
qed

lemma cacheable_wf_json: "cacheable_wf v \<Longrightarrow> json_wf (cacheable_to_json v)"
proof (cases v)
  case (IdTok i)
  assume "cacheable_wf v"
  then have "pred_option json_wf (map_option decoded_to_json (ide_decodedToken i))"
    using IdTok decoded_wf_json by (cases "ide_decodedToken i") simp_all
  with IdTok show ?thesis
    by (simp add: ball_Un distinct_opt_prop keys_opt_prop fst_set_opt_prop
        option.pred_map comp_def option.pred_True del: map_append)
qed (auto simp: entry_wf_json)

text \<open>What \<open>json_parse\<close> returns is well formed, so a value read from the storage can be written.\<close>

lemma obj_spread_set: "set (obj_spread a b) \<subseteq> set a \<union> set b"
proof (induction a b rule: obj_spread.induct)
  case (2 a k v b)
  have "set (AList.update k v a) \<subseteq> insert (k, v) (set a)"
    by (induction a) auto
  with 2 show ?case by auto
qed simp

lemma obj_wf_spread: "obj_wf a \<Longrightarrow> obj_wf (obj_spread a b)"
  by (induction a b rule: obj_spread.induct) auto

lemma parse_wf:
  "parse_value n s = Some (v, r) \<Longrightarrow> json_wf v"
  "parse_elems n s = Some (vs, r) \<Longrightarrow> list_all json_wf vs"
  "parse_members n s = Some (m, r) \<Longrightarrow> list_all (\<lambda>p. json_wf (snd p)) m"
proof (induction n s and n s and n s arbitrary: v r and vs r and m r
    rule: parse_value_parse_elems_parse_members.induct)
  case (2 n s)
  have obj: "json_wf (JObj (obj_spread [] m))" if "list_all (\<lambda>p. json_wf (snd p)) m" for m
    using that obj_spread_set [of "[]" m] obj_wf_spread [of "[]" m]
    by (auto simp: list_all_iff obj_wf_def)
  have arr: "json_wf (JArr vs) = list_all json_wf vs" for vs
    by (simp add: list_all_iff)
  have nil: "json_wf (JObj [])" by simp
  from 2 show ?case
    by (auto simp: parse_lit_def parse_num_def obj nil arr
        simp del: json_wf.simps(1,2)
        split: list.splits if_splits option.splits)
next
  case (4 n s)
  then show ?case by (fastforce split: option.splits list.splits if_splits)
next
  case (6 n s)
  then show ?case by (fastforce split: option.splits list.splits if_splits)
qed simp_all

lemma json_parse_wf: "json_parse t = Some v \<Longrightarrow> json_wf v"
  unfolding json_parse_def
  by (auto dest: parse_wf(1) simp del: parse_value.simps split: option.splits if_splits)

lemma json_wf_lookup: "json_wf (JObj m) \<Longrightarrow> map_of m k = Some v \<Longrightarrow> json_wf v"
  by (auto dest!: map_of_SomeD)

lemma json_wf_Nil: "json_wf (JObj [])"
  by simp

lemma json_props_wf:
  "json_wf (JObj m) \<Longrightarrow> json_wf (JObj (json_props (map_of m k)))"
  by (auto simp: json_props_def json_wf_Nil dest: json_wf_lookup split: option.splits json.splits
      simp del: json_wf.simps(2))

lemma decoded_of_json_wf:
  "json_wf (JObj m) \<Longrightarrow> pred_option decoded_wf (decoded_of_json (map_of m k))"
  by (auto simp: decoded_of_json_def decoded_wf_def json_props_wf dest: json_wf_lookup
      split: option.splits json.splits simp del: json_wf.simps(2))

lemma cacheable_of_json_wf: "json_wf v \<Longrightarrow> cacheable_of_json v = Some x \<Longrightarrow> cacheable_wf x"
  by (auto simp: cacheable_of_json_def entry_of_json_def decoded_of_json_wf dest: json_wf_lookup
      split: json.splits option.splits list.splits simp del: json_wf.simps(2))

interpretation ls: cache_laws LocalStorageCache cacheable_wf
proof
  fix v k j and c :: "string obj"
  assume "cacheable_wf v"
  then show "ic_get LocalStorageCache (ic_set LocalStorageCache k v c) j =
      (if j = k then Some v else ic_get LocalStorageCache c j)"
    by (simp add: LocalStorageCache_def ls_get_def ls_set_def json_parse_stringify
        cacheable_wf_json cacheable_of_to)
next
  fix k v and c :: "string obj"
  assume "ic_get LocalStorageCache c k = Some v"
  then show "cacheable_wf v"
    by (auto simp: LocalStorageCache_def ls_get_def split: option.splits if_splits
        intro: cacheable_of_json_wf json_parse_wf)
qed (simp_all add: LocalStorageCache_def ls_get_def empty_entry_def)

section \<open>Caches that list their keys\<close>

text \<open>
  \<open>allKeys\<close> lists every stored key of the SDK, an entry written appears in it, an entry removed
  does not. \<open>keys\<close> is the listing function.
\<close>

locale listing_cache = cache_laws +
  fixes keys :: "'a \<Rightarrow> string list"
  assumes allKeys: "ic_allKeys ic = Some keys"
    and keys_complete: "ic_get ic c k \<noteq> None \<Longrightarrow> prefix CACHE_KEY_PREFIX k \<Longrightarrow> k \<in> set (keys c)"
    and keys_set: "set (keys (ic_set ic k v c)) \<subseteq> insert k (set (keys c))"
    and keys_remove: "set (keys (ic_remove ic k c)) = set (keys c) - {k}"
    and set_frame: "j \<noteq> k \<Longrightarrow> ic_get ic (ic_set ic k v c) j = ic_get ic c j"
begin

lemma keys_fold_remove: "set (keys (fold (ic_remove ic) ks c)) = set (keys c) - set ks"
  by (induction ks arbitrary: c) (auto simp: keys_remove)

end

interpretation mem: listing_cache InMemoryCache "\<lambda>_. True" obj_keys
proof
  fix k and c :: "cacheable obj"
  assume "ic_get InMemoryCache c k \<noteq> None"
  then show "k \<in> set (obj_keys c)"
    by (auto simp: InMemoryCache_def set_obj_keys domI)
qed (auto simp: InMemoryCache_def obj_keys_update obj_keys_delete)

interpretation ls: listing_cache LocalStorageCache cacheable_wf ls_allKeys
proof
  fix k and c :: "string obj"
  assume "ic_get LocalStorageCache c k \<noteq> None" and "prefix CACHE_KEY_PREFIX k"
  then show "k \<in> set (ls_allKeys c)"
    by (auto simp: LocalStorageCache_def ls_get_def ls_allKeys_def starts_with_def set_obj_keys domI
        split: option.splits)
qed (auto simp: LocalStorageCache_def ls_get_def ls_set_def ls_allKeys_def starts_with_def
      obj_keys_update obj_keys_delete)

section \<open>Properties\<close>

text \<open>
  what \<open>LocalStorageCache.set\<close> writes as a JSON text, \<open>get\<close> reads back as the same entry, and
  entries under other keys are untouched.
\<close>

theorem local_storage_roundtrip:
  assumes "cacheable_wf entry"
  shows "ic_get LocalStorageCache (ic_set LocalStorageCache key entry storage) j =
           (if j = key then Some entry else ic_get LocalStorageCache storage j)"
  by (rule ls.get_set [OF assms])

definition sample_entry :: cache_entry where
  "sample_entry = empty_entry\<lparr>ce_access_token := Some ''at'', ce_refresh_token := Some ''rt'',
     ce_audience := Some ''api'', ce_scope := Some ''openid read'', ce_client_id := Some ''c1'',
     ce_expires_in := Some 3600\<rparr>"

theorem local_storage_roundtrip_witness:
  "ic_get LocalStorageCache (ic_set LocalStorageCache ''k'' (Wrapped sample_entry (Some 5)) []) ''k''
     = Some (Wrapped sample_entry (Some 5))"
proof -
  have "cacheable_wf (Wrapped sample_entry (Some 5))" by (simp add: sample_entry_def empty_entry_def)
  from local_storage_roundtrip [OF this, of "''k''" "[]" "''k''"] show ?thesis by simp
qed

end
