(* ===== verification/CacheManager.thy ===== *)
theory CacheManager
  imports Cache
begin

text \<open>
  \<open>src/cache/cache-manager.ts\<close>: the token cache over any \<open>ICache\<close>. The state is the cache's own
  (\<^typ>\<open>'c\<close>); \<open>now\<close> is what the client's \<open>nowProvider\<close> returns, in milliseconds. The lemmas about
  the loops over the keys are proved once in the locale \<open>cache_laws\<close>.
\<close>

section \<open>The manager\<close>

text \<open>A manager has a manifest key (\<open>keyManifest\<close>) when its cache cannot list its keys.\<close>

record 'c cache_manager =
  cm_cache :: "'c icache"
  cm_keyManifest :: "string option"

definition new_CacheManager :: "'c icache \<Rightarrow> string \<Rightarrow> 'c cache_manager" where
  "new_CacheManager ic clientId =
     \<lparr>cm_cache = ic,
      cm_keyManifest = (case ic_allKeys ic of Some _ \<Rightarrow> None
                        | None \<Rightarrow> Some (createManifestKeyFrom clientId))\<rparr>"

definition cm_track :: "'c cache_manager \<Rightarrow> string \<Rightarrow> 'c \<Rightarrow> 'c" where
  "cm_track m key c = (case cm_keyManifest m of None \<Rightarrow> c
     | Some mk \<Rightarrow> manifest_add (cm_cache m) mk key c)"

definition cm_untrack :: "'c cache_manager \<Rightarrow> string \<Rightarrow> 'c \<Rightarrow> 'c" where
  "cm_untrack m key c = (case cm_keyManifest m of None \<Rightarrow> c
     | Some mk \<Rightarrow> manifest_remove (cm_cache m) mk key c)"

definition getCacheKeys :: "'c cache_manager \<Rightarrow> 'c \<Rightarrow> string list option" where
  "getCacheKeys m c = (case cm_keyManifest m of
     Some mk \<Rightarrow> manifest_get (cm_cache m) mk c
   | None \<Rightarrow> (case ic_allKeys (cm_cache m) of Some f \<Rightarrow> Some (f c) | None \<Rightarrow> None))"

section \<open>Matching keys\<close>

definition key_matches :: "cache_key \<Rightarrow> string \<Rightarrow> bool" where
  "key_matches keyToMatch key =
     (let cacheKey = fromKey key;
          scopeSet = (if truthy (ck_scope cacheKey) then set (split_opt (ck_scope cacheKey)) else {});
          scopesToMatch = split_opt (ck_scope keyToMatch);
          hasAllScopes = truthy (ck_scope cacheKey) \<and> list_all (\<lambda>s. s \<in> scopeSet) scopesToMatch
      in ck_prefix cacheKey = CACHE_KEY_PREFIX \<and>
         ck_clientId cacheKey = ck_clientId keyToMatch \<and>
         ck_audience cacheKey = ck_audience keyToMatch \<and>
         hasAllScopes)"

definition matchExistingCacheKey :: "cache_key \<Rightarrow> string list \<Rightarrow> string option" where
  "matchExistingCacheKey keyToMatch allKeys =
     (case filter (key_matches keyToMatch) allKeys of [] \<Rightarrow> None | k # _ \<Rightarrow> Some k)"

text \<open>The part of an entry that is kept for a later refresh.\<close>

definition refresh_part :: "cache_entry \<Rightarrow> cache_entry" where
  "refresh_part b = empty_entry\<lparr>ce_refresh_token := ce_refresh_token b,
     ce_audience := ce_audience b, ce_scope := ce_scope b\<rparr>"

fun getEntryWithRefreshToken ::
  "'c cache_manager \<Rightarrow> cache_key \<Rightarrow> string list \<Rightarrow> 'c \<Rightarrow> cache_entry option" where
  "getEntryWithRefreshToken m keyToMatch [] c = None"
| "getEntryWithRefreshToken m keyToMatch (key # keys) c =
     (let cacheKey = fromKey key in
      if ck_prefix cacheKey = CACHE_KEY_PREFIX \<and> ck_clientId cacheKey = ck_clientId keyToMatch then
        (case Option.bind (ic_get (cm_cache m) c key) entry_body of
           Some b \<Rightarrow> if truthy (ce_refresh_token b) then Some (refresh_part b)
                     else getEntryWithRefreshToken m keyToMatch keys c
         | None \<Rightarrow> getEntryWithRefreshToken m keyToMatch keys c)
      else getEntryWithRefreshToken m keyToMatch keys c)"

section \<open>Reading\<close>

definition modifiedCachedEntry ::
  "'c cache_manager \<Rightarrow> cache_entry \<Rightarrow> int option \<Rightarrow> cache_key \<Rightarrow> 'c \<Rightarrow> cache_entry \<times> 'c" where
  "modifiedCachedEntry m body expiresAt cacheKey c =
     (let strippedBody = refresh_part body
      in (strippedBody, ic_set (cm_cache m) (toKey cacheKey) (Wrapped strippedBody expiresAt) c))"

text \<open>\<open>expiresAt - expiryAdjustmentSeconds < nowSeconds\<close>, which does not hold of \<open>NaN\<close>.\<close>

fun lapsed :: "int option \<Rightarrow> int \<Rightarrow> int \<Rightarrow> bool" where
  "lapsed (Some expiresAt) expiryAdjustmentSeconds nowSeconds = (expiresAt - expiryAdjustmentSeconds < nowSeconds)"
| "lapsed None expiryAdjustmentSeconds nowSeconds = False"

text \<open>
  What \<open>get\<close> does with the entry it found: a value that is not a wrapped entry has neither
  \<open>expiresAt\<close> nor \<open>body\<close>, and its missing body is returned.
\<close>

definition cm_get_found ::
  "'c cache_manager \<Rightarrow> int \<Rightarrow> int \<Rightarrow> cacheable \<Rightarrow> cache_key \<Rightarrow> 'c \<Rightarrow> cache_entry option \<times> 'c" where
  "cm_get_found m now expiryAdjustmentSeconds wrappedEntry resolvedCacheKey c =
     (case wrappedEntry of
        Wrapped body expiresAt \<Rightarrow>
          (let nowSeconds = now div 1000 in
           if lapsed expiresAt expiryAdjustmentSeconds nowSeconds then
             (if truthy (ce_refresh_token body) then
                (let (e, c') = modifiedCachedEntry m body expiresAt resolvedCacheKey c in (Some e, c'))
              else
                (let c1 = ic_remove (cm_cache m) (toKey resolvedCacheKey) c;
                     c2 = cm_untrack m (toKey resolvedCacheKey) c1
                 in (None, c2)))
           else (Some body, c))
      | _ \<Rightarrow> (None, c))"

definition cm_get ::
  "'c cache_manager \<Rightarrow> int \<Rightarrow> cache_key \<Rightarrow> int \<Rightarrow> bool \<Rightarrow> string option \<Rightarrow> 'c
     \<Rightarrow> cache_entry option \<times> 'c" where
  "cm_get m now cacheKey expiryAdjustmentSeconds useMrrt cacheMode c =
     (case ic_get (cm_cache m) c (toKey cacheKey) of
        Some wrappedEntry \<Rightarrow> cm_get_found m now expiryAdjustmentSeconds wrappedEntry cacheKey c
      | None \<Rightarrow>
          (case getCacheKeys m c of
             None \<Rightarrow> (None, c)
           | Some keys \<Rightarrow>
               (let matched = matchExistingCacheKey cacheKey keys;
                    found = Option.bind matched (\<lambda>k. ic_get (cm_cache m) c k)
                in case found of
                     Some wrappedEntry \<Rightarrow>
                       cm_get_found m now expiryAdjustmentSeconds wrappedEntry (fromKey (the matched)) c
                   | None \<Rightarrow>
                       if useMrrt \<and> cacheMode \<noteq> Some ''cache-only''
                       then (getEntryWithRefreshToken m cacheKey keys c, c)
                       else (None, c))))"

definition cm_getIdToken ::
  "'c cache_manager \<Rightarrow> int \<Rightarrow> cache_key \<Rightarrow> 'c \<Rightarrow> id_token_entry option \<times> 'c" where
  "cm_getIdToken m now cacheKey c =
     (case ic_get (cm_cache m) c (getIdTokenCacheKey (ck_clientId cacheKey)) of
        Some (IdTok i) \<Rightarrow> (Some i, c)
      | Some _ \<Rightarrow> (Some \<lparr>ide_id_token = None, ide_decodedToken = None\<rparr>, c)
      | None \<Rightarrow>
          if truthy (ck_scope cacheKey) \<and> truthy (ck_audience cacheKey) then
            (case cm_get m now cacheKey 0 False None c of
               (Some e, c') \<Rightarrow>
                 (if \<not> truthy (ce_id_token e) \<or> ce_decodedToken e = None then None
                  else Some \<lparr>ide_id_token = ce_id_token e, ide_decodedToken = ce_decodedToken e\<rparr>, c')
             | (None, c') \<Rightarrow> (None, c'))
          else (None, c))"

fun collect_refresh_tokens ::
  "'c cache_manager \<Rightarrow> string \<Rightarrow> string \<Rightarrow> 'c \<Rightarrow> string list \<Rightarrow> string list" where
  "collect_refresh_tokens m audience clientId c [] = []"
| "collect_refresh_tokens m audience clientId c (key # keys) =
     (let cacheKey = fromKey key;
          rest = collect_refresh_tokens m audience clientId c keys
      in if ck_prefix cacheKey = CACHE_KEY_PREFIX \<and> ck_clientId cacheKey = Some clientId \<and>
            ck_audience cacheKey = Some audience
         then (case Option.bind (ic_get (cm_cache m) c key) entry_body of
                 Some b \<Rightarrow> if truthy (ce_refresh_token b) then the (ce_refresh_token b) # rest else rest
               | None \<Rightarrow> rest)
         else rest)"

definition getRefreshTokensByAudience ::
  "'c cache_manager \<Rightarrow> string \<Rightarrow> string \<Rightarrow> 'c \<Rightarrow> string list" where
  "getRefreshTokensByAudience m audience clientId c =
     (case getCacheKeys m c of
        None \<Rightarrow> []
      | Some keys \<Rightarrow> dedupe (collect_refresh_tokens m audience clientId c keys))"

section \<open>Writing\<close>

definition wrapCacheEntry :: "int \<Rightarrow> cache_entry \<Rightarrow> cacheable" where
  "wrapCacheEntry now entry =
     (let expiresInTime = map_option (\<lambda>expires_in. now div 1000 + expires_in) (ce_expires_in entry)
      in Wrapped entry expiresInTime)"

definition cm_set :: "'c cache_manager \<Rightarrow> int \<Rightarrow> cache_entry \<Rightarrow> 'c \<Rightarrow> 'c" where
  "cm_set m now entry c =
     (let cacheKey = new_CacheKey (ce_client_id entry) (ce_scope entry) (ce_audience entry);
          c1 = ic_set (cm_cache m) (toKey cacheKey) (wrapCacheEntry now entry) c
      in cm_track m (toKey cacheKey) c1)"

definition cm_setIdToken ::
  "'c cache_manager \<Rightarrow> string \<Rightarrow> string \<Rightarrow> decoded_token \<Rightarrow> 'c \<Rightarrow> 'c" where
  "cm_setIdToken m clientId idToken decodedToken c =
     (let cacheKey = getIdTokenCacheKey (Some clientId);
          c1 = ic_set (cm_cache m) cacheKey
                 (IdTok \<lparr>ide_id_token = Some idToken, ide_decodedToken = Some decodedToken\<rparr>) c
      in cm_track m cacheKey c1)"

definition cm_remove ::
  "'c cache_manager \<Rightarrow> string option \<Rightarrow> string option \<Rightarrow> string option \<Rightarrow> 'c \<Rightarrow> 'c" where
  "cm_remove m client_id audience scope c =
     ic_remove (cm_cache m) (toKey (new_CacheKey client_id scope audience)) c"

definition strip_step :: "'c cache_manager \<Rightarrow> string \<Rightarrow> string \<Rightarrow> 'c \<Rightarrow> 'c" where
  "strip_step m refreshToken key c = (case ic_get (cm_cache m) c key of
     Some (Wrapped body x) \<Rightarrow>
       if ce_refresh_token body = Some refreshToken
       then ic_set (cm_cache m) key (Wrapped (body\<lparr>ce_refresh_token := None\<rparr>) x) c
       else c
   | _ \<Rightarrow> c)"

definition stripRefreshToken :: "'c cache_manager \<Rightarrow> string \<Rightarrow> 'c \<Rightarrow> 'c" where
  "stripRefreshToken m refreshToken c = (case getCacheKeys m c of
     None \<Rightarrow> c
   | Some keys \<Rightarrow> fold (strip_step m refreshToken) keys c)"

definition cm_clear :: "'c cache_manager \<Rightarrow> string option \<Rightarrow> 'c \<Rightarrow> 'c" where
  "cm_clear m clientId c = (case getCacheKeys m c of
     None \<Rightarrow> c
   | Some keys \<Rightarrow>
       (let doomed = filter (\<lambda>key. if truthy clientId then str_includes key (the clientId) else True) keys;
            c1 = fold (ic_remove (cm_cache m)) doomed c
        in case cm_keyManifest m of None \<Rightarrow> c1 | Some mk \<Rightarrow> manifest_clear (cm_cache m) mk c1))"

definition update_step ::
  "'c cache_manager \<Rightarrow> string \<Rightarrow> string \<Rightarrow> string \<Rightarrow> bool \<Rightarrow> string \<Rightarrow> 'c \<Rightarrow> 'c" where
  "update_step m oldRefreshToken newRefreshToken clientId useMrrt key c =
     (if ck_clientId (fromKey key) \<noteq> Some clientId then c
      else (case ic_get (cm_cache m) c key of
              Some (Wrapped body x) \<Rightarrow>
                (let rt = ce_refresh_token body in
                 if truthy rt \<and> (useMrrt \<or> rt = Some oldRefreshToken)
                 then ic_set (cm_cache m) key
                        (Wrapped (body\<lparr>ce_refresh_token := Some newRefreshToken\<rparr>) x) c
                 else c)
            | _ \<Rightarrow> c))"

definition updateEntry ::
  "'c cache_manager \<Rightarrow> string \<Rightarrow> string \<Rightarrow> string \<Rightarrow> bool \<Rightarrow> 'c \<Rightarrow> 'c" where
  "updateEntry m oldRefreshToken newRefreshToken clientId useMrrt c = (case getCacheKeys m c of
     None \<Rightarrow> c
   | Some allKeys \<Rightarrow> fold (update_step m oldRefreshToken newRefreshToken clientId useMrrt) allKeys c)"

section \<open>Lemmas\<close>

lemma matchExistingCacheKey_Some:
  assumes "matchExistingCacheKey k keys = Some j"
  shows "j \<in> set keys" "key_matches k j"
proof -
  from assms obtain ys where "filter (key_matches k) keys = j # ys"
    by (auto simp: matchExistingCacheKey_def split: list.splits)
  then have "j \<in> set (filter (key_matches k) keys)" by simp
  then show "j \<in> set keys" "key_matches k j" by simp_all
qed

lemma matchExistingCacheKey_None:
  "matchExistingCacheKey k keys = None \<longleftrightarrow> list_all (\<lambda>j. \<not> key_matches k j) keys"
  by (induction keys) (simp_all add: matchExistingCacheKey_def split: list.splits)

lemma refresh_part_simps [simp]:
  "ce_refresh_token (refresh_part b) = ce_refresh_token b"
  "ce_access_token (refresh_part b) = None"
  "ce_audience (refresh_part b) = ce_audience b"
  "ce_scope (refresh_part b) = ce_scope b"
  by (simp_all add: refresh_part_def empty_entry_def)

lemma refresh_part_idem [simp]: "refresh_part (refresh_part b) = refresh_part b"
  by (simp add: refresh_part_def empty_entry_def)

lemma getEntryWithRefreshToken_Some:
  "getEntryWithRefreshToken m k keys c = Some e \<Longrightarrow>
     \<exists>key b x. key \<in> set keys \<and> ic_get (cm_cache m) c key = Some (Wrapped b x) \<and>
       e = refresh_part b \<and> truthy (ce_refresh_token b) \<and>
       ck_clientId (fromKey key) = ck_clientId k"
proof (induction keys)
  case (Cons key keys)
  show ?case
  proof (cases "getEntryWithRefreshToken m k keys c = Some e")
    case True
    with Cons.IH show ?thesis by fastforce
  next
    case False
    with Cons.prems obtain b where "Option.bind (ic_get (cm_cache m) c key) entry_body = Some b"
        "e = refresh_part b" "truthy (ce_refresh_token b)" "ck_clientId (fromKey key) = ck_clientId k"
      by (auto simp: Let_def split: if_splits option.splits)
    moreover from this obtain x where "ic_get (cm_cache m) c key = Some (Wrapped b x)"
      by (auto simp: bind_eq_Some_conv elim: entry_body.elims)
    ultimately show ?thesis by fastforce
  qed
qed simp

lemma set_collect_refresh_tokens:
  "set (collect_refresh_tokens m audience clientId c keys) =
     {r. \<exists>key b x. key \<in> set keys \<and> ck_prefix (fromKey key) = CACHE_KEY_PREFIX \<and>
        ck_clientId (fromKey key) = Some clientId \<and> ck_audience (fromKey key) = Some audience \<and>
        ic_get (cm_cache m) c key = Some (Wrapped b x) \<and> ce_refresh_token b = Some r \<and> r \<noteq> []}"
    (is "_ = {r. ?P r keys}")
proof (induction keys)
  case (Cons key keys)
  let ?here = "{r. ?P r [key]}"
  have "set (collect_refresh_tokens m audience clientId c (key # keys))
      = ?here \<union> set (collect_refresh_tokens m audience clientId c keys)"
  proof (cases "ic_get (cm_cache m) c key")
    case None
    then show ?thesis by (simp add: Let_def)
  next
    case (Some v)
    then show ?thesis
      by (cases v) (auto simp: Let_def truthy_def split: option.splits)
  qed
  also have "\<dots> = {r. ?P r (key # keys)}"
    unfolding Cons.IH by auto
  finally show ?case .
qed simp

text \<open>
  The loops over the keys rewrite entries one key at a time: \<open>f\<close> says what becomes of the body
  stored under a key, \<^const>\<open>None\<close> leaving it.
\<close>

definition touch ::
  "'c icache \<Rightarrow> (string \<Rightarrow> cache_entry \<Rightarrow> cache_entry option) \<Rightarrow> string \<Rightarrow> 'c \<Rightarrow> 'c" where
  "touch ic f key c = (case ic_get ic c key of
     Some (Wrapped b x) \<Rightarrow> (case f key b of Some b' \<Rightarrow> ic_set ic key (Wrapped b' x) c | None \<Rightarrow> c)
   | _ \<Rightarrow> c)"

definition touched ::
  "(string \<Rightarrow> cache_entry \<Rightarrow> cache_entry option) \<Rightarrow> string \<Rightarrow> cacheable option \<Rightarrow> cacheable option" where
  "touched f key v = (case v of
     Some (Wrapped b x) \<Rightarrow> (case f key b of Some b' \<Rightarrow> Some (Wrapped b' x) | None \<Rightarrow> v)
   | _ \<Rightarrow> v)"

definition strip_fun :: "string \<Rightarrow> string \<Rightarrow> cache_entry \<Rightarrow> cache_entry option" where
  "strip_fun refreshToken key b =
     (if ce_refresh_token b = Some refreshToken then Some (b\<lparr>ce_refresh_token := None\<rparr>) else None)"

definition update_fun ::
  "string \<Rightarrow> string \<Rightarrow> string \<Rightarrow> bool \<Rightarrow> string \<Rightarrow> cache_entry \<Rightarrow> cache_entry option" where
  "update_fun old new clientId useMrrt key b =
     (if ck_clientId (fromKey key) = Some clientId \<and> truthy (ce_refresh_token b) \<and>
         (useMrrt \<or> ce_refresh_token b = Some old)
      then Some (b\<lparr>ce_refresh_token := Some new\<rparr>) else None)"

lemma strip_step_touch: "strip_step m rt = touch (cm_cache m) (strip_fun rt)"
  by (auto simp: fun_eq_iff strip_step_def touch_def strip_fun_def split: option.splits cacheable.splits)

lemma update_step_touch: "update_step m old new cid mrrt = touch (cm_cache m) (update_fun old new cid mrrt)"
  by (auto simp: fun_eq_iff update_step_def touch_def update_fun_def Let_def
      split: option.splits cacheable.splits)

context cache_laws
begin

lemma get_touch:
  assumes "\<And>k b b' x. f k b = Some b' \<Longrightarrow> ok (Wrapped b x) \<Longrightarrow> ok (Wrapped b' x)"
  shows "ic_get ic (touch ic f key c) j = (if j = key then touched f key (ic_get ic c key) else ic_get ic c j)"
  using assms get_ok
  by (auto simp: touch_def touched_def get_set split: option.splits cacheable.splits)

lemma get_fold_touch:
  assumes ok: "\<And>k b b' x. f k b = Some b' \<Longrightarrow> ok (Wrapped b x) \<Longrightarrow> ok (Wrapped b' x)"
    and idem: "\<And>k v. touched f k (touched f k v) = touched f k v"
  shows "ic_get ic (fold (touch ic f) ks c) j =
           (if j \<in> set ks then touched f j (ic_get ic c j) else ic_get ic c j)"
proof (induction ks arbitrary: c)
  case (Cons k ks)
  have "ic_get ic (fold (touch ic f) ks (touch ic f k c)) j =
      (if j \<in> set ks then touched f j (ic_get ic (touch ic f k c) j) else ic_get ic (touch ic f k c) j)"
    by (rule Cons.IH)
  also have "ic_get ic (touch ic f k c) j =
      (if j = k then touched f k (ic_get ic c k) else ic_get ic c j)"
    using ok by (rule get_touch)
  finally show ?case using idem by auto
qed simp

lemma get_stripRefreshToken:
  assumes "cm_cache m = ic" "getCacheKeys m c = Some keys"
  shows "ic_get ic (stripRefreshToken m rt c) j =
           (if j \<in> set keys then touched (strip_fun rt) j (ic_get ic c j) else ic_get ic c j)"
proof -
  have "ic_get ic (fold (touch ic (strip_fun rt)) keys c) j =
           (if j \<in> set keys then touched (strip_fun rt) j (ic_get ic c j) else ic_get ic c j)"
    by (rule get_fold_touch)
       (auto simp: strip_fun_def touched_def ok_refresh split: if_splits option.splits cacheable.splits)
  with assms show ?thesis by (simp add: stripRefreshToken_def strip_step_touch)
qed

lemma get_updateEntry:
  assumes "cm_cache m = ic" "getCacheKeys m c = Some keys"
  shows "ic_get ic (updateEntry m old new cid mrrt c) j =
           (if j \<in> set keys then touched (update_fun old new cid mrrt) j (ic_get ic c j) else ic_get ic c j)"
proof -
  have "ic_get ic (fold (touch ic (update_fun old new cid mrrt)) keys c) j =
           (if j \<in> set keys then touched (update_fun old new cid mrrt) j (ic_get ic c j) else ic_get ic c j)"
    by (rule get_fold_touch)
       (auto simp: update_fun_def touched_def ok_refresh split: if_splits option.splits cacheable.splits)
  with assms show ?thesis by (simp add: updateEntry_def update_step_touch)
qed

lemma get_track:
  assumes "cm_cache m = ic" "cm_keyManifest m \<noteq> Some j"
  shows "ic_get ic (cm_track m key c) j = ic_get ic c j"
proof (cases "cm_keyManifest m")
  case (Some mk)
  with assms show ?thesis by (simp add: cm_track_def manifest_add_frame)
qed (simp add: cm_track_def)

lemma get_untrack:
  assumes "cm_cache m = ic" "cm_keyManifest m \<noteq> Some j"
  shows "ic_get ic (cm_untrack m key c) j = ic_get ic c j"
proof (cases "cm_keyManifest m")
  case (Some mk)
  with assms show ?thesis by (simp add: cm_untrack_def manifest_remove_frame)
qed (simp add: cm_untrack_def)

lemma get_clear:
  assumes "cm_cache m = ic" "getCacheKeys m c = Some keys" "cm_keyManifest m \<noteq> Some j"
  shows "ic_get ic (cm_clear m cid c) j =
           (if j \<in> set keys \<and> (truthy cid \<longrightarrow> str_includes j (the cid)) then None else ic_get ic c j)"
  using assms
  by (auto simp: cm_clear_def Let_def get_fold_remove manifest_clear_def get_remove split: option.splits)

lemma get_cm_get_found:
  assumes "cm_cache m = ic" "cm_keyManifest m \<noteq> Some i"
    and "lapsed x adj (now div 1000)" and "ok (Wrapped b x)"
  shows "fst (cm_get_found m now adj (Wrapped b x) k c) =
           (if truthy (ce_refresh_token b) then Some (refresh_part b) else None)"
    and "ic_get ic (snd (cm_get_found m now adj (Wrapped b x) k c)) i =
           (if i = toKey k
            then (if truthy (ce_refresh_token b) then Some (Wrapped (refresh_part b) x) else None)
            else ic_get ic c i)"
proof -
  note untrack = get_untrack [OF assms(1,2), of "toKey k" "ic_remove ic (toKey k) c"]
  have strip: "ok (Wrapped (refresh_part b) x)"
    unfolding refresh_part_def by (rule ok_strip [OF assms(4)])
  show "fst (cm_get_found m now adj (Wrapped b x) k c) =
           (if truthy (ce_refresh_token b) then Some (refresh_part b) else None)"
    using assms(3) by (simp add: cm_get_found_def modifiedCachedEntry_def Let_def)
  show "ic_get ic (snd (cm_get_found m now adj (Wrapped b x) k c)) i =
           (if i = toKey k
            then (if truthy (ce_refresh_token b) then Some (Wrapped (refresh_part b) x) else None)
            else ic_get ic c i)"
    using assms(1,3) untrack strip
    by (cases "i = toKey k") (simp_all add: cm_get_found_def modifiedCachedEntry_def get_set get_remove Let_def)
qed

end

section \<open>Where an entry is found\<close>

text \<open>The key \<open>get\<close> reads: the one asked for, or else the first listed key that matches.\<close>

definition resolved_key :: "'c cache_manager \<Rightarrow> cache_key \<Rightarrow> 'c \<Rightarrow> string option" where
  "resolved_key m k c =
     (if ic_get (cm_cache m) c (toKey k) \<noteq> None then Some (toKey k)
      else Option.bind (getCacheKeys m c) (matchExistingCacheKey k))"

lemma cm_get_resolved:
  assumes "resolved_key m k c = Some j" "ic_get (cm_cache m) c j = Some w"
  shows "\<exists>r. (r = k \<and> j = toKey k \<or> r = fromKey j \<and> j \<noteq> toKey k) \<and>
             cm_get m now k adj mrrt mode c = cm_get_found m now adj w r c"
  using assms
  by (auto simp: resolved_key_def cm_get_def Let_def split: if_splits option.splits)

lemma cm_get_fresh_cases:
  assumes "cm_get m now k adj mrrt mode c = (Some e, c')" "ce_access_token e = Some t"
  obtains j x where "resolved_key m k c = Some j" "ic_get (cm_cache m) c j = Some (Wrapped e x)"
    "\<not> lapsed x adj (now div 1000)" "c' = c"
proof -
  have found: "cm_get_found m now adj w r c = (Some e, c') \<Longrightarrow>
      \<exists>x. w = Wrapped e x \<and> \<not> lapsed x adj (now div 1000) \<and> c' = c" for w r
    using assms(2)
    by (auto simp: cm_get_found_def modifiedCachedEntry_def Let_def split: cacheable.splits if_splits)
  have refresh: "getEntryWithRefreshToken m k keys c \<noteq> Some e" for keys
    using assms(2) by (auto dest!: getEntryWithRefreshToken_Some)
  show thesis
  proof (cases "ic_get (cm_cache m) c (toKey k)")
    case (Some w)
    with assms(1) found [of w k] that [of "toKey k"] show thesis
      by (auto simp: cm_get_def resolved_key_def)
  next
    case None
    with assms(1) obtain keys where keys: "getCacheKeys m c = Some keys"
      by (auto simp: cm_get_def split: option.splits)
    show thesis
    proof (cases "Option.bind (matchExistingCacheKey k keys) (ic_get (cm_cache m) c)")
      case None': None
      with assms(1) None keys refresh show thesis
        by (auto simp: cm_get_def Let_def split: if_splits)
    next
      case (Some w)
      then obtain j where j: "matchExistingCacheKey k keys = Some j" "ic_get (cm_cache m) c j = Some w"
        by (auto simp: bind_eq_Some_conv)
      with assms(1) None keys Some found [of w "fromKey j"] that [of j] show thesis
        by (auto simp: cm_get_def resolved_key_def)
    qed
  qed
qed

lemma resolved_key_Some:
  assumes "resolved_key m k c = Some j"
  shows "j = toKey k \<or> key_matches k j"
  using assms matchExistingCacheKey_Some(2) [of k _ j]
  by (auto simp: resolved_key_def bind_eq_Some_conv split: if_splits)

section \<open>Properties\<close>

text \<open>
  C6: the manager returns an access token only from an entry that has not expired (the leeway
  subtracted from its expiry), read as it is stored under the key asked for or under a key of
  the same client and audience whose scopes contain all the requested ones; reading it changes
  nothing.
\<close>

theorem cm_get_fresh:
  assumes "cm_get m now k adj mrrt mode c = (Some e, c')" and "ce_access_token e = Some t"
  shows "c' = c \<and> (\<exists>j x. ic_get (cm_cache m) c j = Some (Wrapped e x) \<and>
           \<not> lapsed x adj (now div 1000) \<and> (j = toKey k \<or> key_matches k j))"
  using assms by (elim cm_get_fresh_cases) (auto dest: resolved_key_Some)

definition sample_key :: cache_key where
  "sample_key = new_CacheKey (Some ''c1'') (Some ''openid read'') (Some ''api'')"

definition sample_manager :: "cacheable obj cache_manager" where
  "sample_manager = new_CacheManager InMemoryCache ''c1''"

definition sample_store :: "cacheable obj" where
  "sample_store = [(toKey sample_key, Wrapped sample_entry (Some 5000))]"

theorem cm_get_fresh_witness:
  "snd (cm_get sample_manager 4000000 sample_key 60 False None sample_store) = sample_store \<and>
   (\<exists>j x. ic_get (cm_cache sample_manager) sample_store j = Some (Wrapped sample_entry x) \<and>
           \<not> lapsed x 60 (4000000 div 1000) \<and> (j = toKey sample_key \<or> key_matches sample_key j))"
proof -
  have get: "cm_get sample_manager 4000000 sample_key 60 False None sample_store
      = (Some sample_entry, sample_store)"
    by (simp add: cm_get_def sample_manager_def new_CacheManager_def InMemoryCache_def
        sample_store_def cm_get_found_def)
  have "ce_access_token sample_entry = Some ''at''" by (simp add: sample_entry_def)
  from cm_get_fresh [OF get this] get show ?thesis by simp
qed

text \<open>
  an expired entry never comes back with its access token: it is reduced, in the cache and
  in the result, to the refresh token with its audience and scope, or is deleted when it has
  none; this happens under the key where the entry was found, and no other entry changes.
\<close>

theorem cm_get_expired:
  assumes "cache_laws (cm_cache m) ok"
    and "resolved_key m k c = Some j" and "j = toKey k \<or> toKey (fromKey j) = j"
    and "ic_get (cm_cache m) c j = Some (Wrapped b x)" and "lapsed x adj (now div 1000)"
    and "cm_keyManifest m \<noteq> Some i"
  shows "fst (cm_get m now k adj mrrt mode c) =
           (if truthy (ce_refresh_token b) then Some (refresh_part b) else None) \<and>
         ic_get (cm_cache m) (snd (cm_get m now k adj mrrt mode c)) i =
           (if i = j
            then (if truthy (ce_refresh_token b) then Some (Wrapped (refresh_part b) x) else None)
            else ic_get (cm_cache m) c i)"
proof -
  from cm_get_resolved [OF assms(2,4), of now adj mrrt mode] assms(3) obtain r where
    r: "toKey r = j" "cm_get m now k adj mrrt mode c = cm_get_found m now adj (Wrapped b x) r c"
    by metis
  from cache_laws.get_cm_get_found [OF assms(1) refl assms(6,5) cache_laws.get_ok [OF assms(1,4)], of r c] r show ?thesis by simp
qed

theorem cm_get_expired_witness:
  "fst (cm_get sample_manager 9000000 sample_key 60 False None sample_store) = Some (refresh_part sample_entry)"
proof -
  have "resolved_key sample_manager sample_key sample_store = Some (toKey sample_key)"
    by (simp add: resolved_key_def sample_manager_def new_CacheManager_def InMemoryCache_def sample_store_def)
  moreover have "cm_cache sample_manager = InMemoryCache" "cm_keyManifest sample_manager = None"
    by (simp_all add: sample_manager_def new_CacheManager_def InMemoryCache_def)
  moreover from this have "ic_get (cm_cache sample_manager) sample_store (toKey sample_key) = Some (Wrapped sample_entry (Some 5000))"
    by (simp add: InMemoryCache_def sample_store_def)
  moreover have "truthy (ce_refresh_token sample_entry)" by (simp add: sample_entry_def)
  ultimately show ?thesis
    using cm_get_expired [of sample_manager "\<lambda>_. True" sample_key sample_store "toKey sample_key"
        sample_entry "Some 5000" 60 9000000 "''i''" False None] mem.cache_laws_axioms
    by simp
qed

text \<open>
  an entry stored by \<open>set\<close> is what \<open>get\<close> returns for its client, audience and scope until
  it expires, whether the cache lists its keys or the manifest does.
\<close>

theorem cm_set_get:
  assumes "cache_laws (cm_cache m) ok" and "ok (wrapCacheEntry now e)"
    and "k = new_CacheKey (ce_client_id e) (ce_scope e) (ce_audience e)"
    and "cm_keyManifest m \<noteq> Some (toKey k)"
    and "\<not> lapsed (map_option ((+) (now div 1000)) (ce_expires_in e)) adj (now' div 1000)"
  shows "cm_get m now' k adj mrrt mode (cm_set m now e c) = (Some e, cm_set m now e c)"
proof -
  have "ic_get (cm_cache m) (cm_set m now e c) (toKey k) = Some (wrapCacheEntry now e)"
    using assms(2-4) cache_laws.get_track [OF assms(1) refl assms(4)]
      cache_laws.get_set_same [OF assms(1,2)]
    by (simp add: cm_set_def Let_def)
  with assms(5) show ?thesis
    by (simp add: cm_get_def cm_get_found_def wrapCacheEntry_def Let_def)
qed

theorem cm_set_get_witness:
  "fst (cm_get sample_manager 100000 sample_key 60 False None (cm_set sample_manager 0 sample_entry []))
     = Some sample_entry"
proof -
  have "sample_key = new_CacheKey (ce_client_id sample_entry) (ce_scope sample_entry) (ce_audience sample_entry)"
    by (simp add: sample_key_def sample_entry_def)
  moreover have "cm_cache sample_manager = InMemoryCache" "cm_keyManifest sample_manager = None"
    by (simp_all add: sample_manager_def new_CacheManager_def InMemoryCache_def)
  moreover have "ce_expires_in sample_entry = Some 3600" by (simp add: sample_entry_def)
  ultimately show ?thesis
    using cm_set_get [of sample_manager "\<lambda>_. True" 0 sample_entry sample_key 60 100000 False None "[]"]
      mem.cache_laws_axioms
    by simp
qed

text \<open>
  \<open>stripRefreshToken\<close> deletes exactly the given refresh token, from every entry that holds
  it; access tokens, expiries and all other entries stay.
\<close>

theorem stripRefreshToken_exact:
  assumes "cache_laws (cm_cache m) ok" and "getCacheKeys m c = Some keys"
  shows "ic_get (cm_cache m) (stripRefreshToken m rt c) j =
           (if j \<in> set keys then touched (strip_fun rt) j (ic_get (cm_cache m) c j)
            else ic_get (cm_cache m) c j)"
  by (rule cache_laws.get_stripRefreshToken [OF assms(1) refl assms(2)])

theorem stripRefreshToken_exact_witness:
  "ic_get InMemoryCache (stripRefreshToken sample_manager ''rt'' sample_store) (toKey sample_key)
     = Some (Wrapped (sample_entry\<lparr>ce_refresh_token := None\<rparr>) (Some 5000))"
proof -
  have m: "cm_cache sample_manager = InMemoryCache" "cm_keyManifest sample_manager = None"
    by (simp_all add: sample_manager_def new_CacheManager_def InMemoryCache_def)
  then have keys: "getCacheKeys sample_manager sample_store = Some [toKey sample_key]"
    by (simp add: getCacheKeys_def InMemoryCache_def sample_store_def obj_keys_def)
  have "ce_refresh_token sample_entry = Some ''rt''" by (simp add: sample_entry_def)
  then show ?thesis
    using stripRefreshToken_exact [OF _ keys, of "\<lambda>_. True" "''rt''" "toKey sample_key"]
      mem.cache_laws_axioms m
    by (simp add: touched_def strip_fun_def InMemoryCache_def sample_store_def)
qed

text \<open>
  after a rotation \<open>updateEntry\<close> puts the new refresh token in every entry of the client
  that held the old one (with MRRT, in every entry of the client that held any), and changes
  nothing else.
\<close>

theorem updateEntry_exact:
  assumes "cache_laws (cm_cache m) ok" and "getCacheKeys m c = Some keys"
  shows "ic_get (cm_cache m) (updateEntry m old new clientId mrrt c) j =
           (if j \<in> set keys then touched (update_fun old new clientId mrrt) j (ic_get (cm_cache m) c j)
            else ic_get (cm_cache m) c j)"
  by (rule cache_laws.get_updateEntry [OF assms(1) refl assms(2)])

theorem updateEntry_exact_witness:
  "ic_get InMemoryCache (updateEntry sample_manager ''rt'' ''rt2'' ''c1'' False sample_store) (toKey sample_key)
     = Some (Wrapped (sample_entry\<lparr>ce_refresh_token := Some ''rt2''\<rparr>) (Some 5000))"
proof -
  have m: "cm_cache sample_manager = InMemoryCache" "cm_keyManifest sample_manager = None"
    by (simp_all add: sample_manager_def new_CacheManager_def InMemoryCache_def)
  then have keys: "getCacheKeys sample_manager sample_store = Some [toKey sample_key]"
    by (simp add: getCacheKeys_def InMemoryCache_def sample_store_def obj_keys_def)
  have "ce_refresh_token sample_entry = Some ''rt''" by (simp add: sample_entry_def)
  moreover have "ck_clientId (fromKey (toKey sample_key)) = Some ''c1''" by code_simp
  ultimately show ?thesis
    using updateEntry_exact [OF _ keys, of "\<lambda>_. True" "''rt''" "''rt2''" "''c1''" False "toKey sample_key"]
      mem.cache_laws_axioms m
    by (simp add: touched_def update_fun_def InMemoryCache_def sample_store_def)
qed

text \<open>
  the refresh tokens returned for an audience are, each once, exactly those of the listed
  entries of that client and audience.
\<close>

theorem getRefreshTokensByAudience_exact:
  "distinct (getRefreshTokensByAudience m audience clientId c) \<and>
   set (getRefreshTokensByAudience m audience clientId c) =
     {r. \<exists>keys key b x. getCacheKeys m c = Some keys \<and> key \<in> set keys \<and>
        ck_prefix (fromKey key) = CACHE_KEY_PREFIX \<and> ck_clientId (fromKey key) = Some clientId \<and>
        ck_audience (fromKey key) = Some audience \<and>
        ic_get (cm_cache m) c key = Some (Wrapped b x) \<and> ce_refresh_token b = Some r \<and> r \<noteq> []}"
  by (cases "getCacheKeys m c")
     (simp_all add: getRefreshTokensByAudience_def set_collect_refresh_tokens)

section \<open>The manifest covers the cache\<close>

text \<open>Every key of a client contains its id.\<close>

lemma str_includes_join: "x \<in> set xs \<Longrightarrow> str_includes (join sep xs) x"
proof (induction sep xs rule: join.induct)
  case (3 sep x' y ys)
  from "3.prems" consider "x = x'" | "x \<in> set (y # ys)" by auto
  then show ?case
  proof cases
    case 1
    then show ?thesis unfolding str_includes_iff by (intro exI [of _ "[]"] exI [of _ "sep @ join sep (y # ys)"]) simp
  next
    case 2
    with "3.IH" obtain a b where "join sep (y # ys) = a @ x @ b" by (auto simp: str_includes_iff)
    then show ?thesis unfolding str_includes_iff
      by (intro exI [of _ "x' @ sep @ a"] exI [of _ b]) simp
  qed
next
  case (2 sep x')
  then show ?case unfolding str_includes_iff by (intro exI [of _ "[]"]) simp
qed simp

lemma toKey_includes: "ck_clientId k = Some cid \<Longrightarrow> str_includes (toKey k) cid"
proof (cases "cid = []")
  case False
  assume "ck_clientId k = Some cid"
  with False show ?thesis unfolding toKey_def by (intro str_includes_join) force
qed (auto simp: str_includes_iff)

lemma client_keys:
  "str_includes (toKey (new_CacheKey (Some cid) scope audience)) cid"
  "str_includes (getIdTokenCacheKey (Some cid)) cid"
  by (simp_all add: toKey_includes new_CacheKey_def getIdTokenCacheKey_def)

text \<open>
  A cache that cannot list its keys relies on the manifest. \<open>cm_reach ok m cid c\<close>: the state
  \<open>c\<close> is reached from an empty cache by the calls that the client \<open>cid\<close> makes of its manager: every
  operation, for entries of its own with keys whose parts hold no separator, and \<open>clear\<close> of
  everything or of its own id (for the id of another client see \<open>clear_other_client_orphans\<close>).
\<close>

definition mkeys :: "'c cache_manager \<Rightarrow> 'c \<Rightarrow> string set" where
  "mkeys m c = (case getCacheKeys m c of None \<Rightarrow> {} | Some ks \<Rightarrow> set ks)"

inductive cm_reach :: "(cacheable \<Rightarrow> bool) \<Rightarrow> 'c cache_manager \<Rightarrow> string \<Rightarrow> 'c \<Rightarrow> bool"
  for ok :: "cacheable \<Rightarrow> bool" and m :: "'c cache_manager" and cid :: string where
  reach_empty: "(\<And>j. ic_get (cm_cache m) c j = None) \<Longrightarrow> cm_reach ok m cid c"
| reach_set: "cm_reach ok m cid c \<Longrightarrow> ok (wrapCacheEntry now e) \<Longrightarrow> ce_client_id e = Some cid \<Longrightarrow>
    canonical_key (new_CacheKey (ce_client_id e) (ce_scope e) (ce_audience e)) \<Longrightarrow>
    cm_reach ok m cid (cm_set m now e c)"
| reach_setIdToken: "cm_reach ok m cid c \<Longrightarrow> ok (IdTok \<lparr>ide_id_token = Some t, ide_decodedToken = Some d\<rparr>) \<Longrightarrow>
    cm_reach ok m cid (cm_setIdToken m cid t d c)"
| reach_get: "cm_reach ok m cid c \<Longrightarrow> cm_reach ok m cid (snd (cm_get m now k adj mrrt mode c))"
| reach_getIdToken: "cm_reach ok m cid c \<Longrightarrow> cm_reach ok m cid (snd (cm_getIdToken m now k c))"
| reach_strip: "cm_reach ok m cid c \<Longrightarrow> cm_reach ok m cid (stripRefreshToken m rt c)"
| reach_update: "cm_reach ok m cid c \<Longrightarrow> cm_reach ok m cid (updateEntry m old new other mrrt c)"
| reach_remove: "cm_reach ok m cid c \<Longrightarrow> canonical_key (new_CacheKey other scope audience) \<Longrightarrow>
    cm_reach ok m cid (cm_remove m other audience scope c)"
| reach_clear: "cm_reach ok m cid c \<Longrightarrow> which \<in> {None, Some cid} \<Longrightarrow> cm_reach ok m cid (cm_clear m which c)"

text \<open>A listed key that a lookup can match is read and written back under the same text.\<close>

definition stable_key :: "string \<Rightarrow> bool" where
  "stable_key j \<longleftrightarrow> (\<forall>k. key_matches k j \<longrightarrow> toKey (fromKey j) = j)"

definition covered :: "'c cache_manager \<Rightarrow> string \<Rightarrow> string \<Rightarrow> 'c \<Rightarrow> bool" where
  "covered m cid mk c \<longleftrightarrow> (\<forall>j \<in> mkeys m c. str_includes j cid) \<and>
     (\<forall>j. ic_get (cm_cache m) c j \<noteq> None \<longrightarrow> j \<noteq> mk \<longrightarrow> j \<in> mkeys m c) \<and>
     mkeys m c \<subseteq> Collect stable_key \<and>
     (\<forall>b x. ic_get (cm_cache m) c mk \<noteq> Some (Wrapped b x)) \<and>
     (\<forall>i. ic_get (cm_cache m) c mk \<noteq> Some (IdTok i))"

lemma mkeys_manifest:
  "cm_keyManifest m = Some mk \<Longrightarrow>
     mkeys m c = (case manifest_get (cm_cache m) mk c of None \<Rightarrow> {} | Some ks \<Rightarrow> set ks)"
  by (simp add: mkeys_def getCacheKeys_def)

lemma mkeys_cong:
  "cm_keyManifest m = Some mk \<Longrightarrow> ic_get (cm_cache m) c' mk = ic_get (cm_cache m) c mk \<Longrightarrow>
     mkeys m c' = mkeys m c"
  by (simp add: mkeys_manifest manifest_get_def)

text \<open>A key with a client, an audience and a scope is not the manifest's key.\<close>

lemma canonical_not_manifest:
  assumes "canonical_key k" "key_part cid"
  shows "toKey k \<noteq> createManifestKeyFrom cid"
proof
  assume eq: "toKey k = createManifestKeyFrom cid"
  have "createManifestKeyFrom cid = join ''::'' [CACHE_KEY_PREFIX, cid]"
    by (simp add: createManifestKeyFrom_def)
  then have "split_str ''::'' (createManifestKeyFrom cid) = [CACHE_KEY_PREFIX, cid]"
    using assms(2) split_str_join [of "''::''" "[CACHE_KEY_PREFIX, cid]"] by (auto simp: key_part_def)
  with split_toKey [OF assms(1)] eq show False by simp
qed

lemma id_token_key: "cid \<noteq> [] \<Longrightarrow>
    getIdTokenCacheKey (Some cid) = join ''::'' [CACHE_KEY_PREFIX, cid, CACHE_KEY_ID_TOKEN_SUFFIX]"
  by (simp add: getIdTokenCacheKey_def toKey_def CACHE_KEY_ID_TOKEN_SUFFIX_def)

lemma split_id_token_key:
  assumes "key_part cid"
  shows "split_str ''::'' (getIdTokenCacheKey (Some cid)) = [CACHE_KEY_PREFIX, cid, CACHE_KEY_ID_TOKEN_SUFFIX]"
proof -
  have "sep_clean ''::'' CACHE_KEY_ID_TOKEN_SUFFIX" by code_simp
  with assms show ?thesis
    using split_str_join [of "''::''" "[CACHE_KEY_PREFIX, cid, CACHE_KEY_ID_TOKEN_SUFFIX]"]
    by (auto simp: id_token_key key_part_def)
qed

lemma id_token_key_no_match: "key_part cid \<Longrightarrow> \<not> key_matches k (getIdTokenCacheKey (Some cid))"
  by (simp add: key_matches_def fromKey_def split_id_token_key nth_opt_def Let_def)

lemma id_token_key_not_manifest:
  assumes "key_part cid" "key_part cid'"
  shows "getIdTokenCacheKey (Some cid) \<noteq> createManifestKeyFrom cid'"
proof
  assume eq: "getIdTokenCacheKey (Some cid) = createManifestKeyFrom cid'"
  have "split_str ''::'' (createManifestKeyFrom cid') = [CACHE_KEY_PREFIX, cid']"
    using assms(2) split_str_join [of "''::''" "[CACHE_KEY_PREFIX, cid']"]
    by (auto simp: key_part_def createManifestKeyFrom_def)
  with split_id_token_key [OF assms(1)] eq show False by simp
qed

context cache_laws
begin

lemma covered_shrink:
  assumes "cm_cache m = ic" "cm_keyManifest m = Some mk" "covered m cid mk c"
    and "ic_get ic c' mk = ic_get ic c mk"
    and "\<And>j. j \<noteq> mk \<Longrightarrow> ic_get ic c' j \<noteq> None \<Longrightarrow> ic_get ic c j \<noteq> None"
  shows "covered m cid mk c'"
  using assms mkeys_cong [of m mk c' c] by (auto simp: covered_def)

lemma mkeys_track:
  assumes "cm_cache m = ic" "cm_keyManifest m = Some mk" "key \<noteq> mk" "ok v"
  shows "mkeys m (cm_track m key (ic_set ic key v c)) = insert key (mkeys m c)"
proof -
  have "manifest_get ic mk (ic_set ic key v c) = manifest_get ic mk c"
    using assms by (simp add: manifest_get_def get_set)
  then show ?thesis
    using assms(1,2)
    by (auto simp: mkeys_manifest cm_track_def manifest_get_add Let_def split: option.splits if_splits)
qed

lemma covered_track:
  assumes "cm_cache m = ic" "cm_keyManifest m = Some mk" "covered m cid mk c" "key \<noteq> mk" "ok v"
    and "stable_key key" "str_includes key cid"
  shows "covered m cid mk (cm_track m key (ic_set ic key v c))"
proof -
  let ?c = "cm_track m key (ic_set ic key v c)"
  have keys: "mkeys m ?c = insert key (mkeys m c)"
    using assms(1,2,4,5) by (rule mkeys_track)
  have other: "ic_get ic ?c j = (if j = key then Some v else ic_get ic c j)" if "j \<noteq> mk" for j
    using that assms(1,2) get_track [of m j key "ic_set ic key v c"] get_set [OF assms(5)] by simp
  have "ic_get ic ?c mk \<noteq> Some (Wrapped b x)" "ic_get ic ?c mk \<noteq> Some (IdTok i)" for b x i
    using assms(1,2) by (simp_all add: cm_track_def manifest_add_def get_set ok_manifest Let_def)
  with assms(1,3,6,7) keys other show ?thesis
    by (auto simp: covered_def split: if_splits)
qed

lemma mkeys_untrack:
  assumes "cm_cache m = ic" "cm_keyManifest m = Some mk" "key \<noteq> mk"
  shows "mkeys m (cm_untrack m key (ic_remove ic key c)) = mkeys m c - {key}"
proof -
  have "manifest_get ic mk (ic_remove ic key c) = manifest_get ic mk c"
    using assms by (simp add: manifest_get_def get_remove)
  with manifest_get_remove [of mk key "ic_remove ic key c"] assms(1,2) show ?thesis
    by (simp add: mkeys_manifest cm_untrack_def)
qed

lemma manifest_remove_value:
  "ic_get ic (manifest_remove ic mk key c) mk = Some (Wrapped b x) \<Longrightarrow> ic_get ic c mk = Some (Wrapped b x)"
  "ic_get ic (manifest_remove ic mk key c) mk = Some (IdTok i) \<Longrightarrow> ic_get ic c mk = Some (IdTok i)"
  by (simp_all add: manifest_remove_def get_set get_remove ok_manifest Let_def split: option.splits if_splits)

lemma covered_untrack:
  assumes "cm_cache m = ic" "cm_keyManifest m = Some mk" "covered m cid mk c" "key \<noteq> mk"
  shows "covered m cid mk (cm_untrack m key (ic_remove ic key c))"
proof -
  let ?c = "cm_untrack m key (ic_remove ic key c)"
  have keys: "mkeys m ?c = mkeys m c - {key}"
    using assms(1,2,4) by (rule mkeys_untrack)
  have other: "ic_get ic ?c j = (if j = key then None else ic_get ic c j)" if "j \<noteq> mk" for j
    using that assms(1,2) get_untrack [of m j key "ic_remove ic key c"] by (simp add: get_remove)
  have "ic_get ic (ic_remove ic key c) mk = ic_get ic c mk"
    using assms(4) by (simp add: get_remove)
  then have "ic_get ic ?c mk \<noteq> Some (Wrapped b x)" "ic_get ic ?c mk \<noteq> Some (IdTok i)" for b x i
    using assms(1,2,3) manifest_remove_value [of mk key "ic_remove ic key c"]
    by (auto simp: cm_untrack_def covered_def)
  moreover have "j \<in> mkeys m ?c" if "ic_get ic ?c j \<noteq> None" "j \<noteq> mk" for j
    using that other [OF that(2)] assms(1,3) unfolding keys covered_def by (auto split: if_splits)
  ultimately show ?thesis
    using assms(1,3) unfolding covered_def keys by blast
qed

lemma covered_get:
  assumes "cm_cache m = ic" "cm_keyManifest m = Some mk" "covered m cid mk c"
  shows "covered m cid mk (snd (cm_get m now k adj mrrt mode c))"
proof (cases "\<exists>j b x. resolved_key m k c = Some j \<and> ic_get ic c j = Some (Wrapped b x) \<and> lapsed x adj (now div 1000)")
  case True
  then obtain j b x where j: "resolved_key m k c = Some j" "ic_get ic c j = Some (Wrapped b x)"
      "lapsed x adj (now div 1000)" by blast
  have jm: "j \<noteq> mk" using assms j(2) by (auto simp: covered_def)
  with assms j(2) have "j \<in> mkeys m c" by (auto simp: covered_def)
  with assms(3) resolved_key_Some [OF j(1)] have canon: "j = toKey k \<or> toKey (fromKey j) = j"
    by (auto simp: covered_def stable_key_def)
  from cm_get_resolved [of m k c j, of "Wrapped b x" now adj mrrt mode] j(1,2) assms(1) canon
  obtain r where r: "toKey r = j" "cm_get m now k adj mrrt mode c = cm_get_found m now adj (Wrapped b x) r c"
    by metis
  show ?thesis
  proof (cases "truthy (ce_refresh_token b)")
    case True
    have strip: "ok (Wrapped (refresh_part b) x)"
      unfolding refresh_part_def by (rule ok_strip [OF get_ok [OF j(2)]])
    show ?thesis
      using r True j(2,3) jm assms(1)
      by (intro covered_shrink [OF assms])
        (auto simp: cm_get_found_def modifiedCachedEntry_def Let_def get_set [OF strip] split: if_splits)
  next
    case False
    with r j(3) assms(1) covered_untrack [OF assms jm] show ?thesis
      by (simp add: cm_get_found_def Let_def)
  qed
next
  case False
  have "snd (cm_get_found m now adj w r c) = c"
    if "resolved_key m k c = Some j" "ic_get ic c j = Some w" for j w r
    using False that by (auto simp: cm_get_found_def Let_def split: cacheable.splits)
  then have "snd (cm_get m now k adj mrrt mode c) = c"
    using assms(1) by (auto simp: cm_get_def resolved_key_def Let_def bind_eq_Some_conv split: option.splits)
  with assms(3) show ?thesis by simp
qed

lemma covered_fold_touch:
  assumes "cm_cache m = ic" "cm_keyManifest m = Some mk" "covered m cid mk c"
    and "\<And>j. ic_get ic c' j = (if j \<in> J then touched f j (ic_get ic c j) else ic_get ic c j)"
  shows "covered m cid mk c'"
proof (rule covered_shrink [OF assms(1-3)])
  have "touched f mk (ic_get ic c mk) = ic_get ic c mk"
    using assms(1,3) by (auto simp: covered_def touched_def split: option.splits cacheable.splits)
  then show "ic_get ic c' mk = ic_get ic c mk" using assms(4) [of mk] by simp
  show "ic_get ic c j \<noteq> None" if "ic_get ic c' j \<noteq> None" for j
    using that assms(4) [of j] by (auto simp: touched_def split: if_splits option.splits)
qed

lemma get_cleared:
  assumes "cm_cache m = ic" "cm_keyManifest m = Some mk" "covered m cid mk c" "getCacheKeys m c = Some keys"
    and "which \<in> {None, Some cid}"
  shows "ic_get ic (cm_clear m which c) j = None"
proof (cases "j = mk")
  case False
  with assms show ?thesis
    using get_clear [of m c keys j which] by (auto simp: covered_def mkeys_def)
next
  case True
  with assms show ?thesis by (simp add: cm_clear_def Let_def manifest_clear_def get_remove)
qed

end

lemma stable_canonical:
  assumes "canonical_key k"
  shows "stable_key (toKey k)"
  by (simp add: stable_key_def fromKey_of_toKey [OF assms])

lemma reach_covered:
  assumes laws: "cache_laws (cm_cache m) ok"
    and m: "cm_keyManifest m = Some (createManifestKeyFrom cid0)" and cid0: "key_part cid0"
    and "cm_reach ok m cid0 c"
  shows "covered m cid0 (createManifestKeyFrom cid0) c"
  using assms(4)
proof induction
  case (reach_empty c)
  then show ?case using m by (simp add: covered_def mkeys_manifest manifest_get_def)
next
  case (reach_set c now e)
  then show ?case
    using cache_laws.covered_track [OF laws refl m] canonical_not_manifest [OF _ cid0] stable_canonical client_keys(1)
    by (simp add: cm_set_def Let_def)
next
  case (reach_setIdToken c t d)
  then show ?case
    using cache_laws.covered_track [OF laws refl m] id_token_key_not_manifest [OF cid0 cid0]
      id_token_key_no_match [OF cid0] client_keys(2)
    by (simp add: cm_setIdToken_def Let_def stable_key_def)
next
  case (reach_get c now k adj mrrt mode)
  then show ?case by (intro cache_laws.covered_get [OF laws refl m])
next
  case (reach_getIdToken c now k)
  have "snd (cm_getIdToken m now k c) \<in> {c, snd (cm_get m now k 0 False None c)}"
    by (auto simp: cm_getIdToken_def split: option.split cacheable.split prod.split)
  with reach_getIdToken.IH cache_laws.covered_get [OF laws refl m reach_getIdToken.IH] show ?case by auto
next
  case (reach_strip c rt)
  show ?case
  proof (cases "getCacheKeys m c")
    case (Some keys)
    show ?thesis
      by (rule cache_laws.covered_fold_touch [OF laws refl m reach_strip.IH,
          OF cache_laws.get_stripRefreshToken [OF laws refl Some]])
  qed (use reach_strip.IH in \<open>simp add: stripRefreshToken_def\<close>)
next
  case (reach_update c old new other mrrt)
  show ?case
  proof (cases "getCacheKeys m c")
    case (Some keys)
    show ?thesis
      by (rule cache_laws.covered_fold_touch [OF laws refl m reach_update.IH,
          OF cache_laws.get_updateEntry [OF laws refl Some]])
  qed (use reach_update.IH in \<open>simp add: updateEntry_def\<close>)
next
  case (reach_remove c other scope audience)
  then show ?case
    using canonical_not_manifest [OF reach_remove.hyps(2) cid0]
    by (intro cache_laws.covered_shrink [OF laws refl m reach_remove.IH])
      (auto simp: cm_remove_def cache_laws.get_remove [OF laws] split: if_splits)
next
  case (reach_clear c which)
  show ?case
  proof (cases "getCacheKeys m c")
    case (Some keys)
    from cache_laws.get_cleared [OF laws refl m reach_clear.IH Some reach_clear.hyps(2)] show ?thesis
      using m by (simp add: covered_def mkeys_manifest manifest_get_def)
  qed (use reach_clear.IH in \<open>simp add: cm_clear_def\<close>)
qed

text \<open>
  C15: with a cache that cannot list its keys, however a client uses its manager, every entry in the
  cache is in the manifest and under a key with the id of the client, so that \<open>clear()\<close>, and
  \<open>clear\<close> of the client's own id, which is what the client calls, leave nothing behind.
\<close>

theorem manifest_covers_cache:
  assumes "cache_laws (cm_cache m) ok"
    and "cm_keyManifest m = Some (createManifestKeyFrom clientId)" and "key_part clientId"
    and "cm_reach ok m clientId c"
  shows "{j. ic_get (cm_cache m) c j \<noteq> None} \<subseteq> insert (createManifestKeyFrom clientId) (mkeys m c) \<and>
    mkeys m c \<subseteq> {j. str_includes j clientId} \<and>
    ic_get (cm_cache m) (cm_clear m None c) j = None \<and> ic_get (cm_cache m) (cm_clear m (Some clientId) c) j = None"
proof -
  let ?mk = "createManifestKeyFrom clientId"
  have cov: "covered m clientId ?mk c" by (rule reach_covered [OF assms])
  then have "{j. ic_get (cm_cache m) c j \<noteq> None} \<subseteq> insert ?mk (mkeys m c)" "mkeys m c \<subseteq> {j. str_includes j clientId}"
    by (auto simp: covered_def)
  moreover have "ic_get (cm_cache m) (cm_clear m which c) j = None" if w: "which \<in> {None, Some clientId}" for which
  proof (cases "getCacheKeys m c")
    case (Some keys)
    then show ?thesis by (rule cache_laws.get_cleared [OF assms(1) refl assms(2) cov _ w])
  next
    case None
    then have "mkeys m c = {}" by (simp add: mkeys_def)
    moreover from None assms(2) cov have "ic_get (cm_cache m) c ?mk = None"
      by (auto simp: covered_def getCacheKeys_def manifest_get_def split: option.splits cacheable.splits)
    ultimately show ?thesis
      using None cov by (cases "j = ?mk") (auto simp: cm_clear_def covered_def)
  qed
  ultimately show ?thesis by simp
qed

text \<open>A cache of the application's own, that cannot list its keys.\<close>

definition UnlistedCache :: "cacheable obj icache" where
  "UnlistedCache = InMemoryCache\<lparr>ic_allKeys := None\<rparr>"

interpretation unlisted: cache_laws UnlistedCache "\<lambda>_. True"
  by unfold_locales (simp_all add: UnlistedCache_def InMemoryCache_def)

definition unlisted_manager :: "cacheable obj cache_manager" where
  "unlisted_manager = new_CacheManager UnlistedCache ''c1''"

lemma unlisted_manager_simps [simp]:
  "cm_cache unlisted_manager = UnlistedCache"
  "cm_keyManifest unlisted_manager = Some (createManifestKeyFrom ''c1'')"
  by (simp_all add: unlisted_manager_def new_CacheManager_def UnlistedCache_def)

theorem manifest_covers_cache_witness:
  "ic_get UnlistedCache (cm_clear unlisted_manager (Some ''c1'') (cm_set unlisted_manager 0 sample_entry []))
     (toKey sample_key) = None"
proof -
  have "cm_reach (\<lambda>_. True) unlisted_manager ''c1'' []"
    by (rule reach_empty) (simp add: UnlistedCache_def InMemoryCache_def)
  moreover have "canonical_key (new_CacheKey (ce_client_id sample_entry) (ce_scope sample_entry) (ce_audience sample_entry))"
    "ce_client_id sample_entry = Some ''c1''" by code_simp+
  ultimately have "cm_reach (\<lambda>_. True) unlisted_manager ''c1'' (cm_set unlisted_manager 0 sample_entry [])"
    by (intro reach_set) simp_all
  moreover have "key_part ''c1''" by code_simp
  ultimately show ?thesis
    using manifest_covers_cache [of unlisted_manager "\<lambda>_. True" "''c1''" _ "toKey sample_key"]
      unlisted.cache_laws_axioms
    by simp
qed

text \<open>
  with a cache that lists its keys, \<open>clear(clientId)\<close> removes every entry of the SDK whose
  key contains the id (all of them when none is given) and no other.
\<close>

theorem cm_clear_exact:
  assumes "listing_cache (cm_cache m) ok keys" and "cm_keyManifest m = None"
    and "prefix CACHE_KEY_PREFIX j"
  shows "ic_get (cm_cache m) (cm_clear m clientId c) j =
           (if truthy clientId \<and> \<not> str_includes j (the clientId) then ic_get (cm_cache m) c j else None)"
proof -
  have laws: "cache_laws (cm_cache m) ok"
    using assms(1) by (rule listing_cache.axioms(1))
  have keys: "getCacheKeys m c = Some (keys c)"
    using listing_cache.allKeys [OF assms(1)] assms(2) by (simp add: getCacheKeys_def)
  have "ic_get (cm_cache m) c j = None" if "j \<notin> set (keys c)"
    using listing_cache.keys_complete [OF assms(1) _ assms(3), of c] that by blast
  with cache_laws.get_clear [OF laws refl keys, of j clientId] assms(2) show ?thesis by auto
qed

theorem cm_clear_exact_witness:
  "ic_get InMemoryCache (cm_clear sample_manager (Some ''c1'') sample_store) (toKey sample_key) = None"
proof -
  have "prefix CACHE_KEY_PREFIX (toKey sample_key)" "str_includes (toKey sample_key) ''c1''"
    by code_simp+
  moreover have "cm_cache sample_manager = InMemoryCache" "cm_keyManifest sample_manager = None"
    by (simp_all add: sample_manager_def new_CacheManager_def InMemoryCache_def)
  ultimately show ?thesis
    using cm_clear_exact [of sample_manager "\<lambda>_. True" obj_keys "toKey sample_key" "Some ''c1''" sample_store]
      mem.listing_cache_axioms
    by simp
qed

text \<open>
  With a manifest, \<open>clear\<close> of a client id that occurs in none of the keys removes no entry and
  yet deletes the manifest: the entries that stay are listed nowhere any more.
\<close>

lemma clear_other_client_orphans:
  "let c = cm_clear unlisted_manager (Some ''other'') (cm_set unlisted_manager 0 sample_entry [])
   in ic_get UnlistedCache c (toKey sample_key) \<noteq> None \<and> getCacheKeys unlisted_manager c = None"
  by code_simp

end
