(* ===== verification/CacheModel.thy ===== *)
theory CacheModel
  imports CacheManager
begin

text \<open>
  What the cache manager promises, apart from how it is stored. Over a cache that lists its keys
  every operation of the manager is an operation on one map from keys to entries (a forward
  simulation, for any sequence of operations), and the two caches of the SDK, in memory and in
  the browser's storage, cannot be told apart by it.
\<close>

section \<open>The operations\<close>

datatype cache_op =
    OpSet cache_entry
  | OpSetIdToken string string decoded_token
  | OpRemove "string option" "string option" "string option"
  | OpClear "string option"
  | OpStrip string
  | OpUpdate string string string bool
  | OpGet "string option" "string option" "string option" int bool "string option"

fun run_op :: "'c cache_manager \<Rightarrow> int \<times> cache_op \<Rightarrow> 'c \<Rightarrow> 'c" where
  "run_op m (now, OpSet e) c = cm_set m now e c"
| "run_op m (now, OpSetIdToken cid t d) c = cm_setIdToken m cid t d c"
| "run_op m (now, OpRemove cid audience scope) c = cm_remove m cid audience scope c"
| "run_op m (now, OpClear cid) c = cm_clear m cid c"
| "run_op m (now, OpStrip rt) c = stripRefreshToken m rt c"
| "run_op m (now, OpUpdate old new cid mrrt) c = updateEntry m old new cid mrrt c"
| "run_op m (now, OpGet cid scope audience adj mrrt mode) c =
     snd (cm_get m now (new_CacheKey cid scope audience) adj mrrt mode c)"

text \<open>What is written can be stored.\<close>

fun op_ok :: "(cacheable \<Rightarrow> bool) \<Rightarrow> int \<times> cache_op \<Rightarrow> bool" where
  "op_ok ok (now, OpSet e) = ok (wrapCacheEntry now e)"
| "op_ok ok (now, OpSetIdToken cid t d) = ok (IdTok \<lparr>ide_id_token = Some t, ide_decodedToken = Some d\<rparr>)"
| "op_ok ok _ = True"

section \<open>The map\<close>

type_synonym cache_map = "string \<rightharpoonup> cacheable"

inductive map_step :: "int \<times> cache_op \<Rightarrow> cache_map \<Rightarrow> cache_map \<Rightarrow> bool" where
  map_set: "map_step (now, OpSet e) M (M(toKey (CacheKey_fromCacheEntry e) \<mapsto> wrapCacheEntry now e))"
| map_setIdToken: "map_step (now, OpSetIdToken cid t d) M
     (M(getIdTokenCacheKey (Some cid) \<mapsto> IdTok \<lparr>ide_id_token = Some t, ide_decodedToken = Some d\<rparr>))"
| map_remove: "map_step (now, OpRemove cid audience scope) M (M(toKey (new_CacheKey cid scope audience) := None))"
| map_clear: "map_step (now, OpClear cid) M
     (\<lambda>j. if truthy cid \<and> \<not> str_includes j (the cid) then M j else None)"
| map_strip: "map_step (now, OpStrip rt) M (\<lambda>j. touched (strip_fun rt) j (M j))"
| map_update: "map_step (now, OpUpdate old new cid mrrt) M (\<lambda>j. touched (update_fun old new cid mrrt) j (M j))"
| map_get: "map_step (now, OpGet cid scope audience adj mrrt mode) M M"
| map_expire: "M j = Some (Wrapped b x) \<Longrightarrow> lapsed x adj (now div 1000) \<Longrightarrow> k \<in> {j, toKey (fromKey j)} \<Longrightarrow>
     map_step (now, OpGet cid scope audience adj mrrt mode) M
       (M(k := if truthy (ce_refresh_token b) then Some (Wrapped (refresh_part b) x) else None))"

inductive map_steps :: "(int \<times> cache_op) list \<Rightarrow> cache_map \<Rightarrow> cache_map \<Rightarrow> bool" where
  map_done: "map_steps [] M M"
| map_more: "map_step op M N \<Longrightarrow> map_steps ops N P \<Longrightarrow> map_steps (op # ops) M P"

inductive_simps map_steps_simps: "map_steps [] M N" "map_steps (op # ops) M N"

section \<open>The entries of the SDK in a cache\<close>

definition sdk_view :: "'c icache \<Rightarrow> 'c \<Rightarrow> cache_map" where
  "sdk_view ic c j = (if prefix CACHE_KEY_PREFIX j then ic_get ic c j else None)"

lemma toKey_prefix: "ck_prefix k = CACHE_KEY_PREFIX \<Longrightarrow> prefix CACHE_KEY_PREFIX (toKey k)"
proof -
  have "prefix x (join s (x # xs))" for x s xs by (cases xs) simp_all
  then show "ck_prefix k = CACHE_KEY_PREFIX \<Longrightarrow> ?thesis" by (simp add: toKey_def)
qed

lemma sdk_keys [simp, intro]:
  "prefix CACHE_KEY_PREFIX (toKey (new_CacheKey cid scope audience))"
  "prefix CACHE_KEY_PREFIX (getIdTokenCacheKey cid)"
  "prefix CACHE_KEY_PREFIX (toKey (CacheKey_fromCacheEntry e))"
  by (simp_all add: toKey_prefix new_CacheKey_def getIdTokenCacheKey_def CacheKey_fromCacheEntry_def)

lemma fromKey_prefix: "ck_prefix (fromKey j) = CACHE_KEY_PREFIX \<Longrightarrow> prefix CACHE_KEY_PREFIX j"
  using join_split_str [of "''::''" j]
  by (cases "split_str ''::'' j" rule: remdups_adj.cases) (auto simp: fromKey_def Let_def)

lemma matched_prefix: "key_matches k j \<Longrightarrow> prefix CACHE_KEY_PREFIX (toKey (fromKey j))"
  by (rule toKey_prefix) (simp add: key_matches_def Let_def)

context listing_cache
begin

lemma listed:
  assumes "cm_cache m = ic" "cm_keyManifest m = None"
  shows "getCacheKeys m c = Some (keys c)" "cm_track m k c = c" "cm_untrack m k c = c"
  using assms by (simp_all add: getCacheKeys_def cm_track_def cm_untrack_def allKeys)

lemma unlisted_view: "j \<notin> set (keys c) \<Longrightarrow> sdk_view ic c j = None"
  using keys_complete [of c j] by (cases "ic_get ic c j") (auto simp: sdk_view_def)

lemma touched_None [simp]: "touched f j None = None"
  by (simp add: touched_def)

lemma view_set: "ok v \<Longrightarrow> prefix CACHE_KEY_PREFIX k \<Longrightarrow> sdk_view ic (ic_set ic k v c) = (sdk_view ic c)(k \<mapsto> v)"
  by (auto simp: sdk_view_def get_set fun_eq_iff)

lemma view_remove: "sdk_view ic (ic_remove ic k c) = (sdk_view ic c)(k := None)"
  by (auto simp: sdk_view_def get_remove fun_eq_iff)

lemma view_get:
  assumes m: "cm_cache m = ic" "cm_keyManifest m = None"
  shows "map_step (now, OpGet cid scope audience adj mrrt mode) (sdk_view ic c)
    (sdk_view ic (snd (cm_get m now (new_CacheKey cid scope audience) adj mrrt mode c)))"
proof -
  let ?k = "new_CacheKey cid scope audience"
  let ?c = "snd (cm_get m now ?k adj mrrt mode c)"
  have same: ?thesis if "?c = c" using that by (simp add: map_get)
  show ?thesis
  proof (cases "\<exists>j w. resolved_key m ?k c = Some j \<and> ic_get ic c j = Some w")
    case False
    have "?c = c"
    proof (cases "ic_get ic c (toKey ?k)")
      case None
      with False have "Option.bind (matchExistingCacheKey ?k (keys c)) (ic_get ic c) = None"
        by (cases "matchExistingCacheKey ?k (keys c)") (auto simp: resolved_key_def listed [OF m] m)
      with None show ?thesis by (simp add: cm_get_def listed [OF m] m Let_def)
    qed (use False in \<open>simp add: resolved_key_def m\<close>)
    then show ?thesis by (rule same)
  next
    case True
    then obtain j w where j: "resolved_key m ?k c = Some j" "ic_get (cm_cache m) c j = Some w"
      using m by blast
    from cm_get_resolved [OF this, of now adj mrrt mode] obtain r where
      r: "r = ?k \<and> j = toKey ?k \<or> r = fromKey j \<and> j \<noteq> toKey ?k"
        "cm_get m now ?k adj mrrt mode c = cm_get_found m now adj w r c" by blast
    from resolved_key_Some [OF j(1)] r(1) have P: "prefix CACHE_KEY_PREFIX (toKey r)"
      by (auto dest: matched_prefix)
    have "prefix CACHE_KEY_PREFIX j"
      using resolved_key_Some [OF j(1)] by (auto simp: key_matches_def Let_def intro: fromKey_prefix)
    then have view: "sdk_view ic c j = Some w" using j m by (simp add: sdk_view_def)
    show ?thesis
    proof (cases "\<exists>b x. w = Wrapped b x \<and> lapsed x adj (now div 1000)")
      case True
      then obtain b x where w: "w = Wrapped b x" "lapsed x adj (now div 1000)" by blast
      have "ic_get ic ?c i = (if i = toKey r
            then (if truthy (ce_refresh_token b) then Some (Wrapped (refresh_part b) x) else None)
            else ic_get ic c i)" for i
        using get_cm_get_found(2) [of m i x adj now b r c] get_ok [of c j] w j r(2) m by simp
      then have "sdk_view ic ?c = (sdk_view ic c)(toKey r :=
            if truthy (ce_refresh_token b) then Some (Wrapped (refresh_part b) x) else None)"
        using P by (auto simp: sdk_view_def fun_eq_iff)
      moreover have "toKey r \<in> {j, toKey (fromKey j)}" using r(1) by auto
      ultimately show ?thesis using map_expire [of "sdk_view ic c" j b x] view w by simp
    next
      case False
      then have "?c = c" using r(2) by (cases w) (simp_all add: cm_get_found_def Let_def)
      then show ?thesis by (rule same)
    qed
  qed
qed

lemma view_clear:
  assumes m: "cm_cache m = ic" "cm_keyManifest m = None"
  shows "sdk_view ic (cm_clear m cid c) =
    (\<lambda>j. if truthy cid \<and> \<not> str_includes j (the cid) then sdk_view ic c j else None)"
  using get_clear [OF m(1) listed(1) [OF m], of _ cid c] m unlisted_view [of _ c]
  by (fastforce simp: sdk_view_def fun_eq_iff)

lemma run_op_refines:
  assumes m: "cm_cache m = ic" "cm_keyManifest m = None" and "op_ok ok op"
  shows "map_step op (sdk_view ic c) (sdk_view ic (run_op m op c))"
proof -
  obtain now o1 where op: "op = (now, o1)" by force
  show ?thesis
  proof (cases o1)
    case (OpSet e)
    with assms op show ?thesis
      by (simp add: cm_set_def listed view_set Let_def flip: CacheKey_fromCacheEntry_def)
        (rule map_set)
  next
    case (OpSetIdToken cid t d)
    with assms op show ?thesis by (simp add: cm_setIdToken_def listed view_set Let_def map_setIdToken)
  next
    case (OpRemove cid audience scope)
    with m op show ?thesis by (simp add: cm_remove_def view_remove map_remove)
  next
    case (OpClear cid)
    with op view_clear [OF m] show ?thesis by (simp add: map_clear)
  next
    case (OpStrip rt)
    have "sdk_view ic (stripRefreshToken m rt c) = (\<lambda>j. touched (strip_fun rt) j (sdk_view ic c j))"
      using get_stripRefreshToken [OF m(1) listed(1) [OF m], of rt c] unlisted_view [of _ c] m(1)
      by (fastforce simp: sdk_view_def fun_eq_iff)
    with OpStrip op show ?thesis by (simp add: map_strip)
  next
    case (OpUpdate old new cid mrrt)
    have "sdk_view ic (updateEntry m old new cid mrrt c) = (\<lambda>j. touched (update_fun old new cid mrrt) j (sdk_view ic c j))"
      using get_updateEntry [OF m(1) listed(1) [OF m], of old new cid mrrt c] unlisted_view [of _ c] m(1)
      by (fastforce simp: sdk_view_def fun_eq_iff)
    with OpUpdate op show ?thesis by (simp add: map_update)
  qed (use op view_get [OF m] in simp)
qed

lemma run_ops_refines:
  "cm_cache m = ic \<Longrightarrow> cm_keyManifest m = None \<Longrightarrow> list_all (op_ok ok) ops \<Longrightarrow>
     map_steps ops (sdk_view ic c) (sdk_view ic (fold (run_op m) ops c))"
proof (induction ops arbitrary: c)
  case (Cons op ops)
  then show ?case using map_more [OF run_op_refines [of m op c] Cons.IH [of "run_op m op c"]] by simp
qed (simp add: map_steps_simps)

end

section \<open>What is stored where\<close>

text \<open>
  Access tokens are stored under keys of four parts, id tokens under keys of three; a token
  stored by the client has its key from the client, an audience and a scope.
\<close>

definition key_parts :: "string \<Rightarrow> nat" where
  "key_parts j = length (split_str ''::'' j)"

fun fits_key :: "string \<Rightarrow> cacheable \<Rightarrow> bool" where
  "fits_key j (Wrapped _ _) = (key_parts j = 4 \<and> toKey (fromKey j) = j)"
| "fits_key j (IdTok i) = (key_parts j = 3 \<and> ide_id_token i \<noteq> None \<and> ide_decodedToken i \<noteq> None)"
| "fits_key j (Manifest _) = False"

definition well_typed :: "cache_map \<Rightarrow> bool" where
  "well_typed M \<longleftrightarrow> (\<forall>j v. M j = Some v \<longrightarrow> fits_key j v)"

fun op_typed :: "int \<times> cache_op \<Rightarrow> bool" where
  "op_typed (_, OpSet e) = canonical_key (CacheKey_fromCacheEntry e)"
| "op_typed (_, OpSetIdToken cid _ _) = key_part cid"
| "op_typed _ = True"

lemma parts_canonical: "canonical_key k \<Longrightarrow> key_parts (toKey k) = 4"
  by (simp add: key_parts_def split_toKey)

lemma parts_id_token: "key_part cid \<Longrightarrow> key_parts (getIdTokenCacheKey (Some cid)) = 3"
  by (simp add: key_parts_def split_id_token_key)

lemma fits_touched: "fits_key j v \<Longrightarrow> touched f j (Some v) = Some w \<Longrightarrow> fits_key j w"
  by (auto simp: touched_def split: cacheable.splits option.splits)

lemma typed_upd: "well_typed M \<Longrightarrow> fits_key k v \<Longrightarrow> well_typed (M(k \<mapsto> v))"
  "well_typed M \<Longrightarrow> well_typed (M(k := None))"
  by (auto simp: well_typed_def)

lemma typed_touched: "well_typed M \<Longrightarrow> well_typed (\<lambda>j. touched f j (M j))"
proof -
  assume M: "well_typed M"
  have "fits_key j w" if "touched f j (M j) = Some w" for j w
    using that M fits_touched [of j _ f w] by (cases "M j") (auto simp: well_typed_def touched_def)
  then show ?thesis by (simp add: well_typed_def)
qed

lemma map_step_typed: "map_step op M N \<Longrightarrow> op_typed op \<Longrightarrow> well_typed M \<Longrightarrow> well_typed N"
proof (induction rule: map_step.induct)
  case (map_set now e M)
  then show ?case
    by (intro typed_upd) (auto simp: wrapCacheEntry_def parts_canonical fromKey_of_toKey Let_def)
next
  case (map_expire M j b x adj now k cid scope audience mrrt mode)
  have j: "fits_key j (Wrapped b x)" using map_expire.prems(2) map_expire.hyps(1) unfolding well_typed_def by blast
  then have "k = j" using map_expire.hyps(3) by simp
  with j have "fits_key k (Wrapped (refresh_part b) x)" by simp
  with map_expire.prems(2) show ?case by (auto simp del: fun_upd_apply intro: typed_upd)
qed (auto simp: typed_upd typed_touched parts_id_token, auto simp: well_typed_def)

lemma map_steps_typed: "map_steps ops M N \<Longrightarrow> list_all op_typed ops \<Longrightarrow> well_typed M \<Longrightarrow> well_typed N"
  by (induction rule: map_steps.induct) (auto dest: map_step_typed)

section \<open>Caches that cannot be told apart\<close>

definition paired :: "'c icache \<Rightarrow> 'd icache \<Rightarrow> string \<Rightarrow> 'c cache_manager \<Rightarrow> 'd cache_manager \<Rightarrow> bool" where
  "paired ic ic' clientId m m' \<longleftrightarrow> m = new_CacheManager ic clientId \<and> m' = new_CacheManager ic' clientId"

text \<open>
  \<open>R\<close> relates the states of two caches that give the same answers for the keys in \<open>K\<close> and list
  the same keys in the same order.
\<close>

locale same_caches =
  fixes ic :: "'c icache" and ic' :: "'d icache" and ok :: "cacheable \<Rightarrow> bool" and R :: "'c \<Rightarrow> 'd \<Rightarrow> bool"
    and keys :: "'c \<Rightarrow> string list" and keys' :: "'d \<Rightarrow> string list"
  assumes same_get: "R c d \<Longrightarrow> prefix CACHE_KEY_PREFIX k \<Longrightarrow> ic_get ic' d k = ic_get ic c k"
    and same_set: "R c d \<Longrightarrow> prefix CACHE_KEY_PREFIX k \<Longrightarrow> ok v \<Longrightarrow> R (ic_set ic k v c) (ic_set ic' k v d)"
    and same_remove: "R c d \<Longrightarrow> R (ic_remove ic k c) (ic_remove ic' k d)"
    and same_keys: "R c d \<Longrightarrow> keys' d = keys c"
    and keys_prefix: "R c d \<Longrightarrow> k \<in> set (keys c) \<Longrightarrow> prefix CACHE_KEY_PREFIX k"
    and lists: "ic_allKeys ic = Some keys" "ic_allKeys ic' = Some keys'"
    and got_ok: "R c d \<Longrightarrow> ic_get ic c k = Some v \<Longrightarrow> ok v"
    and refresh_ok: "ok (Wrapped b x) \<Longrightarrow> ok (Wrapped (b\<lparr>ce_refresh_token := r\<rparr>) x)"
    and strip_ok: "ok (Wrapped b x) \<Longrightarrow> ok (Wrapped (empty_entry\<lparr>ce_refresh_token := r, ce_audience := a, ce_scope := s\<rparr>) x)"
begin

lemma both_simps:
  assumes "paired ic ic' cid m m'"
  shows "cm_cache m = ic" "cm_cache m' = ic'" "cm_keyManifest m = None" "cm_keyManifest m' = None"
    "getCacheKeys m c = Some (keys c)" "getCacheKeys m' d = Some (keys' d)"
    "cm_track m k c = c" "cm_track m' k d = d" "cm_untrack m k c = c" "cm_untrack m' k d = d"
  using assms by (simp_all add: paired_def new_CacheManager_def getCacheKeys_def cm_track_def cm_untrack_def lists)

lemma same_fold: "R c d \<Longrightarrow> (\<And>k c d. k \<in> set ks \<Longrightarrow> R c d \<Longrightarrow> R (f k c) (f' k d)) \<Longrightarrow> R (fold f ks c) (fold f' ks d)"
  by (induction ks arbitrary: c d) auto

lemma same_touch:
  assumes "\<And>k b b' x. f k b = Some b' \<Longrightarrow> ok (Wrapped b x) \<Longrightarrow> ok (Wrapped b' x)"
    and "R c d" "prefix CACHE_KEY_PREFIX k"
  shows "R (touch ic f k c) (touch ic' f k d)"
proof -
  have "ok (Wrapped b' x)" if "ic_get ic c k = Some (Wrapped b x)" "f k b = Some b'" for b b' x
    using assms(1) [OF that(2) got_ok [OF assms(2) that(1)]] .
  with assms(2,3) show ?thesis
    by (auto simp: touch_def same_get intro: same_set split: option.split cacheable.split)
qed

lemma same_found:
  assumes "paired ic ic' cid m m'" "R c d" "prefix CACHE_KEY_PREFIX (toKey k)" "ok w"
  shows "fst (cm_get_found m' now adj w k d) = fst (cm_get_found m now adj w k c)"
    "R (snd (cm_get_found m now adj w k c)) (snd (cm_get_found m' now adj w k d))"
proof -
  have "ok (Wrapped (refresh_part b) x)" if "w = Wrapped b x" for b x
    using assms(4) that unfolding refresh_part_def by (auto intro: strip_ok)
  with assms show "fst (cm_get_found m' now adj w k d) = fst (cm_get_found m now adj w k c)"
    "R (snd (cm_get_found m now adj w k c)) (snd (cm_get_found m' now adj w k d))"
    by (auto simp: cm_get_found_def modifiedCachedEntry_def both_simps [OF assms(1)] same_get Let_def
        intro: same_set same_remove split: cacheable.split)
qed

lemma same_refresh:
  "paired ic ic' cid m m' \<Longrightarrow> R c d \<Longrightarrow> list_all (prefix CACHE_KEY_PREFIX) ks \<Longrightarrow>
     getEntryWithRefreshToken m' k ks d = getEntryWithRefreshToken m k ks c"
  by (induction ks) (auto simp: both_simps same_get Let_def split: option.split)

lemma same_cm_get:
  assumes "paired ic ic' cid m m'" "R c d" "ck_prefix k = CACHE_KEY_PREFIX"
  shows "fst (cm_get m' now k adj mrrt mode d) = fst (cm_get m now k adj mrrt mode c) \<and>
    R (snd (cm_get m now k adj mrrt mode c)) (snd (cm_get m' now k adj mrrt mode d))"
proof -
  note simps = both_simps [OF assms(1)]
  have K: "prefix CACHE_KEY_PREFIX (toKey k)" using assms(3) by (rule toKey_prefix)
  show ?thesis
  proof (cases "ic_get ic c (toKey k)")
    case (Some w)
    with same_found [OF assms(1,2) K got_ok [OF assms(2) Some]] same_get [OF assms(2) K] show ?thesis by (simp add: cm_get_def simps)
  next
    case None
    have list: "list_all (prefix CACHE_KEY_PREFIX) (keys c)" using keys_prefix [OF assms(2)] by (simp add: list_all_iff)
    show ?thesis
    proof (cases "matchExistingCacheKey k (keys c)")
      case None': None
      with None same_get [OF assms(2) K] same_keys [OF assms(2)] same_refresh [OF assms(1,2) list] assms(2)
      show ?thesis by (simp add: cm_get_def simps)
    next
      case (Some j)
      from matchExistingCacheKey_Some [OF Some] have j: "prefix CACHE_KEY_PREFIX j"
          "prefix CACHE_KEY_PREFIX (toKey (fromKey j))"
        using keys_prefix [OF assms(2)] matched_prefix by blast+
      show ?thesis
      proof (cases "ic_get ic c j")
        case None'': None
        with None Some same_get [OF assms(2) K] same_get [OF assms(2) j(1)] same_keys [OF assms(2)]
          same_refresh [OF assms(1,2) list] assms(2)
        show ?thesis by (simp add: cm_get_def simps)
      next
        case found: (Some w)
        with None Some same_get [OF assms(2) K] same_get [OF assms(2) j(1)] same_keys [OF assms(2)]
          same_found [OF assms(1,2) j(2) got_ok [OF assms(2) found]]
        show ?thesis by (simp add: cm_get_def simps)
      qed
    qed
  qed
qed

lemma same_id_token:
  assumes "paired ic ic' cid m m'" "R c d" "ck_prefix k = CACHE_KEY_PREFIX"
  shows "fst (cm_getIdToken m' now k d) = fst (cm_getIdToken m now k c)"
  using same_cm_get [OF assms, of now 0 False None] same_get [OF assms(2) sdk_keys(2)]
  by (auto simp: cm_getIdToken_def both_simps [OF assms(1)] split: option.split cacheable.split prod.split)

lemma same_op:
  assumes B: "paired ic ic' cid m m'" and RC: "R c d" and "op_ok ok op"
  shows "R (run_op m op c) (run_op m' op d)"
proof -
  note simps = both_simps [OF B]
  obtain now o1 where op: "op = (now, o1)" by force
  have touched: "R (fold (touch ic f) (keys c) c) (fold (touch ic' f) (keys' d) d)"
    if "\<And>k b b' x. f k b = Some b' \<Longrightarrow> ok (Wrapped b x) \<Longrightarrow> ok (Wrapped b' x)" for f
    unfolding same_keys [OF RC] by (rule same_fold [OF RC]) (use that keys_prefix [OF RC] in \<open>auto intro: same_touch\<close>)
  show ?thesis
  proof (cases o1)
    case (OpSet e)
    with assms op show ?thesis
      by (auto simp: cm_set_def simps Let_def intro!: same_set)
  next
    case (OpClear cid)
    then have "run_op m op c = fold (ic_remove ic) (filter (\<lambda>k. if truthy cid then str_includes k (the cid) else True) (keys c)) c"
      "run_op m' op d = fold (ic_remove ic') (filter (\<lambda>k. if truthy cid then str_includes k (the cid) else True) (keys c)) d"
      using op by (simp_all add: cm_clear_def simps same_keys [OF RC])
    then show ?thesis by (auto intro!: same_fold [OF RC] same_remove)
  next
    case (OpStrip rt)
    have "R (fold (touch ic (strip_fun rt)) (keys c) c) (fold (touch ic' (strip_fun rt)) (keys' d) d)"
      by (rule touched) (auto simp: strip_fun_def refresh_ok split: if_splits)
    with OpStrip op show ?thesis by (simp add: stripRefreshToken_def strip_step_touch simps)
  next
    case (OpUpdate old new cid mrrt)
    let ?f = "update_fun old new cid mrrt"
    have "R (fold (touch ic ?f) (keys c) c) (fold (touch ic' ?f) (keys' d) d)"
      by (rule touched) (auto simp: update_fun_def refresh_ok split: if_splits)
    with OpUpdate op show ?thesis by (simp add: updateEntry_def update_step_touch simps)
  next
    case (OpGet cid scope audience adj mrrt mode)
    with op same_cm_get [OF B RC, of "new_CacheKey cid scope audience"] show ?thesis
      by (simp add: new_CacheKey_def)
  qed (use assms op in \<open>auto simp: cm_setIdToken_def cm_remove_def simps Let_def intro!: same_set same_remove\<close>)
qed

lemma same_ops:
  "paired ic ic' cid m m' \<Longrightarrow> R c d \<Longrightarrow> list_all (op_ok ok) ops \<Longrightarrow> R (fold (run_op m) ops c) (fold (run_op m') ops d)"
  by (induction ops arbitrary: c d) (auto intro: same_op)

end

section \<open>The memory and the storage\<close>

text \<open>
  The storage holds the texts of the entries of the memory, in their order, among whatever else
  the page keeps there.
\<close>

definition stored_text :: "string \<times> cacheable \<Rightarrow> string \<times> string" where
  "stored_text e = (fst e, stringify (cacheable_to_json (snd e)))"

definition stores_as :: "cacheable obj \<Rightarrow> string obj \<Rightarrow> bool" where
  "stores_as c d \<longleftrightarrow> list_all (\<lambda>(k, v). prefix CACHE_KEY_PREFIX k \<and> cacheable_wf v) c \<and>
     filter (\<lambda>(k, _). prefix CACHE_KEY_PREFIX k) d = map stored_text c"

lemma map_of_filter_key: "P k \<Longrightarrow> map_of (filter (\<lambda>(k, _). P k) d) k = map_of d k"
  by (induction d) auto

lemma map_of_stored: "map_of (map stored_text c) k = map_option (\<lambda>v. stringify (cacheable_to_json v)) (map_of c k)"
  by (induction c) (auto simp: stored_text_def)

lemma filter_update: "P k \<Longrightarrow> filter (\<lambda>(k, _). P k) (AList.update k v d) = AList.update k v (filter (\<lambda>(k, _). P k) d)"
  by (induction d) auto

lemma filter_delete: "filter (\<lambda>(k, _). P k) (AList.delete k d) = AList.delete k (filter (\<lambda>(k, _). P k) d)"
  by (induction d) auto

lemma update_stored: "map stored_text (AList.update k v c) = AList.update k (stringify (cacheable_to_json v)) (map stored_text c)"
  by (induction c) (auto simp: stored_text_def)

lemma delete_stored: "map stored_text (AList.delete k c) = AList.delete k (map stored_text c)"
  by (induction c) (auto simp: stored_text_def)

lemma all_update: "P (k, v) \<Longrightarrow> list_all P c \<Longrightarrow> list_all P (AList.update k v c)"
  by (induction c) auto

lemma all_delete: "list_all P c \<Longrightarrow> list_all P (AList.delete k c)"
  by (induction c) auto

lemma stores_as_get:
  assumes "stores_as c d" "prefix CACHE_KEY_PREFIX k"
  shows "map_of d k = map_option (\<lambda>v. stringify (cacheable_to_json v)) (map_of c k)"
  using assms map_of_filter_key [of "prefix CACHE_KEY_PREFIX" k d] map_of_stored [of c k]
  by (simp add: stores_as_def)

lemma stores_as_wf: "stores_as c d \<Longrightarrow> map_of c k = Some v \<Longrightarrow> cacheable_wf v"
  by (auto simp: stores_as_def list_all_iff dest!: map_of_SomeD)

interpretation both_caches: same_caches InMemoryCache LocalStorageCache cacheable_wf stores_as obj_keys ls_allKeys
proof unfold_locales
  fix c d k assume R: "stores_as c d" and k: "prefix CACHE_KEY_PREFIX k"
  show "ic_get LocalStorageCache d k = ic_get InMemoryCache c k"
    using stores_as_get [OF R k] stores_as_wf [OF R, of k]
    by (auto simp: LocalStorageCache_def InMemoryCache_def ls_get_def json_parse_stringify cacheable_wf_json
        cacheable_of_to split: option.split)
next
  fix c d k v assume "stores_as c d" "prefix CACHE_KEY_PREFIX k" "cacheable_wf v"
  then show "stores_as (ic_set InMemoryCache k v c) (ic_set LocalStorageCache k v d)"
    by (simp add: stores_as_def InMemoryCache_def LocalStorageCache_def ls_set_def filter_update update_stored all_update)
next
  fix c d k assume "stores_as c d"
  then show "stores_as (ic_remove InMemoryCache k c) (ic_remove LocalStorageCache k d)"
    by (simp add: stores_as_def InMemoryCache_def LocalStorageCache_def filter_delete delete_stored all_delete)
next
  fix c d assume "stores_as c d"
  moreover have "ls_allKeys d = map fst (filter (\<lambda>(k, _). prefix CACHE_KEY_PREFIX k) d)"
    by (induction d) (auto simp: ls_allKeys_def obj_keys_def starts_with_def)
  ultimately show "ls_allKeys d = obj_keys c"
    by (simp add: stores_as_def obj_keys_def stored_text_def)
next
  fix c d k assume "stores_as c d" "k \<in> set (obj_keys c)"
  then show "prefix CACHE_KEY_PREFIX k" by (auto simp: stores_as_def obj_keys_def list_all_iff)
next
  fix c d k v assume "stores_as c d" "ic_get InMemoryCache c k = Some v"
  then show "cacheable_wf v" using stores_as_wf by (simp add: InMemoryCache_def)
qed (simp_all add: InMemoryCache_def LocalStorageCache_def empty_entry_def)

section \<open>An entry without an expiry\<close>

text \<open>
  Where the two caches differ: the expiry of an answer without \<open>expires_in\<close> is \<open>NaN\<close>. The memory
  keeps it, and the entry never expires; the storage writes \<open>null\<close>, reads it as 0, and the entry has
  expired by the next read.
\<close>

lemma missing_expiry_kept_in_memory:
  assumes "ce_expires_in e = None"
  shows "wrapCacheEntry now e = Wrapped e None" "cm_get_found m later adj (wrapCacheEntry now e) k c = (Some e, c)"
  using assms by (simp_all add: wrapCacheEntry_def cm_get_found_def Let_def)

lemma missing_expiry_lost_in_storage:
  assumes "ce_expires_in e = None" "pred_option decoded_wf (ce_decodedToken e)"
  shows "ic_get LocalStorageCache (ic_set LocalStorageCache k (wrapCacheEntry now e) c) k = Some (Wrapped e (Some 0))"
    "0 < t \<Longrightarrow> 0 \<le> adj \<Longrightarrow> lapsed (Some 0) adj t"
proof -
  let ?v = "cacheable_to_json (Wrapped e None)"
  have "json_parse (stringify ?v) = Some ?v" using entry_wf_json [OF assms(2)] by (intro json_parse_stringify) simp
  moreover obtain m where m: "entry_to_json e = JObj m" by (simp add: entry_to_json_def)
  then have "cacheable_of_json ?v = Some (Wrapped e (Some 0))"
    using entry_of_to [OF m] by (simp add: cacheable_of_json_def)
  ultimately show "ic_get LocalStorageCache (ic_set LocalStorageCache k (wrapCacheEntry now e) c) k = Some (Wrapped e (Some 0))"
    using assms(1) by (simp add: LocalStorageCache_def ls_get_def ls_set_def wrapCacheEntry_def del: cacheable_to_json.simps stringify.simps)
qed simp

section \<open>Properties\<close>

text \<open>
  C14: Over a cache that lists its keys, any sequence of operations of the manager, with the clock
  read at each, does to the entries of the SDK what the map operations do, one for one: the
  manager refines the map, and a read changes only an entry that has expired.
\<close>

theorem cache_refines_map:
  assumes "listing_cache (cm_cache m) ok keys" and "cm_keyManifest m = None" and "list_all (op_ok ok) ops"
  shows "map_steps ops (sdk_view (cm_cache m) c) (sdk_view (cm_cache m) (fold (run_op m) ops c))"
  by (rule listing_cache.run_ops_refines [OF assms(1) refl assms(2,3)])

definition sample_ops :: "(int \<times> cache_op) list" where
  "sample_ops = [(0, OpSet sample_entry), (9000000, OpGet (Some ''c1'') (Some ''openid read'') (Some ''api'') 0 False None),
     (9000000, OpClear (Some ''c1''))]"

theorem cache_refines_map_witness:
  "map_steps sample_ops (sdk_view InMemoryCache []) (sdk_view InMemoryCache (fold (run_op sample_manager) sample_ops []))"
proof -
  have "cm_cache sample_manager = InMemoryCache" "cm_keyManifest sample_manager = None"
    by (simp_all add: sample_manager_def new_CacheManager_def InMemoryCache_def)
  moreover have "list_all (op_ok (\<lambda>_. True)) sample_ops" by (simp add: sample_ops_def)
  ultimately show ?thesis
    using cache_refines_map [of sample_manager "\<lambda>_. True" obj_keys sample_ops "[]"] mem.listing_cache_axioms by simp
qed

text \<open>
  C17: The cache is well typed: starting from a cache without entries of the SDK, after any sequence
  of operations of the manager with keys of the client's form, what is stored under the key of
  an access token is an entry with its expiry, what is stored under the key of an id token is a
  complete id token with its decoded claims, and no read takes the one for the other.
\<close>

theorem cache_well_typed:
  assumes "listing_cache (cm_cache m) ok keys" and "cm_keyManifest m = None"
    and "list_all (op_ok ok) ops" and "list_all op_typed ops"
    and "\<And>j. ic_get (cm_cache m) c j = None" and "c' = fold (run_op m) ops c"
    and "canonical_key k" and "key_part cid"
  shows "(case ic_get (cm_cache m) c' (toKey k) of None \<Rightarrow> True | Some (Wrapped _ _) \<Rightarrow> True | _ \<Rightarrow> False) \<and>
    (case ic_get (cm_cache m) c' (getIdTokenCacheKey (Some cid)) of None \<Rightarrow> True
     | Some (IdTok i) \<Rightarrow> ide_id_token i \<noteq> None \<and> ide_decodedToken i \<noteq> None | _ \<Rightarrow> False)"
proof -
  have "well_typed (sdk_view (cm_cache m) c)" using assms(5) by (simp add: well_typed_def sdk_view_def)
  with map_steps_typed [OF listing_cache.run_ops_refines [OF assms(1) refl assms(2,3)] assms(4)] assms(6)
  have typed: "well_typed (sdk_view (cm_cache m) c')" by simp
  have fits: "fits_key j v" if "ic_get (cm_cache m) c' j = Some v" "prefix CACHE_KEY_PREFIX j" for j v
    using typed that by (simp add: well_typed_def sdk_view_def)
  have "prefix CACHE_KEY_PREFIX (toKey k)" using assms(7) by (intro toKey_prefix) (simp add: canonical_key_def)
  with fits [of "toKey k"] fits [of "getIdTokenCacheKey (Some cid)"] parts_canonical [OF assms(7)] parts_id_token [OF assms(8)]
  show ?thesis by (fastforce split: option.split cacheable.split)
qed

theorem cache_well_typed_witness:
  "case ic_get InMemoryCache (fold (run_op sample_manager) (take 2 sample_ops) []) (toKey sample_key) of
     None \<Rightarrow> True | Some (Wrapped _ _) \<Rightarrow> True | _ \<Rightarrow> False"
proof -
  have "cm_cache sample_manager = InMemoryCache" "cm_keyManifest sample_manager = None"
    by (simp_all add: sample_manager_def new_CacheManager_def InMemoryCache_def)
  moreover have "canonical_key sample_key" "key_part ''c1''" "list_all op_typed (take 2 sample_ops)" by code_simp+
  moreover have "list_all (op_ok (\<lambda>_. True)) (take 2 sample_ops)" by (simp add: sample_ops_def)
  moreover have "ic_get InMemoryCache [] j = None" for j by (simp add: InMemoryCache_def)
  ultimately show ?thesis
    using cache_well_typed [of sample_manager "\<lambda>_. True" obj_keys "take 2 sample_ops" "[]" _ sample_key "''c1''"]
      mem.listing_cache_axioms by simp
qed



end
