(* ===== verification/Dpop.thy ===== *)
theory Dpop
  imports Errors
begin

text \<open>
  \<open>src/dpop/*.ts\<close>: the nonces and the key pair of DPoP. The database is the two object stores
  of the SDK; every request to it is rejected when \<open>dp_available\<close> is false. The cryptography
  (package \<open>dpop\<close>) and the URL parser are parameters.
\<close>

definition DPOP_NONCE_HEADER :: string where
  "DPOP_NONCE_HEADER = ''dpop-nonce''"

definition SUPPORTED_GRANT_TYPES :: "string list" where
  "SUPPORTED_GRANT_TYPES =
     [''authorization_code'', ''refresh_token'', ''urn:ietf:params:oauth:grant-type:token-exchange'',
      ''urn:okta:params:oauth:grant-type:webauthn'', ''http://auth0.com/oauth/grant-type/mfa-oob'',
      ''http://auth0.com/oauth/grant-type/mfa-otp'', ''http://auth0.com/oauth/grant-type/mfa-recovery-code'']"

definition isGrantTypeSupported :: "string \<Rightarrow> bool" where
  "isGrantTypeSupported grantType = (grantType \<in> set SUPPORTED_GRANT_TYPES)"

section \<open>DpopStorage\<close>

record ('k, 'w) dpop_state =
  dp_available :: bool
  dp_nonces :: "string obj"
  dp_keypairs :: "'k obj"
  dp_world :: 'w

definition AUTH0_NONCE_ID :: string where
  "AUTH0_NONCE_ID = ''auth0''"

definition dp_buildKey :: "string \<Rightarrow> string option \<Rightarrow> string" where
  "dp_buildKey clientId nonceId =
     clientId @ ''::'' @ (if truthy nonceId then ''_'' @ the nonceId else AUTH0_NONCE_ID)"

text \<open>\<open>executeDbRequest\<close>: the request, or the rejection of an unusable database.\<close>

definition db_request ::
  "(('k, 'w) dpop_state, js_error, 'a) act \<Rightarrow> (('k, 'w) dpop_state, js_error, 'a) act" where
  "db_request m s = (if dp_available s then m s else (Inl (Foreign None ''IndexedDB request failed''), s))"

definition dp_setNonce :: "string \<Rightarrow> string \<Rightarrow> string option \<Rightarrow> (('k, 'w) dpop_state, js_error, unit) act" where
  "dp_setNonce clientId nonce nonceId =
     db_request (modify (\<lambda>s. s\<lparr>dp_nonces := AList.update (dp_buildKey clientId nonceId) nonce (dp_nonces s)\<rparr>))"

definition dp_setKeyPair :: "string \<Rightarrow> 'k \<Rightarrow> (('k, 'w) dpop_state, js_error, unit) act" where
  "dp_setKeyPair clientId keyPair =
     db_request (modify (\<lambda>s. s\<lparr>dp_keypairs := AList.update (dp_buildKey clientId None) keyPair (dp_keypairs s)\<rparr>))"

definition dp_findNonce :: "string \<Rightarrow> string option \<Rightarrow> (('k, 'w) dpop_state, js_error, string option) act" where
  "dp_findNonce clientId nonceId = db_request (gets (\<lambda>s. map_of (dp_nonces s) (dp_buildKey clientId nonceId)))"

definition dp_findKeyPair :: "string \<Rightarrow> (('k, 'w) dpop_state, js_error, 'k option) act" where
  "dp_findKeyPair clientId = db_request (gets (\<lambda>s. map_of (dp_keypairs s) (dp_buildKey clientId None)))"

definition dp_deleteBy :: "(string \<Rightarrow> bool) \<Rightarrow> 'v obj \<Rightarrow> 'v obj" where
  "dp_deleteBy predicate store = fold AList.delete (filter predicate (obj_keys store)) store"

definition dp_clearNonces :: "string \<Rightarrow> (('k, 'w) dpop_state, js_error, unit) act" where
  "dp_clearNonces clientId =
     db_request (modify (\<lambda>s. s\<lparr>dp_nonces := dp_deleteBy (\<lambda>k. starts_with k (clientId @ ''::'')) (dp_nonces s)\<rparr>))"

definition dp_clearKeyPairs :: "string \<Rightarrow> (('k, 'w) dpop_state, js_error, unit) act" where
  "dp_clearKeyPairs clientId =
     db_request (modify (\<lambda>s. s\<lparr>dp_keypairs := dp_deleteBy (\<lambda>k. starts_with k (clientId @ ''::'')) (dp_keypairs s)\<rparr>))"

section \<open>Dpop\<close>

record ('k, 'w) dpop_lib =
  dl_generateKeyPair :: "'w \<Rightarrow> 'k \<times> 'w"
  dl_calculateThumbprint :: "'k \<Rightarrow> string"
  dl_generateProof :: "'k \<Rightarrow> string \<Rightarrow> string \<Rightarrow> string option \<Rightarrow> string option \<Rightarrow> 'w \<Rightarrow> string \<times> 'w"

text \<open>\<open>normalizeUrl\<close> is what the platform's parser prints of the URL without query and fragment
  (\<open>strip_url\<close>, \<^const>\<open>None\<close> when it is no URL).\<close>

definition normalizeUrl :: "(string \<Rightarrow> string option) \<Rightarrow> string \<Rightarrow> js_error + string" where
  "normalizeUrl strip_url url = (case strip_url url of
     None \<Rightarrow> Inl (TypeErr ''Invalid URL'') | Some u \<Rightarrow> Inr u)"

definition getOrGenerateKeyPair ::
  "('k, 'w) dpop_lib \<Rightarrow> string \<Rightarrow> (('k, 'w) dpop_state, js_error, 'k) act" where
  "getOrGenerateKeyPair lib clientId =
     andThen (dp_findKeyPair clientId) (\<lambda>found. case found of
       Some keyPair \<Rightarrow> ret keyPair
     | None \<Rightarrow>
         andThen (\<lambda>s. case dl_generateKeyPair lib (dp_world s) of (k, w) \<Rightarrow> (Inr k, s\<lparr>dp_world := w\<rparr>)) (\<lambda>keyPair.
         andNext (dp_setKeyPair clientId keyPair) (ret keyPair)))"

definition dp_generateProof ::
  "('k, 'w) dpop_lib \<Rightarrow> (string \<Rightarrow> string option) \<Rightarrow> string \<Rightarrow> string \<Rightarrow> string \<Rightarrow> string option \<Rightarrow> string option
     \<Rightarrow> (('k, 'w) dpop_state, js_error, string) act" where
  "dp_generateProof lib strip_url clientId url method nonce accessToken =
     andThen (getOrGenerateKeyPair lib clientId) (\<lambda>keyPair. case normalizeUrl strip_url url of
       Inl e \<Rightarrow> throw e
     | Inr normalizedUrl \<Rightarrow> (\<lambda>s.
         case dl_generateProof lib keyPair normalizedUrl method nonce accessToken (dp_world s) of
           (dpopProof, w) \<Rightarrow> (Inr dpopProof, s\<lparr>dp_world := w\<rparr>)))"

definition dp_calculateThumbprint ::
  "('k, 'w) dpop_lib \<Rightarrow> string \<Rightarrow> (('k, 'w) dpop_state, js_error, string) act" where
  "dp_calculateThumbprint lib clientId =
     andThen (getOrGenerateKeyPair lib clientId) (\<lambda>keyPair. ret (dl_calculateThumbprint lib keyPair))"

text \<open>\<open>Promise.all\<close> starts both; each fails only when the database does.\<close>

definition dp_clear :: "string \<Rightarrow> (('k, 'w) dpop_state, js_error, unit) act" where
  "dp_clear clientId = andNext (dp_clearNonces clientId) (dp_clearKeyPairs clientId)"

section \<open>Lemmas\<close>

lemma db_request_effect [effect_intro]: "preorder_rel R \<Longrightarrow> effect R m \<Longrightarrow> effect R (db_request m)"
  by (simp add: effect_def db_request_def preorder_rel_def)

lemma map_of_deleteBy: "map_of (dp_deleteBy p store) j = (if p j then None else map_of store j)"
proof -
  have fold: "map_of (fold AList.delete ks m) j = (if j \<in> set ks then None else map_of m j)" for ks and m :: "'v obj"
    by (induction ks arbitrary: m) auto
  show ?thesis
    by (cases "map_of store j") (auto simp: dp_deleteBy_def fold set_obj_keys)
qed

lemma dp_buildKey_eq:
  "dp_buildKey c i = dp_buildKey c j \<longleftrightarrow> (i = j \<or> (\<not> truthy i \<and> \<not> truthy j))"
  by (cases i; cases j) (auto simp: dp_buildKey_def AUTH0_NONCE_ID_def)

lemma starts_with_append [simp]: "starts_with (a @ b) a"
  by (simp add: starts_with_def)

lemma buildKey_own: "starts_with (dp_buildKey c i) (c @ ''::'')"
  using starts_with_append [of "c @ ''::''"] by (simp add: dp_buildKey_def)

section \<open>Properties\<close>

text \<open>
  a nonce that was set is the one found under the same id; nonces of other ids, and the key
  pair, are untouched: the id given by the application can never name the nonce of Auth0.
\<close>

theorem dpop_nonce_store:
  assumes "dp_available s"
  shows "fst (andNext (dp_setNonce c nonce i) (dp_findNonce c j) s) =
           (if i = j \<or> (\<not> truthy i \<and> \<not> truthy j) then Inr (Some nonce) else fst (dp_findNonce c j s)) \<and>
         dp_keypairs (snd (dp_setNonce c nonce i s)) = dp_keypairs s"
  using assms
  by (auto simp: andNext_def andThen_def dp_setNonce_def dp_findNonce_def db_request_def dp_buildKey_eq)

theorem dpop_nonce_store_witness:
  "fst (andNext (dp_setNonce ''c'' ''n2'' (Some ''auth0'')) (dp_findNonce ''c'' None)
     \<lparr>dp_available = True, dp_nonces = [(''c::auth0'', ''n1'')], dp_keypairs = [] :: unit obj, dp_world = ()\<rparr>)
   = Inr (Some ''n1'')"
  using dpop_nonce_store [of "\<lparr>dp_available = True, dp_nonces = [(''c::auth0'', ''n1'')],
      dp_keypairs = [] :: unit obj, dp_world = ()\<rparr>" "''c''" "''n2''" "Some ''auth0''" None]
  by (simp add: dp_findNonce_def db_request_def dp_buildKey_def AUTH0_NONCE_ID_def)

text \<open>
  the key pair is generated once: after any use of it that succeeded, every later proof or
  thumbprint uses that pair, and the generator is not called again until the pair is cleared.
\<close>

theorem dpop_keypair_stable:
  assumes "getOrGenerateKeyPair lib c s = (Inr k, s')"
  shows "map_of (dp_keypairs s') (dp_buildKey c None) = Some k \<and> getOrGenerateKeyPair lib c s' = (Inr k, s')"
  using assms
  by (auto simp: getOrGenerateKeyPair_def dp_findKeyPair_def dp_setKeyPair_def db_request_def andNext_def
      andThen_def split: if_splits option.splits prod.splits)

theorem dpop_keypair_stable_witness:
  "fst (getOrGenerateKeyPair \<lparr>dl_generateKeyPair = (\<lambda>w. (w, Suc w)), dl_calculateThumbprint = (\<lambda>_. []),
       dl_generateProof = (\<lambda>_ _ _ _ _ w. ([], w))\<rparr> ''c''
     \<lparr>dp_available = True, dp_nonces = [], dp_keypairs = [(''c::auth0'', 7)], dp_world = (8::nat)\<rparr>) = Inr 7"
proof -
  let ?lib = "\<lparr>dl_generateKeyPair = (\<lambda>w. (w, Suc w)), dl_calculateThumbprint = (\<lambda>_. []),
       dl_generateProof = (\<lambda>_ _ _ _ _ w. ([], w))\<rparr> :: (nat, nat) dpop_lib"
  have "getOrGenerateKeyPair ?lib ''c'' \<lparr>dp_available = True, dp_nonces = [], dp_keypairs = [], dp_world = 7\<rparr>
      = (Inr 7, \<lparr>dp_available = True, dp_nonces = [], dp_keypairs = [(''c::auth0'', 7)], dp_world = 8\<rparr>)"
    by (simp add: getOrGenerateKeyPair_def dp_findKeyPair_def dp_setKeyPair_def db_request_def andNext_def
        andThen_def dp_buildKey_def AUTH0_NONCE_ID_def)
  from dpop_keypair_stable [OF this] show ?thesis by simp
qed

text \<open>
  \<open>clear\<close> deletes every nonce and the key pair of the client, and nothing stored under a key
  of another client.
\<close>

theorem dpop_clear_exact:
  assumes "dp_available s"
  shows "fst (dp_clear c s) = Inr () \<and>
     map_of (dp_nonces (snd (dp_clear c s))) j =
       (if starts_with j (c @ ''::'') then None else map_of (dp_nonces s) j) \<and>
     map_of (dp_keypairs (snd (dp_clear c s))) j =
       (if starts_with j (c @ ''::'') then None else map_of (dp_keypairs s) j) \<and>
     map_of (dp_nonces (snd (dp_clear c s))) (dp_buildKey c i) = None"
  using assms
  by (simp add: dp_clear_def dp_clearNonces_def dp_clearKeyPairs_def db_request_def map_of_deleteBy buildKey_own
      andNext_def andThen_def)

theorem dpop_clear_exact_witness:
  "map_of (dp_nonces (snd (dp_clear ''c''
     \<lparr>dp_available = True, dp_nonces = [(''c::auth0'', ''n''), (''d::auth0'', ''m'')], dp_keypairs = [] :: unit obj,
      dp_world = ()\<rparr>))) ''d::auth0'' = Some ''m''"
proof -
  have "\<not> starts_with ''d::auth0'' (''c'' @ ''::'')" by code_simp
  then show ?thesis
    using dpop_clear_exact [of "\<lparr>dp_available = True, dp_nonces = [(''c::auth0'', ''n''), (''d::auth0'', ''m'')],
        dp_keypairs = [] :: unit obj, dp_world = ()\<rparr>" "''c''" "''d::auth0''" None]
    by simp
qed

end
