(* ===== verification/KeyPairs.thy ===== *)
theory KeyPairs
  imports Dpop
begin

text \<open>
  Overlapping uses of the DPoP key pair. \<open>getOrGenerateKeyPair\<close> of \<open>src/dpop/dpop.ts\<close> waits for the
  database, for the generator and for the database again, and nothing keeps another call, of
  this client or of another tab, from running meanwhile.
\<close>

section \<open>Calls in flight\<close>

text \<open>Where a call waits: for the pair it looks for, for a new one, or for its being stored.\<close>

datatype 'k key_phase = Finding | Generating | Storing 'k | is_Given: Given "js_error + 'k"

text \<open>What the call does when the promise it waits for settles.\<close>

fun key_phase_step ::
  "('k, 'w) dpop_lib \<Rightarrow> string \<Rightarrow> 'k key_phase \<Rightarrow> ('k, 'w) dpop_state \<Rightarrow> 'k key_phase \<times> ('k, 'w) dpop_state" where
  "key_phase_step lib clientId Finding s = (case dp_findKeyPair clientId s of
     (Inl e, t) \<Rightarrow> (Given (Inl e), t)
   | (Inr (Some keyPair), t) \<Rightarrow> (Given (Inr keyPair), t)
   | (Inr None, t) \<Rightarrow> (Generating, t))"
| "key_phase_step lib clientId Generating s = (case dl_generateKeyPair lib (dp_world s) of
     (keyPair, w) \<Rightarrow> (Storing keyPair, s\<lparr>dp_world := w\<rparr>))"
| "key_phase_step lib clientId (Storing keyPair) s = (case dp_setKeyPair clientId keyPair s of
     (Inl e, t) \<Rightarrow> (Given (Inl e), t)
   | (Inr _, t) \<Rightarrow> (Given (Inr keyPair), t))"
| "key_phase_step lib clientId (Given r) s = (Given r, s)"

text \<open>A call that is not interrupted is \<open>getOrGenerateKeyPair\<close>.\<close>

fun key_run ::
  "nat \<Rightarrow> ('k, 'w) dpop_lib \<Rightarrow> string \<Rightarrow> 'k key_phase \<times> ('k, 'w) dpop_state \<Rightarrow> 'k key_phase \<times> ('k, 'w) dpop_state" where
  "key_run 0 lib clientId x = x"
| "key_run (Suc n) lib clientId (p, s) = key_run n lib clientId (key_phase_step lib clientId p s)"

lemma key_run_alone:
  "key_run 3 lib clientId (Finding, s) = (case getOrGenerateKeyPair lib clientId s of (r, t) \<Rightarrow> (Given r, t))"
  by (simp add: numeral_3_eq_3 getOrGenerateKeyPair_def dp_findKeyPair_def dp_setKeyPair_def db_request_def andNext_def andThen_def
      split: option.split prod.split)

inductive keys_step ::
  "('k, 'w) dpop_lib \<Rightarrow> string \<Rightarrow> ('k, 'w) dpop_state \<times> 'k key_phase list \<Rightarrow> ('k, 'w) dpop_state \<times> 'k key_phase list \<Rightarrow> bool"
  for lib clientId where
  keys_called: "keys_step lib clientId (s, calls) (s, calls @ [Finding])"
| keys_settled: "i < length calls \<Longrightarrow> key_phase_step lib clientId (calls ! i) s = (p, t) \<Longrightarrow>
    keys_step lib clientId (s, calls) (t, calls[i := p])"

inductive keys_reach ::
  "('k, 'w) dpop_lib \<Rightarrow> string \<Rightarrow> ('k, 'w) dpop_state \<times> 'k key_phase list \<Rightarrow> ('k, 'w) dpop_state \<times> 'k key_phase list \<Rightarrow> bool"
  for lib clientId where
  keys_start: "keys_reach lib clientId x x"
| keys_more: "keys_reach lib clientId x y \<Longrightarrow> keys_step lib clientId y z \<Longrightarrow> keys_reach lib clientId x z"

section \<open>Invariants\<close>

definition stored_pair :: "string \<Rightarrow> ('k, 'w) dpop_state \<Rightarrow> 'k option" where
  "stored_pair clientId s = map_of (dp_keypairs s) (dp_buildKey clientId None)"

text \<open>A call that was given a pair was given one that is, or once was, stored.\<close>

fun phase_ok :: "'k option \<Rightarrow> 'k key_phase \<Rightarrow> bool" where
  "phase_ok stored (Given (Inr k)) = (stored \<noteq> None)"
| "phase_ok stored _ = True"

lemma phase_step_stored:
  assumes "key_phase_step lib clientId p s = (q, t)"
  shows "stored_pair clientId s \<noteq> None \<Longrightarrow> stored_pair clientId t \<noteq> None"
    and "phase_ok (stored_pair clientId s) p \<Longrightarrow> phase_ok (stored_pair clientId t) q"
  using assms
  by (cases p; auto simp: stored_pair_def dp_findKeyPair_def dp_setKeyPair_def db_request_def split: prod.splits option.splits if_splits)+

lemma phase_ok_mono: "phase_ok u p \<Longrightarrow> (u \<noteq> None \<Longrightarrow> v \<noteq> None) \<Longrightarrow> phase_ok v p"
  by (cases "(u, p)" rule: phase_ok.cases) auto

lemma keys_step_ok:
  "keys_step lib clientId x y \<Longrightarrow> list_all (phase_ok (stored_pair clientId (fst x))) (snd x) \<Longrightarrow>
     list_all (phase_ok (stored_pair clientId (fst y))) (snd y)"
proof (induction rule: keys_step.induct)
  case (keys_settled i calls s p t)
  have "phase_ok (stored_pair clientId t) p"
    using phase_step_stored(2) [OF keys_settled.hyps(2)] keys_settled by (simp add: list_all_length)
  moreover have "list_all (phase_ok (stored_pair clientId t)) calls"
    using keys_settled.prems phase_step_stored(1) [OF keys_settled.hyps(2)] by (auto simp: list_all_iff intro: phase_ok_mono)
  ultimately show ?case
    by (auto simp: list_all_iff dest!: set_update_subset_insert [THEN subsetD])
qed simp

lemma keys_reach_ok:
  "keys_reach lib clientId x y \<Longrightarrow> snd x = [] \<Longrightarrow> list_all (phase_ok (stored_pair clientId (fst y))) (snd y)"
  by (induction rule: keys_reach.induct) (auto intro: keys_step_ok)

text \<open>Once a pair is stored and no call holds another one, it stays, and every call gets it.\<close>

fun agrees :: "'k \<Rightarrow> 'k key_phase \<Rightarrow> bool" where
  "agrees k Finding = True"
| "agrees k (Given (Inl e)) = True"
| "agrees k (Given (Inr k')) = (k' = k)"
| "agrees k _ = False"

definition calm :: "string \<Rightarrow> 'k \<Rightarrow> nat \<Rightarrow> ('k, 'w) dpop_state \<times> 'k key_phase list \<Rightarrow> bool" where
  "calm clientId k n x \<longleftrightarrow> stored_pair clientId (fst x) = Some k \<and> n \<le> length (snd x) \<and>
     list_all is_Given (take n (snd x)) \<and> list_all (agrees k) (drop n (snd x))"

lemma keys_step_calm:
  "keys_step lib clientId x y \<Longrightarrow> calm clientId k n x \<Longrightarrow> fst y = fst x \<and> calm clientId k n y"
proof (induction rule: keys_step.induct)
  case (keys_settled i calls s p t)
  have "t = s \<and> (if i < n then is_Given p else agrees k p)"
  proof (cases "i < n")
    case True
    with keys_settled.prems have "is_Given (calls ! i)" by (auto simp: calm_def list_all_length)
    with keys_settled.hyps(2) True show ?thesis by (cases "calls ! i") auto
  next
    case False
    have "agrees k (calls ! (n + j))" if "j < length calls - n" for j
      using keys_settled.prems that by (auto simp: calm_def list_all_length)
    from this [of "i - n"] False keys_settled have "agrees k (calls ! i)" "stored_pair clientId s = Some k"
      by (auto simp: calm_def)
    with keys_settled.hyps(2) False show ?thesis
      by (cases "calls ! i") (auto simp: stored_pair_def dp_findKeyPair_def db_request_def split: if_splits)
  qed
  with keys_settled show ?case
    by (auto simp: calm_def list_all_length nth_list_update)
qed (auto simp: calm_def)

lemma keys_reach_calm:
  "keys_reach lib clientId x y \<Longrightarrow> calm clientId k n x \<Longrightarrow> fst y = fst x \<and> calm clientId k n y"
  by (induction rule: keys_reach.induct) (auto dest: keys_step_calm)

section \<open>The race\<close>

text \<open>
  Two calls that both look before either has stored its pair generate two, and each goes on with
  its own; the database keeps the later one.
\<close>

lemma keypair_race:
  assumes "dp_available s" and "stored_pair clientId s = None"
    and "dl_generateKeyPair lib (dp_world s) = (k1, w1)" and "dl_generateKeyPair lib w1 = (k2, w2)"
  shows "\<exists>t. keys_reach lib clientId (s, []) (t, [Given (Inr k1), Given (Inr k2)]) \<and>
     stored_pair clientId t = Some k2 \<and> dp_available t"
proof -
  let ?s1 = "s\<lparr>dp_world := w1\<rparr>" and ?s2 = "s\<lparr>dp_world := w2\<rparr>"
  let ?s3 = "snd (dp_setKeyPair clientId k1 ?s2)"
  let ?s4 = "snd (dp_setKeyPair clientId k2 ?s3)"
  note defs = dp_setKeyPair_def dp_findKeyPair_def db_request_def stored_pair_def
  have find: "key_phase_step lib clientId Finding s = (Generating, s)"
    using assms(1,2) by (simp add: defs)
  have start: "keys_reach lib clientId (s, []) (s, [Finding, Finding])"
    using keys_more [OF keys_more [OF keys_start keys_called [of lib clientId s "[]"]] keys_called] by simp
  have both: "keys_reach lib clientId (s, []) (s, [Generating, Generating])"
    using keys_more [OF keys_more [OF start keys_settled [of 0 _ _ _ _ Generating s]] keys_settled [of 1 _ _ _ _ Generating s]] find by simp
  have "key_phase_step lib clientId Generating s = (Storing k1, ?s1)" "key_phase_step lib clientId Generating ?s1 = (Storing k2, ?s2)"
    using assms(3,4) by simp_all
  then have made: "keys_reach lib clientId (s, []) (?s2, [Storing k1, Storing k2])"
    using keys_more [OF keys_more [OF both keys_settled [of 0 _ _ _ _ "Storing k1" ?s1]] keys_settled [of 1 _ _ _ _ "Storing k2" ?s2]] by simp
  have "key_phase_step lib clientId (Storing k1) ?s2 = (Given (Inr k1), ?s3)"
      "key_phase_step lib clientId (Storing k2) ?s3 = (Given (Inr k2), ?s4)"
    using assms(1) by (simp_all add: defs)
  then have "keys_reach lib clientId (s, []) (?s4, [Given (Inr k1), Given (Inr k2)])"
    using keys_more [OF keys_more [OF made keys_settled [of 0 _ _ _ _ "Given (Inr k1)" ?s3]] keys_settled [of 1 _ _ _ _ "Given (Inr k2)" ?s4]] by simp
  moreover have "stored_pair clientId ?s4 = Some k2" "dp_available ?s4" using assms(1) by (simp_all add: defs)
  ultimately show ?thesis by blast
qed

section \<open>Properties\<close>

text \<open>
  C35: However the uses of the DPoP key pair overlap, the client settles on one: when the calls in
  flight are done and one of them was given a pair, a pair is stored, every later call is given
  that pair, and no other one is generated.
\<close>

theorem keypair_settles:
  assumes "keys_reach lib clientId (s0, []) (s, calls)" and "list_all is_Given calls" and "Given (Inr k0) \<in> set calls"
    and "keys_reach lib clientId (s, calls) (t, calls')"
  shows "\<exists>k. stored_pair clientId s = Some k \<and> t = s \<and> list_all (agrees k) (drop (length calls) calls')"
proof -
  from keys_reach_ok [OF assms(1)] assms(3) obtain k where "stored_pair clientId s = Some k"
    by (force simp: list_all_iff)
  with assms(2) have "calm clientId k (length calls) (s, calls)" by (simp add: calm_def)
  with keys_reach_calm [OF assms(4), of k "length calls"] show ?thesis by (auto simp: calm_def)
qed

definition counting_lib :: "(nat, nat) dpop_lib" where
  "counting_lib = \<lparr>dl_generateKeyPair = (\<lambda>w. (w, Suc w)), dl_calculateThumbprint = (\<lambda>_. []), dl_generateProof = (\<lambda>_ _ _ _ _ w. ([], w))\<rparr>"

definition empty_db :: "(nat, nat) dpop_state" where
  "empty_db = \<lparr>dp_available = True, dp_nonces = [], dp_keypairs = [], dp_world = 7\<rparr>"

theorem keypair_settles_witness:
  "\<exists>s. keys_reach counting_lib ''c'' (empty_db, []) (s, [Given (Inr 7), Given (Inr 8)]) \<and>
     keys_reach counting_lib ''c'' (s, [Given (Inr 7), Given (Inr 8)]) (s, [Given (Inr 7), Given (Inr 8), Given (Inr 8)])"
proof -
  obtain s where s: "keys_reach counting_lib ''c'' (empty_db, []) (s, [Given (Inr 7), Given (Inr 8)])" "stored_pair ''c'' s = Some 8" "dp_available s"
    using keypair_race [of empty_db "''c''" counting_lib 7 8 8 9] by (auto simp: empty_db_def counting_lib_def stored_pair_def)
  obtain p t where p: "key_phase_step counting_lib ''c'' Finding s = (p, t)" by force
  have called: "keys_reach counting_lib ''c'' (s, [Given (Inr 7), Given (Inr 8)]) (s, [Given (Inr 7), Given (Inr 8), Finding])"
    using keys_more [OF keys_start keys_called [of counting_lib "''c''" s "[Given (Inr 7), Given (Inr 8)]"]] by simp
  from keys_more [OF this keys_settled [of 2 _ _ _ _ p t]] p have found:
    "keys_reach counting_lib ''c'' (s, [Given (Inr 7), Given (Inr 8)]) (t, [Given (Inr 7), Given (Inr 8), p])"
    by (simp add: numeral_2_eq_2)
  from keypair_settles [OF s(1) _ _ this, of 7] s(2) have "t = s" "agrees 8 p" by auto
  moreover have "\<exists>k. p = Given (Inr k)"
    using p s(2,3) by (auto simp: dp_findKeyPair_def db_request_def stored_pair_def)
  ultimately have "p = Given (Inr 8)" by auto
  with found s(1) \<open>t = s\<close> show ?thesis by auto
qed

end
