(* ===== verification/Promise.thy ===== *)
theory Promise
  imports Js_Prelude
begin

text \<open>
  \<open>src/promise-utils.ts\<close>: sharing one call in flight per key, and retrying. A promise is a
  number. \<open>sp_running\<close> holds the promises whose callback has not settled, \<open>sp_open\<close> those
  whose \<open>finally\<close> handler has not run yet (between the two, a caller still joins).
\<close>

section \<open>singlePromise\<close>

record sp_state =
  sp_map :: "nat obj"
  sp_next :: nat
  sp_running :: "(nat \<times> string) list"
  sp_open :: "(nat \<times> string) list"

definition sp_init :: sp_state where
  "sp_init = \<lparr>sp_map = [], sp_next = 0, sp_running = [], sp_open = []\<rparr>"

text \<open>A call: the promise under the key, or a new one whose callback is started.\<close>

definition singlePromise :: "string \<Rightarrow> sp_state \<Rightarrow> nat \<times> sp_state" where
  "singlePromise key st = (case map_of (sp_map st) key of
     Some promise \<Rightarrow> (promise, st)
   | None \<Rightarrow>
       (let promise = sp_next st
        in (promise, st\<lparr>sp_map := AList.update key promise (sp_map st), sp_next := Suc promise,
              sp_running := sp_running st @ [(promise, key)],
              sp_open := sp_open st @ [(promise, key)]\<rparr>)))"

text \<open>The callback of \<open>promise\<close> settles, whatever its outcome.\<close>

definition sp_settle :: "nat \<Rightarrow> string \<Rightarrow> sp_state \<Rightarrow> sp_state" where
  "sp_settle promise key st = st\<lparr>sp_running := filter (\<lambda>p. p \<noteq> (promise, key)) (sp_running st)\<rparr>"

text \<open>Its \<open>finally\<close> handler runs.\<close>

definition sp_finally :: "nat \<Rightarrow> string \<Rightarrow> sp_state \<Rightarrow> sp_state" where
  "sp_finally promise key st =
     st\<lparr>sp_map := AList.delete key (sp_map st),
        sp_open := filter (\<lambda>p. p \<noteq> (promise, key)) (sp_open st)\<rparr>"

inductive sp_step :: "sp_state \<Rightarrow> sp_state \<Rightarrow> bool" where
  sp_call: "sp_step st (snd (singlePromise key st))"
| sp_settles: "(promise, key) \<in> set (sp_running st) \<Longrightarrow> sp_step st (sp_settle promise key st)"
| sp_finalises: "(promise, key) \<in> set (sp_open st) \<Longrightarrow> (promise, key) \<notin> set (sp_running st) \<Longrightarrow>
    sp_step st (sp_finally promise key st)"

inductive_cases sp_stepE: "sp_step st st'"

inductive sp_reach :: "sp_state \<Rightarrow> bool" where
  sp_start: "sp_reach sp_init"
| sp_more: "sp_reach st \<Longrightarrow> sp_step st st' \<Longrightarrow> sp_reach st'"

definition sp_inv :: "sp_state \<Rightarrow> bool" where
  "sp_inv st \<longleftrightarrow>
     set (sp_running st) \<subseteq> set (sp_open st) \<and>
     (\<forall>p k. (p, k) \<in> set (sp_open st) \<longleftrightarrow> map_of (sp_map st) k = Some p) \<and>
     distinct (sp_running st)"

lemma sp_inv_call:
  assumes "sp_inv st"
  shows "sp_inv (snd (singlePromise key st))"
proof (cases "map_of (sp_map st) key")
  case None
  with assms have "\<And>p. (p, key) \<notin> set (sp_open st)" "\<And>p. (p, key) \<notin> set (sp_running st)"
    by (auto simp: sp_inv_def)
  with assms None show ?thesis
    by (auto simp: sp_inv_def singlePromise_def Let_def)
qed (use assms in \<open>simp add: singlePromise_def\<close>)

lemma sp_inv_step: "sp_step st st' \<Longrightarrow> sp_inv st \<Longrightarrow> sp_inv st'"
proof (induction rule: sp_step.induct)
  case (sp_call st key)
  then show ?case by (simp add: sp_inv_call)
next
  case (sp_settles promise key st)
  then show ?case by (auto simp: sp_inv_def sp_settle_def)
next
  case (sp_finalises promise key st)
  then have "map_of (sp_map st) key = Some promise" by (simp add: sp_inv_def)
  with sp_finalises show ?case by (auto simp: sp_inv_def sp_finally_def)
qed

lemma sp_reach_inv: "sp_reach st \<Longrightarrow> sp_inv st"
proof (induction rule: sp_reach.induct)
  case sp_start
  show ?case by (simp add: sp_inv_def sp_init_def)
next
  case (sp_more st st')
  then show ?case using sp_inv_step by blast
qed

text \<open>
  C18: whatever calls, settlements and clean-ups have happened, at most one callback is running
  for a key, and a new call made while it runs joins it: it starts no callback and returns that
  promise.
\<close>

theorem singlePromise_shares:
  assumes "sp_reach st" and "(promise, key) \<in> set (sp_running st)"
  shows "length (filter (\<lambda>p. snd p = key) (sp_running st)) = 1 \<and> singlePromise key st = (promise, st)"
proof -
  have inv: "sp_inv st" using assms(1) by (rule sp_reach_inv)
  with assms(2) have key: "map_of (sp_map st) key = Some promise"
    by (auto simp: sp_inv_def)
  have "set (filter (\<lambda>p. snd p = key) (sp_running st)) = {(promise, key)}"
    using inv assms(2) key by (auto simp: sp_inv_def)
  moreover have "distinct (filter (\<lambda>p. snd p = key) (sp_running st))"
    using inv by (simp add: sp_inv_def)
  ultimately have "length (filter (\<lambda>p. snd p = key) (sp_running st)) = card {(promise, key)}"
    by (metis distinct_card)
  with key show ?thesis by (simp add: singlePromise_def)
qed

theorem singlePromise_shares_witness:
  "singlePromise ''k'' (snd (singlePromise ''k'' sp_init)) = (0, snd (singlePromise ''k'' sp_init))"
proof -
  have "sp_reach (snd (singlePromise ''k'' sp_init))"
    by (intro sp_more [OF sp_start] sp_call)
  moreover have "(0, ''k'') \<in> set (sp_running (snd (singlePromise ''k'' sp_init)))"
    by (simp add: singlePromise_def sp_init_def)
  ultimately show ?thesis
    using singlePromise_shares [of "snd (singlePromise ''k'' sp_init)" 0 "''k''"] by blast
qed

text \<open>Once the handler has run the key is free again: the next call starts a new callback.\<close>

lemma singlePromise_starts:
  "map_of (sp_map st) key = None \<Longrightarrow>
     fst (singlePromise key st) = sp_next st \<and> (sp_next st, key) \<in> set (sp_running (snd (singlePromise key st)))"
  by (simp add: singlePromise_def Let_def)

text \<open>A run: the states one after another, some of them unchanged. In a fair one every callback that
  runs settles at some time, and the handler of every promise that has settled runs.\<close>

definition sp_run :: "(nat \<Rightarrow> sp_state) \<Rightarrow> bool" where
  "sp_run f \<longleftrightarrow> f 0 = sp_init \<and> (\<forall>i. f (Suc i) = f i \<or> sp_step (f i) (f (Suc i)))"

definition sp_fair :: "(nat \<Rightarrow> sp_state) \<Rightarrow> bool" where
  "sp_fair f \<longleftrightarrow>
     (\<forall>i q. q \<in> set (sp_running (f i)) \<longrightarrow> (\<exists>j \<ge> i. q \<notin> set (sp_running (f j)))) \<and>
     (\<forall>i q. q \<in> set (sp_open (f i)) \<longrightarrow> q \<notin> set (sp_running (f i)) \<longrightarrow> (\<exists>j \<ge> i. q \<notin> set (sp_open (f j))))"

lemma sp_run_reach: "sp_run f \<Longrightarrow> sp_reach (f i)"
proof (induction i)
  case 0
  then show ?case by (simp add: sp_run_def sp_start)
next
  case (Suc i)
  then have "f (Suc i) = f i \<or> sp_step (f i) (f (Suc i))" by (simp add: sp_run_def)
  with Suc show ?case using sp_more by metis
qed

text \<open>Only its handler takes a promise off the open ones, and it frees the key.\<close>

lemma sp_step_closes:
  "sp_step st st' \<Longrightarrow> (p, key) \<in> set (sp_open st) \<Longrightarrow> (p, key) \<notin> set (sp_open st') \<Longrightarrow> map_of (sp_map st') key = None"
  by (induction rule: sp_step.induct)
    (auto simp: singlePromise_def sp_settle_def sp_finally_def Let_def split: option.splits)

text \<open>The first time that the promise is no longer open.\<close>

lemma sp_frees:
  assumes run: "sp_run f" and fair: "sp_fair f" and o: "(p, key) \<in> set (sp_open (f i))"
  shows "\<exists>j > i. map_of (sp_map (f j)) key = None \<and> (\<forall>k. i \<le> k \<and> k < j \<longrightarrow> (p, key) \<in> set (sp_open (f k)))"
proof -
  have "\<exists>j \<ge> i. (p, key) \<notin> set (sp_open (f j))"
  proof (rule ccontr)
    assume n: "\<not> (\<exists>j \<ge> i. (p, key) \<notin> set (sp_open (f j)))"
    obtain j where "i \<le> j" "(p, key) \<notin> set (sp_running (f j))"
      using fair [unfolded sp_fair_def] by (cases "(p, key) \<in> set (sp_running (f i))") blast+
    moreover from this n fair [unfolded sp_fair_def] obtain k where "j \<le> k" "(p, key) \<notin> set (sp_open (f k))" by blast
    ultimately show False using n order_trans by blast
  qed
  then obtain j where j: "i \<le> j" "(p, key) \<notin> set (sp_open (f j))"
    and least: "\<And>k. i \<le> k \<Longrightarrow> k < j \<Longrightarrow> (p, key) \<in> set (sp_open (f k))"
    using exists_least_iff [of "\<lambda>j. i \<le> j \<and> (p, key) \<notin> set (sp_open (f j))"] by auto
  with o have "i < j" by (cases "i = j") auto
  then obtain k where k: "j = Suc k" "i \<le> k" by (cases j) auto
  with least have before: "(p, key) \<in> set (sp_open (f k))" by simp
  with j(2) k(1) run have "sp_step (f k) (f j)" unfolding sp_run_def by metis
  from sp_step_closes [OF this before j(2)] least \<open>i < j\<close> show ?thesis by blast
qed

text \<open>
  C19: In every fair run no key is stuck: at every time, a promise under the key is joined by all calls
  until a later time at which the key is free, and the call after that starts a callback of its own.
\<close>

theorem singlePromise_progress:
  assumes "sp_run f" and "sp_fair f"
  shows "\<exists>j \<ge> i. fst (singlePromise key (f j)) = sp_next (f j) \<and>
     (sp_next (f j), key) \<in> set (sp_running (snd (singlePromise key (f j)))) \<and>
     (\<forall>p k. map_of (sp_map (f i)) key = Some p \<longrightarrow> i \<le> k \<longrightarrow> k < j \<longrightarrow> singlePromise key (f k) = (p, f k))"
proof (cases "map_of (sp_map (f i)) key")
  case None
  from singlePromise_starts [OF this] None show ?thesis by (intro exI [of _ i]) simp
next
  case (Some p)
  have inv: "sp_inv (f k)" for k using sp_run_reach [OF assms(1)] by (rule sp_reach_inv)
  from inv [of i] Some have "(p, key) \<in> set (sp_open (f i))" by (simp add: sp_inv_def)
  from sp_frees [OF assms this] obtain j where j: "i < j" "map_of (sp_map (f j)) key = None"
    and o: "\<forall>k. i \<le> k \<and> k < j \<longrightarrow> (p, key) \<in> set (sp_open (f k))" by blast
  have "singlePromise key (f k) = (p, f k)" if "i \<le> k" "k < j" for k
  proof -
    from o that have "(p, key) \<in> set (sp_open (f k))" by blast
    with inv [of k] have "map_of (sp_map (f k)) key = Some p" by (simp add: sp_inv_def)
    then show ?thesis by (simp add: singlePromise_def)
  qed
  with j singlePromise_starts [OF j(2)] Some show ?thesis by (intro exI [of _ j]) auto
qed

text \<open>A call, its settlement, its handler, and nothing more.\<close>

definition sample_run :: "nat \<Rightarrow> sp_state" where
  "sample_run i =
     (let s = snd (singlePromise ''k'' sp_init)
      in if i = 0 then sp_init else if i = 1 then s else if i = 2 then sp_settle 0 ''k'' s
         else sp_finally 0 ''k'' (sp_settle 0 ''k'' s))"

lemma sample_run_steps: "sp_run sample_run"
  unfolding sp_run_def
proof (intro conjI allI)
  let ?s = "snd (singlePromise ''k'' sp_init)"
  fix i :: nat
  consider "i = 0" | "i = 1" | "i = 2" | "2 < i" by linarith
  then show "sample_run (Suc i) = sample_run i \<or> sp_step (sample_run i) (sample_run (Suc i))"
  proof cases
    case 1
    then show ?thesis using sp_call [of sp_init "''k''"] by (simp add: sample_run_def Let_def)
  next
    case 2
    have "sp_step ?s (sp_settle 0 ''k'' ?s)" by (rule sp_settles) (simp add: singlePromise_def sp_init_def)
    with 2 show ?thesis by (simp add: sample_run_def Let_def)
  next
    case 3
    have "sp_step (sp_settle 0 ''k'' ?s) (sp_finally 0 ''k'' (sp_settle 0 ''k'' ?s))"
      by (rule sp_finalises) (simp_all add: singlePromise_def sp_init_def sp_settle_def)
    with 3 show ?thesis by (simp add: sample_run_def Let_def)
  qed (simp add: sample_run_def Let_def)
qed (simp add: sample_run_def)

lemma sample_run_fair: "sp_fair sample_run"
proof -
  have "sp_running (sample_run i) = []" "sp_open (sample_run i) = []" if "3 \<le> i" for i
    using that by (simp_all add: sample_run_def singlePromise_def sp_init_def sp_settle_def sp_finally_def)
  then have "\<exists>j \<ge> i. sp_running (sample_run j) = [] \<and> sp_open (sample_run j) = []" for i
    by (intro exI [of _ "i + 3"]) simp
  then show ?thesis unfolding sp_fair_def by (metis empty_iff list.set(1))
qed

theorem singlePromise_progress_witness:
  "\<exists>j \<ge> 1. fst (singlePromise ''k'' (sample_run j)) = sp_next (sample_run j)"
  using singlePromise_progress [OF sample_run_steps sample_run_fair, of 1 "''k''"] by blast

section \<open>retryPromise\<close>

fun retryPromise :: "('s, 'e, bool) act \<Rightarrow> nat \<Rightarrow> ('s, 'e, bool) act" where
  "retryPromise cb 0 = ret False"
| "retryPromise cb (Suc n) = andThen cb (\<lambda>ok. if ok then ret True else retryPromise cb n)"

text \<open>It is \<open>true\<close> exactly when some attempt was, and no attempt follows the first success.\<close>

lemma retryPromise_False:
  "retryPromise cb n s = (Inr False, t) \<Longrightarrow>
     \<exists>f. f 0 = s \<and> f n = t \<and> (\<forall>i < n. cb (f i) = (Inr False, f (Suc i)))"
proof (induction n arbitrary: s)
  case 0
  then show ?case by (intro exI [of _ "\<lambda>_. s"]) simp
next
  case (Suc n)
  then obtain u where u: "cb s = (Inr False, u)" "retryPromise cb n u = (Inr False, t)"
    by (auto simp: andThen_Inr_iff split: if_splits)
  from Suc.IH [OF u(2)] obtain f where
    f: "f 0 = u" "f n = t" "\<forall>i < n. cb (f i) = (Inr False, f (Suc i))" by blast
  show ?case
    using u(1) f by (intro exI [of _ "case_nat s f"]) (auto split: nat.splits)
qed

end
