(* ===== verification/Storage.thy ===== *)
theory Storage
  imports Cache
begin

text \<open>
  \<open>src/storage.ts\<close> and \<open>src/transaction-manager.ts\<close>: the storages that keep JSON values in
  cookies or in the session storage, and the transaction kept between the redirect and its
  callback. The cookie library (\<open>es-cookie\<close>) is third-party: a record of its three functions,
  with its documented laws in the locale \<open>cookie_laws\<close>. The contract of the interface
  \<open>ClientStorage\<close> is the locale \<open>storage_laws\<close>, which all three storages satisfy.
\<close>

section \<open>The cookie library\<close>

record cookie_attributes =
  ca_secure :: bool
  ca_sameSite :: "string option"
  ca_expires :: "int option"
  ca_domain :: "string option"

definition no_attributes :: cookie_attributes where
  "no_attributes = \<lparr>ca_secure = False, ca_sameSite = None, ca_expires = None, ca_domain = None\<rparr>"

record 'w cookie_lib =
  Cookies_get :: "'w \<Rightarrow> string \<Rightarrow> string option"
  Cookies_set :: "string \<Rightarrow> string \<Rightarrow> cookie_attributes \<Rightarrow> 'w \<Rightarrow> 'w"
  Cookies_remove :: "string \<Rightarrow> cookie_attributes \<Rightarrow> 'w \<Rightarrow> 'w"

text \<open>What the browser keeps: the cookies (\<open>'w\<close>) and the session storage.\<close>

record 'w web_state =
  ws_cookies :: 'w
  ws_session :: "string obj"

section \<open>The interface ClientStorage\<close>

record storage_options =
  so_daysUntilExpire :: "int option"
  so_cookieDomain :: "string option"

record 'w client_storage =
  cs_get :: "string \<Rightarrow> 'w web_state \<Rightarrow> js_error + json option"
  cs_save :: "string \<Rightarrow> json \<Rightarrow> storage_options \<Rightarrow> 'w web_state \<Rightarrow> 'w web_state"
  cs_remove :: "string \<Rightarrow> storage_options \<Rightarrow> 'w web_state \<Rightarrow> 'w web_state"

definition parse_stored :: "string option \<Rightarrow> js_error + json option" where
  "parse_stored value = (case value of None \<Rightarrow> Inr None
     | Some t \<Rightarrow> (case json_parse t of Some v \<Rightarrow> Inr (Some v)
                 | None \<Rightarrow> Inl (Foreign None ''JSON.parse: unexpected token'')))"

section \<open>CookieStorage\<close>

text \<open>\<open>https\<close> is the test \<open>'https:' === window.location.protocol\<close>; a number of days or a domain
  that is falsy sets no attribute.\<close>

definition with_options :: "storage_options \<Rightarrow> cookie_attributes \<Rightarrow> cookie_attributes" where
  "with_options options attrs =
     attrs\<lparr>ca_expires := (case so_daysUntilExpire options of Some d \<Rightarrow> if d \<noteq> 0 then Some d else None | None \<Rightarrow> None),
           ca_domain := (if truthy (so_cookieDomain options) then so_cookieDomain options else None)\<rparr>"

definition domain_only :: "storage_options \<Rightarrow> cookie_attributes" where
  "domain_only options =
     no_attributes\<lparr>ca_domain := (if truthy (so_cookieDomain options) then so_cookieDomain options else None)\<rparr>"

definition cookie_get :: "'w cookie_lib \<Rightarrow> string \<Rightarrow> 'w web_state \<Rightarrow> js_error + json option" where
  "cookie_get lib key s = parse_stored (Cookies_get lib (ws_cookies s) key)"

definition cookie_save ::
  "'w cookie_lib \<Rightarrow> bool \<Rightarrow> string \<Rightarrow> json \<Rightarrow> storage_options \<Rightarrow> 'w web_state \<Rightarrow> 'w web_state" where
  "cookie_save lib https key value options s =
     (let attrs = (if https then no_attributes\<lparr>ca_secure := True, ca_sameSite := Some ''none''\<rparr>
                   else no_attributes)
      in s\<lparr>ws_cookies := Cookies_set lib key (stringify value) (with_options options attrs) (ws_cookies s)\<rparr>)"

definition cookie_remove :: "'w cookie_lib \<Rightarrow> string \<Rightarrow> storage_options \<Rightarrow> 'w web_state \<Rightarrow> 'w web_state" where
  "cookie_remove lib key options s =
     s\<lparr>ws_cookies := Cookies_remove lib key (domain_only options) (ws_cookies s)\<rparr>"

definition CookieStorage :: "'w cookie_lib \<Rightarrow> bool \<Rightarrow> 'w client_storage" where
  "CookieStorage lib https =
     \<lparr>cs_get = cookie_get lib, cs_save = cookie_save lib https, cs_remove = cookie_remove lib\<rparr>"

section \<open>CookieStorageWithLegacySameSite\<close>

definition LEGACY_PREFIX :: string where
  "LEGACY_PREFIX = ''_legacy_''"

definition legacy_get :: "'w cookie_lib \<Rightarrow> string \<Rightarrow> 'w web_state \<Rightarrow> js_error + json option" where
  "legacy_get lib key s =
     (case cookie_get lib key s of
        Inl e \<Rightarrow> Inl e
      | Inr value \<Rightarrow> if json_truthy value then Inr value
                     else cookie_get lib (LEGACY_PREFIX @ key) s)"

definition legacy_save ::
  "'w cookie_lib \<Rightarrow> bool \<Rightarrow> string \<Rightarrow> json \<Rightarrow> storage_options \<Rightarrow> 'w web_state \<Rightarrow> 'w web_state" where
  "legacy_save lib https key value options s =
     (let attrs = (if https then no_attributes\<lparr>ca_secure := True\<rparr> else no_attributes);
          s1 = s\<lparr>ws_cookies := Cookies_set lib (LEGACY_PREFIX @ key) (stringify value)
                  (with_options options attrs) (ws_cookies s)\<rparr>
      in cookie_save lib https key value options s1)"

definition legacy_remove :: "'w cookie_lib \<Rightarrow> string \<Rightarrow> storage_options \<Rightarrow> 'w web_state \<Rightarrow> 'w web_state" where
  "legacy_remove lib key options s =
     (let s1 = s\<lparr>ws_cookies := Cookies_remove lib key (domain_only options) (ws_cookies s)\<rparr>;
          s2 = cookie_remove lib key options s1
      in cookie_remove lib (LEGACY_PREFIX @ key) options s2)"

definition CookieStorageWithLegacySameSite :: "'w cookie_lib \<Rightarrow> bool \<Rightarrow> 'w client_storage" where
  "CookieStorageWithLegacySameSite lib https =
     \<lparr>cs_get = legacy_get lib, cs_save = legacy_save lib https, cs_remove = legacy_remove lib\<rparr>"

section \<open>SessionStorage\<close>

definition session_get :: "string \<Rightarrow> 'w web_state \<Rightarrow> js_error + json option" where
  "session_get key s = parse_stored (map_of (ws_session s) key)"

definition session_save :: "string \<Rightarrow> json \<Rightarrow> storage_options \<Rightarrow> 'w web_state \<Rightarrow> 'w web_state" where
  "session_save key value options s = s\<lparr>ws_session := AList.update key (stringify value) (ws_session s)\<rparr>"

definition session_remove :: "string \<Rightarrow> storage_options \<Rightarrow> 'w web_state \<Rightarrow> 'w web_state" where
  "session_remove key options s = s\<lparr>ws_session := AList.delete key (ws_session s)\<rparr>"

definition SessionStorage :: "'w client_storage" where
  "SessionStorage = \<lparr>cs_get = session_get, cs_save = session_save, cs_remove = session_remove\<rparr>"

section \<open>The contract of ClientStorage\<close>

text \<open>Two keys are apart when neither is the other, nor the legacy name of the other.\<close>

definition apart :: "string \<Rightarrow> string \<Rightarrow> bool" where
  "apart k j \<longleftrightarrow> k \<noteq> j \<and> LEGACY_PREFIX @ k \<noteq> j \<and> k \<noteq> LEGACY_PREFIX @ j"

locale storage_laws =
  fixes st :: "'w client_storage" and domain :: "string option"
  assumes get_save: "json_wf v \<Longrightarrow> so_cookieDomain o1 = domain \<Longrightarrow>
      cs_get st k (cs_save st k v o1 s) = Inr (Some v)"
    and get_remove: "so_cookieDomain o1 = domain \<Longrightarrow> cs_get st k (cs_remove st k o1 s) = Inr None"
    and save_frame: "apart k j \<Longrightarrow> cs_get st j (cs_save st k v o1 s) = cs_get st j s"
    and remove_frame: "apart k j \<Longrightarrow> cs_get st j (cs_remove st k o1 s) = cs_get st j s"

text \<open>
  The cookie library: a cookie that was set is read, one removed with the domain it was set
  with is gone, other names are untouched. \<open>domain\<close> is the one domain a client uses.
\<close>

locale cookie_laws =
  fixes lib :: "'w cookie_lib" and domain :: "string option"
  assumes cget_set: "ca_domain a = (if truthy domain then domain else None) \<Longrightarrow>
      Cookies_get lib (Cookies_set lib k t a w) k = Some t"
    and cget_set_other: "j \<noteq> k \<Longrightarrow> Cookies_get lib (Cookies_set lib k t a w) j = Cookies_get lib w j"
    and cget_remove: "ca_domain a = (if truthy domain then domain else None) \<Longrightarrow>
      Cookies_get lib (Cookies_remove lib k a w) k = None"
    and cget_remove_other: "j \<noteq> k \<Longrightarrow> Cookies_get lib (Cookies_remove lib k a w) j = Cookies_get lib w j"

lemma parse_stored_stringify [simp]: "json_wf v \<Longrightarrow> parse_stored (Some (stringify v)) = Inr (Some v)"
  by (simp add: parse_stored_def json_parse_stringify)

lemma parse_stored_None [simp]: "parse_stored None = Inr None"
  by (simp add: parse_stored_def)

lemma legacy_name [simp]: "LEGACY_PREFIX \<noteq> []" "LEGACY_PREFIX @ k \<noteq> k" "k \<noteq> LEGACY_PREFIX @ k"
  by (simp_all add: LEGACY_PREFIX_def)

lemma domain_simps [simp]:
  "ca_domain (with_options o1 a) = (if truthy (so_cookieDomain o1) then so_cookieDomain o1 else None)"
  "ca_domain (domain_only o1) = (if truthy (so_cookieDomain o1) then so_cookieDomain o1 else None)"
  by (simp_all add: with_options_def domain_only_def)

lemma legacy_get_cong:
  "Cookies_get lib (ws_cookies s) k = Cookies_get lib (ws_cookies s') k \<Longrightarrow>
   Cookies_get lib (ws_cookies s) (LEGACY_PREFIX @ k) = Cookies_get lib (ws_cookies s') (LEGACY_PREFIX @ k) \<Longrightarrow>
     legacy_get lib k s = legacy_get lib k s'"
  by (simp add: legacy_get_def cookie_get_def split: sum.splits)

context cookie_laws
begin

lemma cookie_storage: "storage_laws (CookieStorage lib https) domain"
  by unfold_locales
    (auto simp: CookieStorage_def cookie_get_def cookie_save_def cookie_remove_def Let_def
      cget_set cget_set_other cget_remove cget_remove_other apart_def)

lemma legacy_storage: "storage_laws (CookieStorageWithLegacySameSite lib https) domain"
proof
  fix v k and o1 :: storage_options and s :: "'w web_state"
  assume "json_wf v" "so_cookieDomain o1 = domain"
  then show "cs_get (CookieStorageWithLegacySameSite lib https) k
      (cs_save (CookieStorageWithLegacySameSite lib https) k v o1 s) = Inr (Some v)"
    by (simp add: CookieStorageWithLegacySameSite_def legacy_get_def legacy_save_def cookie_get_def
        cookie_save_def Let_def cget_set cget_set_other)
next
  fix k and o1 :: storage_options and s :: "'w web_state"
  assume "so_cookieDomain o1 = domain"
  then show "cs_get (CookieStorageWithLegacySameSite lib https) k
      (cs_remove (CookieStorageWithLegacySameSite lib https) k o1 s) = Inr None"
    by (simp add: CookieStorageWithLegacySameSite_def legacy_get_def legacy_remove_def cookie_get_def
        cookie_remove_def Let_def cget_remove cget_remove_other json_truthy_def)
qed (auto intro!: legacy_get_cong simp: CookieStorageWithLegacySameSite_def legacy_save_def
      legacy_remove_def cookie_save_def cookie_remove_def Let_def cget_set_other cget_remove_other apart_def)

end

interpretation session: storage_laws SessionStorage domain for domain
  by unfold_locales
    (auto simp: SessionStorage_def session_get_def session_save_def session_remove_def apart_def)

text \<open>A cookie jar that forgets the attributes; every client of the jar uses one domain.\<close>

definition cookie_jar :: "string obj cookie_lib" where
  "cookie_jar = \<lparr>Cookies_get = map_of, Cookies_set = (\<lambda>k t _. AList.update k t),
     Cookies_remove = (\<lambda>k _. AList.delete k)\<rparr>"

interpretation jar: cookie_laws cookie_jar domain for domain
  by unfold_locales (simp_all add: cookie_jar_def)

interpretation jar_cookies: storage_laws "CookieStorage cookie_jar https" domain for https domain
  by (rule jar.cookie_storage)

interpretation jar_legacy: storage_laws "CookieStorageWithLegacySameSite cookie_jar https" domain
  for https domain
  by (rule jar.legacy_storage)

section \<open>Transactions\<close>

definition TRANSACTION_STORAGE_KEY_PREFIX :: string where
  "TRANSACTION_STORAGE_KEY_PREFIX = ''a0.spajs.txs''"

record login_transaction =
  lt_nonce :: "string option"
  lt_scope :: "string option"
  lt_audience :: "string option"
  lt_appState :: "json option"
  lt_code_verifier :: "string option"
  lt_redirect_uri :: "string option"
  lt_organization :: "string option"
  lt_state :: "string option"
  lt_max_age :: "json option"

record connect_transaction =
  ct_appState :: "json option"
  ct_audience :: "string option"
  ct_auth_session :: "string option"
  ct_code_verifier :: "string option"
  ct_redirect_uri :: "string option"
  ct_scope :: "string option"
  ct_state :: "string option"
  ct_connection :: "string option"

text \<open>\<open>response_type\<close> tells the two apart: \<open>code\<close> or \<open>connect_code\<close>.\<close>

datatype transaction = LoginTx login_transaction | ConnectTx connect_transaction

definition str_prop :: "string \<Rightarrow> string option \<Rightarrow> json obj" where
  "str_prop k v = opt_prop k (map_option JStr v)"

fun transaction_to_json :: "transaction \<Rightarrow> json" where
  "transaction_to_json (LoginTx t) = JObj (
     str_prop ''nonce'' (lt_nonce t) @ str_prop ''scope'' (lt_scope t) @
     str_prop ''audience'' (lt_audience t) @ opt_prop ''appState'' (lt_appState t) @
     str_prop ''code_verifier'' (lt_code_verifier t) @ str_prop ''redirect_uri'' (lt_redirect_uri t) @
     str_prop ''organization'' (lt_organization t) @ str_prop ''state'' (lt_state t) @
     opt_prop ''max_age'' (lt_max_age t) @ str_prop ''response_type'' (Some ''code''))"
| "transaction_to_json (ConnectTx t) = JObj (
     opt_prop ''appState'' (ct_appState t) @ str_prop ''audience'' (ct_audience t) @
     str_prop ''auth_session'' (ct_auth_session t) @ str_prop ''code_verifier'' (ct_code_verifier t) @
     str_prop ''redirect_uri'' (ct_redirect_uri t) @ str_prop ''scope'' (ct_scope t) @
     str_prop ''state'' (ct_state t) @ str_prop ''connection'' (ct_connection t) @
     str_prop ''response_type'' (Some ''connect_code''))"

definition transaction_of_json :: "json \<Rightarrow> transaction" where
  "transaction_of_json v =
     (let str = (\<lambda>k. json_str (json_get v k)) in
      if str ''response_type'' = Some ''connect_code''
      then ConnectTx \<lparr>ct_appState = json_get v ''appState'', ct_audience = str ''audience'',
             ct_auth_session = str ''auth_session'', ct_code_verifier = str ''code_verifier'',
             ct_redirect_uri = str ''redirect_uri'', ct_scope = str ''scope'', ct_state = str ''state'',
             ct_connection = str ''connection''\<rparr>
      else LoginTx \<lparr>lt_nonce = str ''nonce'', lt_scope = str ''scope'', lt_audience = str ''audience'',
             lt_appState = json_get v ''appState'', lt_code_verifier = str ''code_verifier'',
             lt_redirect_uri = str ''redirect_uri'', lt_organization = str ''organization'',
             lt_state = str ''state'', lt_max_age = json_get v ''max_age''\<rparr>)"

record 'w transaction_manager =
  tm_storage :: "'w client_storage"
  tm_storageKey :: string
  tm_cookieDomain :: "string option"

definition new_TransactionManager ::
  "'w client_storage \<Rightarrow> string \<Rightarrow> string option \<Rightarrow> 'w transaction_manager" where
  "new_TransactionManager storage clientId cookieDomain =
     \<lparr>tm_storage = storage, tm_storageKey = TRANSACTION_STORAGE_KEY_PREFIX @ ''.'' @ clientId,
      tm_cookieDomain = cookieDomain\<rparr>"

definition tm_create :: "'w transaction_manager \<Rightarrow> transaction \<Rightarrow> 'w web_state \<Rightarrow> 'w web_state" where
  "tm_create m transaction =
     cs_save (tm_storage m) (tm_storageKey m) (transaction_to_json transaction)
       \<lparr>so_daysUntilExpire = Some 1, so_cookieDomain = tm_cookieDomain m\<rparr>"

definition tm_get :: "'w transaction_manager \<Rightarrow> 'w web_state \<Rightarrow> js_error + transaction option" where
  "tm_get m s = (case cs_get (tm_storage m) (tm_storageKey m) s of
     Inl e \<Rightarrow> Inl e
   | Inr v \<Rightarrow> Inr (if json_truthy v then map_option transaction_of_json v else None))"

definition tm_remove :: "'w transaction_manager \<Rightarrow> 'w web_state \<Rightarrow> 'w web_state" where
  "tm_remove m =
     cs_remove (tm_storage m) (tm_storageKey m)
       \<lparr>so_daysUntilExpire = None, so_cookieDomain = tm_cookieDomain m\<rparr>"

fun transaction_wf :: "transaction \<Rightarrow> bool" where
  "transaction_wf (LoginTx t) = (pred_option json_wf (lt_appState t) \<and> pred_option json_wf (lt_max_age t))"
| "transaction_wf (ConnectTx t) = pred_option json_wf (ct_appState t)"

lemma str_prop_simps:
  "(\<forall>p \<in> set (str_prop k w). P p) \<longleftrightarrow> pred_option (\<lambda>x. P (k, JStr x)) w"
  "map fst (str_prop k w) = (if w = None then [] else [k])"
  "fst ` set (str_prop k w) = (if w = None then {} else {k})"
  by (cases w; simp add: str_prop_def opt_prop_def)+

lemmas prop_lists = ball_Un image_Un str_prop_simps keys_opt_prop fst_set_opt_prop option.pred_True

lemma transaction_json_wf: "transaction_wf t \<Longrightarrow> json_wf (transaction_to_json t)"
  by (cases t) (simp_all add: prop_lists)

lemma map_of_str_prop:
  "map_of (str_prop k v @ m) j = (if j = k then first_of (map_option JStr v) (map_of m j) else map_of m j)"
  "map_of (str_prop k v) j = (if j = k then map_option JStr v else None)"
  by (simp_all add: str_prop_def map_of_opt_prop del: map_of_append)

lemma json_str_JStr [simp]: "json_str (Some (JStr t)) = Some t"
  by (simp add: json_str_def)

lemma transaction_of_to: "transaction_of_json (transaction_to_json t) = t"
proof (cases t)
  case (LoginTx l)
  then show ?thesis
    by (cases l) (simp add: transaction_of_json_def json_get_def map_of_str_prop map_of_opt_prop Let_def
        del: map_of_append)
next
  case (ConnectTx c)
  then show ?thesis
    by (cases c) (simp add: transaction_of_json_def json_get_def map_of_str_prop map_of_opt_prop Let_def
        del: map_of_append)
qed

lemma transaction_json_truthy: "json_truthy (Some (transaction_to_json t))"
  by (cases t) (simp_all add: json_truthy_def)

context storage_laws
begin

lemma tm_get_create:
  assumes "tm_storage m = st" "tm_cookieDomain m = domain" "transaction_wf t"
  shows "tm_get m (tm_create m t s) = Inr (Some t)"
  using assms get_save [OF transaction_json_wf [OF assms(3)]]
  by (simp add: tm_get_def tm_create_def transaction_json_truthy transaction_of_to)

lemma tm_get_remove:
  assumes "tm_storage m = st" "tm_cookieDomain m = domain"
  shows "tm_get m (tm_remove m s) = Inr None"
  using assms get_remove by (simp add: tm_get_def tm_remove_def json_truthy_def)

end

section \<open>Properties\<close>

text \<open>
  C32: a login or connect transaction that was created is read back as it was, on every storage
  that keeps the contract (both cookie storages and the session storage), and once removed it is
  gone.
\<close>

theorem transaction_roundtrip:
  assumes "storage_laws (tm_storage m) (tm_cookieDomain m)" and "transaction_wf t"
  shows "tm_get m (tm_create m t s) = Inr (Some t) \<and> tm_get m (tm_remove m s) = Inr None"
  using storage_laws.tm_get_create [OF assms(1) refl refl assms(2)]
    storage_laws.tm_get_remove [OF assms(1) refl refl]
  by blast

definition sample_login :: login_transaction where
  "sample_login = \<lparr>lt_nonce = Some ''n'', lt_scope = Some ''openid'', lt_audience = Some ''default'',
     lt_appState = Some (JObj [(''to'', JStr ''/home'')]), lt_code_verifier = Some ''v'',
     lt_redirect_uri = Some ''https://app'', lt_organization = None, lt_state = Some ''s'',
     lt_max_age = Some (JNum 60)\<rparr>"

theorem transaction_roundtrip_witness:
  "tm_get (new_TransactionManager (CookieStorageWithLegacySameSite cookie_jar True) ''c1'' None)
     (tm_create (new_TransactionManager (CookieStorageWithLegacySameSite cookie_jar True) ''c1'' None)
       (LoginTx sample_login) \<lparr>ws_cookies = [], ws_session = []\<rparr>) = Inr (Some (LoginTx sample_login))"
proof -
  have "transaction_wf (LoginTx sample_login)" by (simp add: sample_login_def)
  moreover have "storage_laws (tm_storage (new_TransactionManager (CookieStorageWithLegacySameSite cookie_jar True) ''c1'' None))
      (tm_cookieDomain (new_TransactionManager (CookieStorageWithLegacySameSite cookie_jar True) ''c1'' None))"
    using jar_legacy.storage_laws_axioms by (simp add: new_TransactionManager_def)
  ultimately show ?thesis using transaction_roundtrip by blast
qed

text \<open>
  the cookie storage for old browsers writes each value under two names; a browser that
  drops the \<open>SameSite=None\<close> cookie still reads the value back, from the legacy one.
\<close>

theorem legacy_cookie_fallback:
  assumes "cookie_laws lib domain" and "json_wf v" and "so_cookieDomain o1 = domain"
    and "Cookies_get lib w key = None"
    and "Cookies_get lib w (LEGACY_PREFIX @ key) =
           Cookies_get lib (ws_cookies (legacy_save lib https key v o1 s)) (LEGACY_PREFIX @ key)"
  shows "legacy_get lib key (s'\<lparr>ws_cookies := w\<rparr>) = Inr (Some v)"
proof -
  have "Cookies_get lib (ws_cookies (legacy_save lib https key v o1 s)) (LEGACY_PREFIX @ key) = Some (stringify v)"
    using assms(3) cookie_laws.cget_set [OF assms(1)] cookie_laws.cget_set_other [OF assms(1)]
    by (simp add: legacy_save_def cookie_save_def Let_def)
  with assms(2,4,5) show ?thesis by (simp add: legacy_get_def cookie_get_def json_truthy_def)
qed

theorem legacy_cookie_fallback_witness:
  "legacy_get cookie_jar ''k'' \<lparr>ws_cookies = [(''_legacy_k'', ''true'')], ws_session = []\<rparr>
     = Inr (Some (JBool True))"
proof -
  have "Cookies_get cookie_jar (ws_cookies (legacy_save cookie_jar True ''k'' (JBool True)
      \<lparr>so_daysUntilExpire = Some 1, so_cookieDomain = None\<rparr> \<lparr>ws_cookies = [], ws_session = []\<rparr>)) (LEGACY_PREFIX @ ''k'')
      = Some ''true''"
    by (simp add: legacy_save_def cookie_save_def cookie_jar_def Let_def LEGACY_PREFIX_def)
  then show ?thesis
    using legacy_cookie_fallback [of cookie_jar None "JBool True" "\<lparr>so_daysUntilExpire = Some 1, so_cookieDomain = None\<rparr>"
        "[(''_legacy_k'', ''true'')]" "''k''" True "\<lparr>ws_cookies = [], ws_session = []\<rparr>" "\<lparr>ws_cookies = [], ws_session = []\<rparr>"]
      jar.cookie_laws_axioms [of None]
    by (simp add: cookie_jar_def LEGACY_PREFIX_def)
qed

end
