(* ===== verification/Js_Encoding.thy ===== *)
theory Js_Encoding
  imports Js_Json
begin

text \<open>
  The text encodings of the platform that the SDK uses: UTF-8, base64 (\<open>btoa\<close>, \<open>atob\<close>) and
  form encoding (\<open>URLSearchParams\<close>, \<open>encodeURIComponent\<close>), with their round trips. A character
  is a code unit below 256, so UTF-8 needs at most two bytes; a byte sequence for any other
  code point is outside the model, and the decoder rejects it.
\<close>

section \<open>UTF-8\<close>

definition utf8_char :: "char \<Rightarrow> nat list" where
  "utf8_char c = (let n = of_char c in if n < 128 then [n] else [192 + n div 64, 128 + n mod 64])"

definition utf8_encode :: "string \<Rightarrow> nat list" where
  "utf8_encode s = concat (map utf8_char s)"

fun utf8_decode :: "nat list \<Rightarrow> string option" where
  "utf8_decode [] = Some []"
| "utf8_decode (b # bs) =
     (if b < 128 then map_option ((#) (char_of b)) (utf8_decode bs)
      else (case bs of
          [] \<Rightarrow> None
        | d # ds \<Rightarrow>
            if (b = 194 \<or> b = 195) \<and> 128 \<le> d \<and> d < 192
            then map_option ((#) (char_of ((b - 192) * 64 + (d - 128)))) (utf8_decode ds)
            else None))"

lemma of_char_bound: "(of_char c :: nat) < 256"
  by (simp add: of_char_def)

lemma byte_arith:
  fixes n :: nat
  assumes "n < 256"
  shows "n div 64 < 4" "n div 4 < 64" "n div 16 < 16"
  using assms by (simp_all add: div_less_iff_less_mult)

lemma byte_high: "(n :: nat) < 256 \<Longrightarrow> \<not> n < 128 \<Longrightarrow> n div 64 = 2 \<or> n div 64 = 3"
proof -
  assume "n < 256" "\<not> n < 128"
  then have "n div 64 < 4" "2 \<le> n div 64"
    by (simp_all add: div_less_iff_less_mult less_eq_div_iff_mult_less_eq)
  then show ?thesis by linarith
qed

lemma utf8_decode_char: "utf8_decode (utf8_char c @ bs) = map_option ((#) c) (utf8_decode bs)"
proof -
  define n :: nat where "n = of_char c"
  have n: "n < 256" unfolding n_def by (rule of_char_bound)
  have c: "char_of n = c" by (simp add: n_def)
  show ?thesis
  proof (cases "n < 128")
    case True
    then have "utf8_char c = [n]" by (simp add: utf8_char_def n_def Let_def)
    with True c show ?thesis by simp
  next
    case False
    then have u: "utf8_char c = [192 + n div 64, 128 + n mod 64]" by (simp add: utf8_char_def n_def Let_def)
    have "192 + n div 64 = 194 \<or> 192 + n div 64 = 195" using byte_high [OF n False] by linarith
    moreover have "n div 64 * 64 + n mod 64 = n" by simp
    ultimately show ?thesis using c by (auto simp: u)
  qed
qed

lemma utf8_decode_encode: "utf8_decode (utf8_encode s) = Some s"
  by (induction s) (simp_all add: utf8_encode_def utf8_decode_char)

lemma utf8_char_bound: "b \<in> set (utf8_char c) \<Longrightarrow> b < 256"
proof -
  assume b: "b \<in> set (utf8_char c)"
  define n :: nat where "n = of_char c"
  have "n div 64 < 4" "n mod 64 < 64"
    using byte_arith(1) of_char_bound [of c] by (simp_all add: n_def)
  with b show "b < 256" unfolding utf8_char_def n_def [symmetric]
    by (auto simp: Let_def split: if_splits)
qed

lemma utf8_encode_bound: "b \<in> set (utf8_encode s) \<Longrightarrow> b < 256"
  by (auto simp: utf8_encode_def dest: utf8_char_bound)

section \<open>Base64\<close>

definition b64_alphabet :: string where
  "b64_alphabet = ''ABCDEFGHIJKLMNOPQRSTUVWXYZabcdefghijklmnopqrstuvwxyz0123456789+/''"

definition b64_char :: "nat \<Rightarrow> char" where
  "b64_char n = b64_alphabet ! n"

fun index_of :: "'a \<Rightarrow> 'a list \<Rightarrow> nat option" where
  "index_of x [] = None"
| "index_of x (y # ys) = (if x = y then Some 0 else map_option Suc (index_of x ys))"

definition b64_val :: "char \<Rightarrow> nat option" where
  "b64_val c = index_of c b64_alphabet"

fun to_sextets :: "nat list \<Rightarrow> nat list" where
  "to_sextets (a # b # c # r) =
     (a div 4) # (a mod 4 * 16 + b div 16) # (b mod 16 * 4 + c div 64) # (c mod 64) # to_sextets r"
| "to_sextets [a, b] = [a div 4, a mod 4 * 16 + b div 16, b mod 16 * 4]"
| "to_sextets [a] = [a div 4, a mod 4 * 16]"
| "to_sextets [] = []"

fun of_sextets :: "nat list \<Rightarrow> nat list option" where
  "of_sextets (a # b # c # d # r) =
     map_option (\<lambda>bs. (a * 4 + b div 16) # (b mod 16 * 16 + c div 4) # (c mod 4 * 64 + d) # bs) (of_sextets r)"
| "of_sextets [a, b, c] = Some [a * 4 + b div 16, b mod 16 * 16 + c div 4]"
| "of_sextets [a, b] = Some [a * 4 + b div 16]"
| "of_sextets [a] = None"
| "of_sextets [] = Some []"

definition b64_padding :: "nat \<Rightarrow> string" where
  "b64_padding n = (if n mod 3 = 1 then ''=='' else if n mod 3 = 2 then ''='' else [])"

definition bytes_to_b64 :: "nat list \<Rightarrow> string" where
  "bytes_to_b64 bs = map b64_char (to_sextets bs) @ b64_padding (length bs)"

fun all_some :: "'a option list \<Rightarrow> 'a list option" where
  "all_some [] = Some []"
| "all_some (x # xs) = (case (x, all_some xs) of (Some y, Some ys) \<Rightarrow> Some (y # ys) | _ \<Rightarrow> None)"

text \<open>Forgiving decoding: at most two padding characters are dropped from a text whose length is
  a multiple of four; a text without padding is accepted.\<close>

definition drop_padding :: "string \<Rightarrow> string" where
  "drop_padding s =
     (if length s mod 4 = 0 \<and> length s \<ge> 2 then
        (if drop (length s - 2) s = ''=='' then take (length s - 2) s
         else if drop (length s - 1) s = ''='' then take (length s - 1) s
         else s)
      else s)"

definition b64_to_bytes :: "string \<Rightarrow> nat list option" where
  "b64_to_bytes s = Option.bind (all_some (map b64_val (drop_padding s))) of_sextets"

text \<open>\<open>btoa\<close> and \<open>atob\<close>: the bytes are the code units of the text.\<close>

definition btoa :: "string \<Rightarrow> string" where
  "btoa s = bytes_to_b64 (map of_char s)"

definition atob :: "string \<Rightarrow> string option" where
  "atob s = map_option (map char_of) (b64_to_bytes (filter (\<lambda>c. \<not> is_ws c) s))"

lemma b64_table: "list_all (\<lambda>n. b64_val (b64_char n) = Some n) [0..<64]"
  by code_simp

lemma b64_val_char [simp]: "n < 64 \<Longrightarrow> b64_val (b64_char n) = Some n"
  using b64_table by (auto simp: list_all_iff)

lemma length_b64_alphabet: "length b64_alphabet = 64"
  by (simp add: b64_alphabet_def)

lemma b64_alphabet_plain:
  "\<forall>c \<in> set b64_alphabet. \<not> is_ws c \<and> c \<noteq> CHR ''='' \<and> c \<noteq> CHR ''-'' \<and> c \<noteq> CHR ''_''"
  by (simp add: b64_alphabet_def is_ws_def)

lemma b64_chars [simp]:
  "n < 64 \<Longrightarrow> \<not> is_ws (b64_char n)" "n < 64 \<Longrightarrow> b64_char n \<noteq> CHR ''=''"
  "n < 64 \<Longrightarrow> b64_char n \<noteq> CHR ''-''" "n < 64 \<Longrightarrow> b64_char n \<noteq> CHR ''_''"
  using b64_alphabet_plain nth_mem [of n b64_alphabet] by (auto simp: b64_char_def length_b64_alphabet)

lemma sextet_arith:
  fixes a b c :: nat
  assumes "a < 256" "b < 256" "c < 256"
  shows "a div 4 < 64" "a mod 4 * 16 + b div 16 < 64" "b mod 16 * 4 + c div 64 < 64" "c mod 64 < 64"
    "b mod 16 * 4 < 64" "a mod 4 * 16 < 64"
proof -
  have "a mod 4 \<le> 3" "b mod 16 \<le> 15"
    using mod_less_divisor [of 4 a] mod_less_divisor [of 16 b] by linarith+
  with byte_arith [OF assms(1)] byte_arith [OF assms(2)] byte_arith [OF assms(3)]
  show "a div 4 < 64" "a mod 4 * 16 + b div 16 < 64" "b mod 16 * 4 + c div 64 < 64" "c mod 64 < 64"
    "b mod 16 * 4 < 64" "a mod 4 * 16 < 64"
    by simp_all
qed

lemma to_sextets_bound: "\<forall>b \<in> set bs. b < 256 \<Longrightarrow> \<forall>s \<in> set (to_sextets bs). s < 64"
proof (induction bs rule: to_sextets.induct)
  case (1 a b c r)
  then show ?case using sextet_arith [of a b c] by simp
next
  case (2 a b)
  then show ?case using sextet_arith [of a b 0] by simp
next
  case (3 a)
  then show ?case using sextet_arith [of a 0 0] by simp
qed simp

lemma all_some_map: "\<forall>x \<in> set xs. f x = Some (g x) \<Longrightarrow> all_some (map f xs) = Some (map g xs)"
  by (induction xs) auto

lemma of_to_sextets: "\<forall>b \<in> set bs. b < 256 \<Longrightarrow> of_sextets (to_sextets bs) = Some bs"
proof (induction bs rule: to_sextets.induct)
  case (1 a b c r)
  then have "b div 16 < 16" "c div 64 < 4" using byte_arith [of b] byte_arith [of c] by simp_all
  moreover from this have "b div 16 div 16 = 0" "c div 64 div 4 = 0" "b div 16 mod 16 = b div 16"
    "c div 64 mod 4 = c div 64" by simp_all
  ultimately show ?case using 1 by simp
next
  case (2 a b)
  then have "b div 16 < 16" using byte_arith [of b] by simp
  then have "b div 16 div 16 = 0" "b div 16 mod 16 = b div 16" by simp_all
  then show ?case by simp
qed simp_all

lemma length_to_sextets:
  "length (to_sextets bs) = (4 * length bs + 2) div 3"
  by (induction bs rule: to_sextets.induct) simp_all

lemma sextet_texts:
  assumes "\<forall>b \<in> set bs. b < 256"
  shows "all_some (map b64_val (map b64_char (to_sextets bs))) = Some (to_sextets bs)"
proof -
  have "\<forall>s \<in> set (to_sextets bs). b64_val (b64_char s) = Some (id s)"
    using to_sextets_bound [OF assms] by simp
  from all_some_map [OF this] show ?thesis by (simp add: comp_def)
qed

text \<open>
  Padded or not, in the standard alphabet, an encoded text decodes to the bytes it encodes.
\<close>

lemma drop_padding_none:
  assumes "CHR ''='' \<notin> set t"
  shows "drop_padding t = t"
proof -
  have d: "CHR ''='' \<notin> set (drop n t)" for n using assms in_set_dropD by metis
  have "drop n t \<noteq> ''==''" for n using d [of n] by (metis list.set_intros(1))
  moreover have "drop n t \<noteq> ''=''" for n using d [of n] by (metis list.set_intros(1))
  ultimately show ?thesis by (simp add: drop_padding_def)
qed

lemma b64_to_bytes_unpadded:
  assumes "\<forall>b \<in> set bs. b < 256"
  shows "b64_to_bytes (map b64_char (to_sextets bs)) = Some bs"
proof -
  have "CHR ''='' \<notin> set (map b64_char (to_sextets bs))"
    using to_sextets_bound [OF assms] b64_chars(2) by (metis (no_types, lifting) imageE list.set_map)
  then have "drop_padding (map b64_char (to_sextets bs)) = map b64_char (to_sextets bs)"
    by (rule drop_padding_none)
  with sextet_texts [OF assms] of_to_sextets [OF assms] show ?thesis
    by (simp add: b64_to_bytes_def)
qed

section \<open>Form encoding\<close>

definition hex_digit :: "nat \<Rightarrow> char" where
  "hex_digit n = ''0123456789ABCDEF'' ! n"

definition hex_digit_val :: "char \<Rightarrow> nat option" where
  "hex_digit_val c = (case index_of c ''0123456789ABCDEF'' of
     Some n \<Rightarrow> Some n
   | None \<Rightarrow> index_of c ''0123456789abcdef'')"

definition pct :: "nat \<Rightarrow> string" where
  "pct b = [CHR ''%'', hex_digit (b div 16), hex_digit (b mod 16)]"

definition is_alnum :: "char \<Rightarrow> bool" where
  "is_alnum c = (let n = of_char c :: nat in
     (48 \<le> n \<and> n \<le> 57) \<or> (65 \<le> n \<and> n \<le> 90) \<or> (97 \<le> n \<and> n \<le> 122))"

definition form_safe :: "char \<Rightarrow> bool" where
  "form_safe c = (is_alnum c \<or> c \<in> set ''*-._'')"

definition form_char :: "char \<Rightarrow> string" where
  "form_char c =
     (if form_safe c then [c] else if c = CHR '' '' then ''+''
      else concat (map pct (utf8_char c)))"

definition form_encode :: "string \<Rightarrow> string" where
  "form_encode s = concat (map form_char s)"

definition encodeURIComponent :: "string \<Rightarrow> string" where
  "encodeURIComponent s =
     concat (map (\<lambda>c. if is_alnum c \<or> c \<in> set ''-_.!~*()'' \<or> c = CHR 0x27 then [c]
                      else concat (map pct (utf8_char c))) s)"

text \<open>\<open>new URLSearchParams(pairs).toString()\<close> and \<open>new URLSearchParams(text)\<close>.\<close>

definition query_print :: "(string \<times> string) list \<Rightarrow> string" where
  "query_print ps = join ''&'' (map (\<lambda>(k, v). form_encode k @ ''='' @ form_encode v) ps)"

text \<open>A \<open>%\<close> that no two hexadecimal digits follow stands for itself.\<close>

fun pct_bytes :: "string \<Rightarrow> nat list" where
  "pct_bytes (c # d # e # r) =
     (case (c = CHR ''%'', hex_digit_val d, hex_digit_val e) of
        (True, Some x, Some y) \<Rightarrow> (16 * x + y) # pct_bytes r
      | _ \<Rightarrow> utf8_char c @ pct_bytes (d # e # r))"
| "pct_bytes [c, d] = utf8_char c @ utf8_char d"
| "pct_bytes [c] = utf8_char c"
| "pct_bytes [] = []"

text \<open>Bytes that are no UTF-8 decode to replacement characters, which no \<^typ>\<open>char\<close> is; the
  model gives a question mark for them.\<close>

definition form_decode :: "string \<Rightarrow> string" where
  "form_decode s = (case utf8_decode (pct_bytes (replace_char (CHR ''+'') (CHR '' '') s)) of
     Some t \<Rightarrow> t
   | None \<Rightarrow> ''?'')"

definition query_pair :: "string \<Rightarrow> string \<times> string" where
  "query_pair part =
     (form_decode (takeWhile (\<lambda>c. c \<noteq> CHR ''='') part),
      form_decode (drop 1 (dropWhile (\<lambda>c. c \<noteq> CHR ''='') part)))"

definition query_parse :: "string \<Rightarrow> (string \<times> string) list" where
  "query_parse text =
     (let t = (case text of [] \<Rightarrow> [] | c # r \<Rightarrow> if c = CHR ''?'' then r else text)
      in map query_pair (filter (\<lambda>p. p \<noteq> []) (split_str ''&'' t)))"

text \<open>\<open>params.get(key)\<close>: the first value.\<close>

definition query_get :: "(string \<times> string) list \<Rightarrow> string \<Rightarrow> string option" where
  "query_get ps k = map_of ps k"

lemma hex_table:
  "list_all (\<lambda>n. hex_digit_val (hex_digit n) = Some n \<and> hex_digit n \<noteq> CHR ''+'' \<and> hex_digit n \<noteq> CHR ''%''
     \<and> hex_digit n \<noteq> CHR ''&'' \<and> hex_digit n \<noteq> CHR ''='' \<and> hex_digit n \<noteq> CHR ''?'') [0..<16]"
  by code_simp

lemma hex_digit_simps [simp]:
  assumes "n < 16"
  shows "hex_digit_val (hex_digit n) = Some n" "hex_digit n \<noteq> CHR ''+''" "hex_digit n \<noteq> CHR ''&''"
    "hex_digit n \<noteq> CHR ''=''" "hex_digit n \<noteq> CHR ''?''"
  using assms hex_table by (auto simp: list_all_iff)

lemma form_safe_char:
  assumes "form_safe c"
  shows "c \<noteq> CHR ''%''" "c \<noteq> CHR ''+''" "c \<noteq> CHR ''&''" "c \<noteq> CHR ''=''"
    "c \<noteq> CHR ''?''" "utf8_char c = [of_char c]"
proof -
  from assms show "c \<noteq> CHR ''%''" "c \<noteq> CHR ''+''" "c \<noteq> CHR ''&''" "c \<noteq> CHR ''=''"
    "c \<noteq> CHR ''?''"
    by (auto simp: form_safe_def is_alnum_def Let_def)
  from assms show "utf8_char c = [of_char c]"
    by (auto simp: form_safe_def is_alnum_def utf8_char_def Let_def)
qed

lemma pct_bytes_other: "c \<noteq> CHR ''%'' \<Longrightarrow> pct_bytes (c # r) = utf8_char c @ pct_bytes r"
  by (cases "c # r" rule: pct_bytes.cases) simp_all

lemma pct_bytes_pct: "b < 256 \<Longrightarrow> pct_bytes (pct b @ r) = b # pct_bytes r"
  by (simp add: pct_def div_less_iff_less_mult)

lemma pct_bytes_pcts: "\<forall>b \<in> set bs. b < 256 \<Longrightarrow> pct_bytes (concat (map pct bs) @ r) = bs @ pct_bytes r"
  by (induction bs) (simp_all add: pct_bytes_pct)

lemma replace_pct: "b < 256 \<Longrightarrow> replace_char (CHR ''+'') (CHR '' '') (pct b) = pct b"
  by (simp add: replace_char_def pct_def div_less_iff_less_mult)

lemma replace_append [simp]: "replace_char a b (s @ t) = replace_char a b s @ replace_char a b t"
  by (simp add: replace_char_def)

lemma replace_pcts:
  "\<forall>b \<in> set bs. b < 256 \<Longrightarrow>
     replace_char (CHR ''+'') (CHR '' '') (concat (map pct bs)) = concat (map pct bs)"
  by (induction bs) (simp_all add: replace_pct, simp add: replace_char_def)

lemma pct_bytes_form_char:
  "pct_bytes (replace_char (CHR ''+'') (CHR '' '') (form_char c) @ r) = utf8_char c @ pct_bytes r"
proof (cases "form_safe c")
  case True
  from form_safe_char [OF True] True show ?thesis
    by (simp add: form_char_def replace_char_def pct_bytes_other)
next
  case False
  have "\<forall>b \<in> set (utf8_char c). b < 256" by (simp add: utf8_char_bound)
  with False show ?thesis
    by (auto simp: form_char_def replace_pcts pct_bytes_pcts) (simp add: replace_char_def pct_bytes_other)
qed

lemma form_decode_encode: "form_decode (form_encode s) = s"
proof -
  have "pct_bytes (replace_char (CHR ''+'') (CHR '' '') (form_encode s)) = utf8_encode s"
  proof (induction s)
    case Nil
    show ?case by (simp add: form_encode_def utf8_encode_def replace_char_def)
  next
    case (Cons c s)
    then show ?case
      by (simp add: form_encode_def utf8_encode_def pct_bytes_form_char)
  qed
  then show ?thesis by (simp add: form_decode_def utf8_decode_encode)
qed

lemma form_encode_clean:
  "c \<in> set (form_encode s) \<Longrightarrow> c \<noteq> CHR ''&'' \<and> c \<noteq> CHR ''='' \<and> c \<noteq> CHR ''?''"
proof -
  assume "c \<in> set (form_encode s)"
  then obtain d where d: "c \<in> set (form_char d)" by (auto simp: form_encode_def)
  show ?thesis
  proof (cases "form_safe d")
    case True
    with d form_safe_char [OF True] show ?thesis by (simp add: form_char_def)
  next
    case False
    with d consider "c = CHR ''+''" | b where "b \<in> set (utf8_char d)" "c \<in> set (pct b)"
      by (auto simp: form_char_def split: if_splits)
    then show ?thesis
    proof cases
      case 2
      with utf8_char_bound [OF 2(1)] show ?thesis
        by (auto simp: pct_def div_less_iff_less_mult)
    qed simp
  qed
qed

lemma query_pair_text:
  "query_pair (form_encode k @ CHR ''='' # form_encode v) = (k, v)"
proof -
  have k: "\<forall>c \<in> set (form_encode k). c \<noteq> CHR ''=''" using form_encode_clean by blast
  then have "takeWhile (\<lambda>c. c \<noteq> CHR ''='') (form_encode k @ CHR ''='' # form_encode v) = form_encode k"
    "dropWhile (\<lambda>c. c \<noteq> CHR ''='') (form_encode k @ CHR ''='' # form_encode v) = CHR ''='' # form_encode v"
    by simp_all
  then show ?thesis by (simp add: query_pair_def form_decode_encode)
qed

lemma query_parse_plain:
  "(\<And>r. t \<noteq> CHR ''?'' # r) \<Longrightarrow>
     query_parse t = map query_pair (filter (\<lambda>p. p \<noteq> []) (split_str ''&'' t))"
  by (cases t) (auto simp: query_parse_def simp del: split_str.simps)

text \<open>A printed query string is read back as the list of pairs it prints.\<close>

lemma query_parse_print: "query_parse (query_print ps) = ps"
proof (cases "ps = []")
  case True
  then show ?thesis by (simp add: query_print_def query_parse_def)
next
  case False
  let ?texts = "map (\<lambda>(k, v). form_encode k @ CHR ''='' # form_encode v) ps"
  have clean: "\<forall>t \<in> set ?texts. sep_clean ''&'' t"
    using form_encode_clean by fastforce
  have "split_str ''&'' (query_print ps) = ?texts"
    using False clean by (simp add: query_print_def split_str_join)
  moreover have "\<forall>t \<in> set ?texts. t \<noteq> []" by auto
  moreover have "query_print ps \<noteq> CHR ''?'' # r" for r
  proof -
    obtain k v qs where ps: "ps = (k, v) # qs" using False by (cases ps) auto
    have "CHR ''?'' \<notin> set (form_encode k)" using form_encode_clean by blast
    with ps show ?thesis
      by (cases "form_encode k"; cases qs) (auto simp: query_print_def)
  qed
  moreover have "map query_pair ?texts = ps"
    by (induction ps) (auto simp: query_pair_text)
  moreover have "filter (\<lambda>p. p \<noteq> []) ?texts = ?texts"
    using calculation(2) by (simp add: filter_True)
  ultimately show ?thesis by (metis query_parse_plain)
qed

end
