(* ===== verification/Utils.thy ===== *)
theory Utils
  imports Js_Encoding Errors "HOL-Library.Monad_Syntax"
begin

text \<open>
  \<open>src/utils.ts\<close>: query strings, the waiting for an answer from an iframe or a popup, random
  strings, URL-safe base64, and small helpers. The browser's parts (crypto, windows, timers)
  appear as the values and the events they deliver.
\<close>

section \<open>parseAuthenticationResult\<close>

record authentication_result =
  ar_state :: "string option"
  ar_code :: "string option"
  ar_connect_code :: "string option"
  ar_error :: "string option"
  ar_error_description :: "string option"

text \<open>\<open>v || undefined\<close>\<close>

definition or_undefined :: "string option \<Rightarrow> string option" where
  "or_undefined v = (if truthy v then v else None)"

definition parseAuthenticationResult :: "string \<Rightarrow> authentication_result" where
  "parseAuthenticationResult queryString =
     (let text = takeWhile (\<lambda>c. c \<noteq> CHR ''#'') queryString;
          searchParams = query_parse text
      in \<lparr>ar_state = query_get searchParams ''state'',
          ar_code = or_undefined (query_get searchParams ''code''),
          ar_connect_code = or_undefined (query_get searchParams ''connect_code''),
          ar_error = or_undefined (query_get searchParams ''error''),
          ar_error_description = or_undefined (query_get searchParams ''error_description'')\<rparr>)"

section \<open>runIframe and runPopup\<close>

text \<open>A message event: its origin, \<open>data.type\<close> (\<^const>\<open>None\<close> when \<open>data\<close> is falsy or has
  none) and \<open>data.response\<close>.\<close>

record web_message =
  wm_origin :: string
  wm_type :: "string option"
  wm_response :: authentication_result

datatype web_event = EvMessage web_message | EvTimeout | EvTick bool | EvRemoval

text \<open>\<open>waiting\<close>: the promise, whether the message listener, the timer, the interval and the
  iframe are still there, whether the delayed removal is scheduled, whether the popup was
  closed by the handler.\<close>

record waiting =
  wt_result :: "(js_error + authentication_result) option"
  wt_listening :: bool
  wt_timer :: bool
  wt_interval :: bool
  wt_attached :: bool
  wt_removal :: bool
  wt_closed :: bool

definition settle :: "js_error + authentication_result \<Rightarrow> waiting \<Rightarrow> waiting" where
  "settle r st = (if wt_result st = None then st\<lparr>wt_result := Some r\<rparr> else st)"

definition response_result :: "authentication_result \<Rightarrow> js_error + authentication_result" where
  "response_result r =
     (if truthy (ar_error r)
      then Inl (GenericError_fromPayload (the (ar_error r)) (or_default (ar_error_description r) []))
      else Inr r)"

definition accepted :: "string \<Rightarrow> web_message \<Rightarrow> bool" where
  "accepted eventOrigin m \<longleftrightarrow> wm_origin m = eventOrigin \<and> wm_type m = Some ''authorization_response''"

definition removeIframe :: "waiting \<Rightarrow> waiting" where
  "removeIframe st = (if wt_attached st then st\<lparr>wt_attached := False, wt_listening := False\<rparr> else st)"

definition iframe_start :: waiting where
  "iframe_start = \<lparr>wt_result = None, wt_listening = True, wt_timer = True, wt_interval = False,
     wt_attached = True, wt_removal = False, wt_closed = False\<rparr>"

fun iframe_event :: "string \<Rightarrow> web_event \<Rightarrow> waiting \<Rightarrow> waiting" where
  "iframe_event eventOrigin (EvMessage m) st =
     (if \<not> wt_listening st \<or> \<not> accepted eventOrigin m then st
      else (settle (response_result (wm_response m)) st)
             \<lparr>wt_timer := False, wt_listening := False, wt_removal := True\<rparr>)"
| "iframe_event eventOrigin EvTimeout st =
     (if wt_timer st then removeIframe ((settle (Inl TimeoutError) st)\<lparr>wt_timer := False\<rparr>) else st)"
| "iframe_event eventOrigin EvRemoval st =
     (if wt_removal st then removeIframe (st\<lparr>wt_removal := False\<rparr>) else st)"
| "iframe_event eventOrigin (EvTick _) st = st"

definition runIframe :: "string \<Rightarrow> web_event list \<Rightarrow> waiting" where
  "runIframe eventOrigin events = fold (iframe_event eventOrigin) events iframe_start"

definition popup_start :: waiting where
  "popup_start = \<lparr>wt_result = None, wt_listening = True, wt_timer = True, wt_interval = True,
     wt_attached = False, wt_removal = False, wt_closed = False\<rparr>"

text \<open>\<open>closePopup\<close> is the option of that name; the popup stays open only when it is \<open>false\<close>.\<close>

fun popup_event :: "string \<Rightarrow> bool option \<Rightarrow> web_event \<Rightarrow> waiting \<Rightarrow> waiting" where
  "popup_event eventOrigin closePopup (EvMessage m) st =
     (if \<not> wt_listening st \<or> \<not> accepted eventOrigin m then st
      else settle (response_result (wm_response m))
             (st\<lparr>wt_timer := False, wt_interval := False, wt_listening := False,
                 wt_closed := (closePopup \<noteq> Some False)\<rparr>))"
| "popup_event eventOrigin closePopup EvTimeout st =
     (if wt_timer st
      then settle (Inl PopupTimeoutError) (st\<lparr>wt_timer := False, wt_interval := False, wt_listening := False\<rparr>)
      else st)"
| "popup_event eventOrigin closePopup (EvTick closed) st =
     (if wt_interval st \<and> closed
      then settle (Inl PopupCancelledError) (st\<lparr>wt_interval := False, wt_timer := False, wt_listening := False\<rparr>)
      else st)"
| "popup_event eventOrigin closePopup EvRemoval st = st"

definition runPopup :: "string \<Rightarrow> bool option \<Rightarrow> web_event list \<Rightarrow> waiting" where
  "runPopup eventOrigin closePopup events = fold (popup_event eventOrigin closePopup) events popup_start"

text \<open>What decides the wait: the first accepted message, timeout or (for a popup) closed tick.\<close>

fun iframe_decision :: "string \<Rightarrow> web_event list \<Rightarrow> (js_error + authentication_result) option" where
  "iframe_decision eventOrigin [] = None"
| "iframe_decision eventOrigin (EvMessage m # es) =
     (if accepted eventOrigin m then Some (response_result (wm_response m)) else iframe_decision eventOrigin es)"
| "iframe_decision eventOrigin (EvTimeout # es) = Some (Inl TimeoutError)"
| "iframe_decision eventOrigin (_ # es) = iframe_decision eventOrigin es"

fun popup_decision :: "string \<Rightarrow> web_event list \<Rightarrow> (js_error + authentication_result) option" where
  "popup_decision eventOrigin [] = None"
| "popup_decision eventOrigin (EvMessage m # es) =
     (if accepted eventOrigin m then Some (response_result (wm_response m)) else popup_decision eventOrigin es)"
| "popup_decision eventOrigin (EvTimeout # es) = Some (Inl PopupTimeoutError)"
| "popup_decision eventOrigin (EvTick True # es) = Some (Inl PopupCancelledError)"
| "popup_decision eventOrigin (_ # es) = popup_decision eventOrigin es"

lemma iframe_settled:
  "wt_result st = Some r \<Longrightarrow> wt_result (fold (iframe_event eventOrigin) es st) = Some r"
proof (induction es arbitrary: st)
  case (Cons e es)
  have "wt_result (iframe_event eventOrigin e st) = Some r"
    using Cons.prems by (cases e) (auto simp: settle_def removeIframe_def)
  with Cons.IH show ?case by simp
qed simp

lemma iframe_waiting:
  "wt_result st = None \<Longrightarrow> wt_listening st \<Longrightarrow> wt_timer st \<Longrightarrow> \<not> wt_removal st \<Longrightarrow>
     wt_result (fold (iframe_event eventOrigin) es st) = iframe_decision eventOrigin es"
  by (induction eventOrigin es arbitrary: st rule: iframe_decision.induct)
    (simp_all add: settle_def removeIframe_def iframe_settled)

lemma popup_settled:
  "wt_result st = Some r \<Longrightarrow> wt_result (fold (popup_event eventOrigin cp) es st) = Some r"
proof (induction es arbitrary: st)
  case (Cons e es)
  have "wt_result (popup_event eventOrigin cp e st) = Some r"
    using Cons.prems by (cases e) (auto simp: settle_def)
  with Cons.IH show ?case by simp
qed simp

lemma popup_waiting:
  "wt_result st = None \<Longrightarrow> wt_listening st \<Longrightarrow> wt_timer st \<Longrightarrow> wt_interval st \<Longrightarrow>
     wt_result (fold (popup_event eventOrigin cp) es st) = popup_decision eventOrigin es"
  by (induction eventOrigin es arbitrary: st rule: popup_decision.induct)
    (simp_all add: settle_def popup_settled)

section \<open>Random strings\<close>

definition charset :: string where
  "charset = ''0123456789ABCDEFGHIJKLMNOPQRSTUVWXYZabcdefghijklmnopqrstuvwxyz-_~.''"

definition validMax :: nat where
  "validMax = 256 - (256 mod length charset)"

definition append_random :: "nat \<Rightarrow> string \<Rightarrow> string" where
  "append_random byte random =
     (if length random < 43 \<and> byte < validMax then random @ [charset ! (byte mod length charset)]
      else random)"

text \<open>\<open>getRandomValues\<close> fills an array of the given length; it is a parameter, as a function of
  the state \<open>'w\<close> of the generator. The loop may run forever when no byte is ever usable.\<close>

partial_function (option) random_loop ::
  "(nat \<Rightarrow> 'w \<Rightarrow> nat list \<times> 'w) \<Rightarrow> string \<Rightarrow> 'w \<Rightarrow> (string \<times> 'w) option" where
  "random_loop getRandomValues random w =
     (if length random < 43 then
        (case getRandomValues (43 - length random) w of
           (bytes, w') \<Rightarrow> random_loop getRandomValues (fold append_random bytes random) w')
      else Some (random, w))"

definition createRandomString :: "(nat \<Rightarrow> 'w \<Rightarrow> nat list \<times> 'w) \<Rightarrow> 'w \<Rightarrow> (string \<times> 'w) option" where
  "createRandomString getRandomValues w = random_loop getRandomValues [] w"

lemma length_charset: "length charset = 66"
  by (simp add: charset_def)

lemma validMax_eq: "validMax = 198"
  by (simp add: validMax_def length_charset)

lemma append_random_set: "set random \<subseteq> set charset \<Longrightarrow> set (append_random b random) \<subseteq> set charset"
  by (auto simp: append_random_def length_charset)

lemma append_random_length:
  "length random \<le> 43 \<Longrightarrow> length (append_random b random) \<le> 43 \<and> length random \<le> length (append_random b random)"
  by (simp add: append_random_def)

lemma fold_append_random:
  "length random \<le> 43 \<Longrightarrow> set random \<subseteq> set charset \<Longrightarrow>
     length (fold append_random bs random) \<le> 43 \<and> length random \<le> length (fold append_random bs random) \<and>
     set (fold append_random bs random) \<subseteq> set charset"
proof (induction bs arbitrary: random)
  case (Cons b bs)
  from Cons.IH [of "append_random b random"] Cons.prems append_random_length [of random b]
    append_random_set [of random b]
  show ?case by simp
qed simp

lemma fold_append_random_grows:
  assumes "length random < 43" "set random \<subseteq> set charset" "\<exists>b \<in> set bs. b < validMax"
  shows "length random < length (fold append_random bs random)"
  using assms
proof (induction bs arbitrary: random)
  case (Cons b bs)
  show ?case
  proof (cases "b < validMax")
    case True
    then have "length (append_random b random) = Suc (length random)"
      using Cons.prems(1) by (simp add: append_random_def)
    with fold_append_random [of "append_random b random" bs] Cons.prems append_random_set [of random b]
    show ?thesis by simp
  next
    case False
    then have "append_random b random = random" by (simp add: append_random_def)
    with False Cons show ?thesis by simp
  qed
qed simp

text \<open>Below a multiple of \<open>m\<close>, every residue is taken equally often.\<close>

lemma residues: "i < m \<Longrightarrow> length (filter (\<lambda>b. b mod m = i) [0..<k * m]) = k"
proof (induction k)
  case (Suc k)
  have "[0..<Suc k * m] = [0..<k * m] @ map (\<lambda>x. x + k * m) [0..<m]"
  proof -
    have "Suc k * m = k * m + m" by simp
    then have "[0..<Suc k * m] = [0..<k * m] @ [k * m..<k * m + m]"
      using upt_add_eq_append [of 0 "k * m" m] by (simp only: le0)
    then show ?thesis using map_add_upt [of "k * m" m] by (simp only: add.commute)
  qed
  moreover have "filter (\<lambda>x. (x + k * m) mod m = i) [0..<m] = filter (\<lambda>x. x = i) [0..<m]"
    by (rule filter_cong) auto
  moreover have "{x. x = i} \<inter> {0..<m} = {i}" using Suc.prems by auto
  then have "length (filter (\<lambda>x. x = i) [0..<m]) = 1"
    by (simp add: distinct_length_filter)
  ultimately show ?case using Suc by (simp add: filter_map comp_def)
qed simp

lemma distinct_charset: "distinct charset"
  by code_simp

lemma charset_uniform:
  assumes "c \<in> set charset"
  shows "length (filter (\<lambda>b. charset ! (b mod length charset) = c) [0..<validMax]) = 3"
proof -
  obtain i where i: "i < length charset" "charset ! i = c" using assms by (metis in_set_conv_nth)
  have "charset ! (b mod length charset) = c \<longleftrightarrow> b mod length charset = i" for b
    using i nth_eq_iff_index_eq [OF distinct_charset, of "b mod length charset" i]
    by (simp add: length_charset)
  moreover have "validMax = 3 * length charset" by (simp add: validMax_eq length_charset)
  ultimately show ?thesis using residues [OF i(1), of 3] by simp
qed

text \<open>
  A generator is fair when, asked again and again for \<open>n\<close> bytes, it delivers a usable one some day.
\<close>

definition nth_draw :: "(nat \<Rightarrow> 'w \<Rightarrow> nat list \<times> 'w) \<Rightarrow> nat \<Rightarrow> nat \<Rightarrow> 'w \<Rightarrow> nat list" where
  "nth_draw g n k w = fst (g n (((\<lambda>w. snd (g n w)) ^^ k) w))"

definition fair_generator :: "(nat \<Rightarrow> 'w \<Rightarrow> nat list \<times> 'w) \<Rightarrow> bool" where
  "fair_generator g \<longleftrightarrow> (\<forall>n > 0. \<forall>w. \<exists>k. \<exists>b \<in> set (nth_draw g n k w). b < validMax)"

lemma fold_append_random_barren: "\<forall>b \<in> set bs. \<not> b < validMax \<Longrightarrow> fold append_random bs random = random"
  by (induction bs) (simp_all add: append_random_def)

lemma random_loop_returns:
  assumes "fair_generator g" and "length random \<le> 43" "set random \<subseteq> set charset"
  shows "\<exists>s w'. random_loop g random w = Some (s, w') \<and> length s = 43 \<and> set s \<subseteq> set charset"
  using assms(2,3)
proof (induction "43 - length random" arbitrary: random w rule: less_induct)
  case less
  show ?case
  proof (cases "length random < 43")
    case False
    with less.prems show ?thesis by (subst random_loop.simps) simp
  next
    case True
    let ?n = "43 - length random"
    from assms(1) True obtain k where "\<exists>b \<in> set (nth_draw g ?n k w). b < validMax"
      unfolding fair_generator_def by (meson zero_less_diff)
    then show ?thesis
    proof (induction k arbitrary: w)
      case 0
      obtain bytes w' where b: "g ?n w = (bytes, w')" by force
      with 0 have "\<exists>b \<in> set bytes. b < validMax" by (simp add: nth_draw_def)
      from fold_append_random_grows [OF True less.prems(2) this] fold_append_random [OF less.prems, of bytes]
        less.hyps [of "fold append_random bytes random" w'] True
      obtain s v where "random_loop g (fold append_random bytes random) w' = Some (s, v)"
        "length s = 43" "set s \<subseteq> set charset" by fastforce
      with True b show ?case by (subst random_loop.simps) simp
    next
      case (Suc k)
      obtain bytes w' where b: "g ?n w = (bytes, w')" by force
      show ?case
      proof (cases "\<exists>b \<in> set bytes. b < validMax")
        case False
        have "nth_draw g ?n (Suc k) w = nth_draw g ?n k w'"
          using b by (simp only: nth_draw_def funpow_Suc_right comp_def) simp
        with Suc.IH [of w'] Suc.prems
        obtain s v where "random_loop g random w' = Some (s, v)" "length s = 43" "set s \<subseteq> set charset"
          by auto
        with True b False show ?thesis
          by (subst random_loop.simps) (simp add: fold_append_random_barren)
      next
        case found: True
        from fold_append_random_grows [OF True less.prems(2) found] fold_append_random [OF less.prems, of bytes]
          less.hyps [of "fold append_random bytes random" w'] True
        obtain s v where "random_loop g (fold append_random bytes random) w' = Some (s, v)"
          "length s = 43" "set s \<subseteq> set charset" by fastforce
        with True b show ?thesis by (subst random_loop.simps) simp
      qed
    qed
  qed
qed

text \<open>A generator that reads its bytes off a tape, and the tapes of \<open>n\<close> bytes that make it return \<open>s\<close>.\<close>

definition tape_generator :: "nat \<Rightarrow> nat list \<Rightarrow> nat list \<times> nat list" where
  "tape_generator n tape = (take n tape, drop n tape)"

definition tapes_for :: "nat \<Rightarrow> string \<Rightarrow> nat list set" where
  "tapes_for n s = {tape. length tape = n \<and> set tape \<subseteq> {..<256} \<and>
     (\<exists>rest. createRandomString tape_generator tape = Some (s, rest))}"

lemma fold_append_random_length: "length random \<le> 43 \<Longrightarrow> length (fold append_random bs random) \<le> 43"
  by (induction bs arbitrary: random) (simp_all add: append_random_def)

lemma append_random_full: "43 \<le> length random \<Longrightarrow> fold append_random bs random = random"
  by (induction bs) (simp_all add: append_random_def)

lemma take_drop_random: "fold append_random (drop n tape) (fold append_random (take n tape) random) = fold append_random tape random"
  by (metis append_take_drop_id comp_apply fold_append)

lemma tape_sound:
  assumes "random_loop tape_generator random tape = Some y" "length random \<le> 43"
  shows "fst y = fold append_random tape random \<and> length (fst y) = 43"
proof -
  let ?P = "\<lambda>g random tape y. g = tape_generator \<longrightarrow> length random \<le> 43 \<longrightarrow>
      fst y = fold append_random tape random \<and> length (fst y) = 43"
  have "?P tape_generator random tape y"
  proof (rule random_loop.raw_induct [of ?P, OF _ assms(1)])
    fix loop g random tape y
    assume hyp: "\<And>g random tape y. loop g random tape = Some y \<Longrightarrow> ?P g random tape y"
      and run: "(if length random < 43
        then case g (43 - length random) tape of (bytes, w') \<Rightarrow> loop g (fold append_random bytes random) w'
        else Some (random, tape)) = Some y"
    show "?P g random tape y"
    proof (intro impI)
      assume g: "g = tape_generator" and r: "length random \<le> 43"
      show "fst y = fold append_random tape random \<and> length (fst y) = 43"
      proof (cases "length random < 43")
        case True
        let ?n = "43 - length random"
        from True g run have "loop g (fold append_random (take ?n tape) random) (drop ?n tape) = Some y"
          by (simp add: tape_generator_def)
        from hyp [OF this] g fold_append_random_length [OF r] show ?thesis
          unfolding take_drop_random by blast
      next
        case False
        with r run show ?thesis by (auto simp: append_random_full)
      qed
    qed
  qed
  with assms(2) show ?thesis by blast
qed

lemma tape_complete:
  "length random \<le> 43 \<Longrightarrow> length (fold append_random tape random) = 43 \<Longrightarrow>
     \<exists>rest. random_loop tape_generator random tape = Some (fold append_random tape random, rest)"
proof (induction "length tape" arbitrary: tape random rule: less_induct)
  case less
  show ?case
  proof (cases "length random < 43")
    case True
    let ?n = "43 - length random"
    from True less.prems(2) have "0 < length tape" by (cases tape) auto
    with True have "length (drop ?n tape) < length tape" unfolding length_drop by linarith
    from less.hyps [OF this, of "fold append_random (take ?n tape) random"] less.prems fold_append_random_length
    obtain rest where "random_loop tape_generator (fold append_random (take ?n tape) random) (drop ?n tape) =
        Some (fold append_random tape random, rest)" by (auto simp: take_drop_random)
    with True show ?thesis by (subst random_loop.simps) (simp add: tape_generator_def)
  next
    case False
    then show ?thesis by (subst random_loop.simps) (simp add: append_random_full)
  qed
qed

text \<open>The tapes that lead from the first \<open>k\<close> characters of \<open>s\<close> to \<open>s\<close>.\<close>

definition tapes_from :: "nat \<Rightarrow> string \<Rightarrow> string \<Rightarrow> nat list set" where
  "tapes_from n random s = {tape. length tape = n \<and> set tape \<subseteq> {..<256} \<and> fold append_random tape random = s}"

lemma tapes_for_eq:
  assumes "length s = 43"
  shows "tapes_for n s = tapes_from n [] s"
  using assms tape_sound [of "[]"] tape_complete [of "[]"]
  unfolding tapes_for_def tapes_from_def createRandomString_def
  by (intro Collect_cong conj_cong refl) fastforce

fun ways :: "nat \<Rightarrow> nat \<Rightarrow> nat" where
  "ways 0 k = (if k = 43 then 1 else 0)"
| "ways (Suc n) k = (if k < 43 then 3 * ways n (Suc k) + 58 * ways n k else 256 * ways n k)"

lemma ways_less: "n + k < 43 \<Longrightarrow> ways n k = 0"
  by (induction n arbitrary: k) auto

lemma ways_exact: "n + k = 43 \<Longrightarrow> ways n k = 3 ^ n"
  by (induction n arbitrary: k) (auto simp: ways_less)

lemma card_tapes_Suc: "card (tapes_from (Suc n) random s) = (\<Sum>b < 256. card (tapes_from n (append_random b random) s))"
proof -
  have fin: "finite (tapes_from n r s)" for r
    by (rule finite_subset [OF _ finite_lists_length_eq [of "{..<256 :: nat}" n]]) (auto simp: tapes_from_def)
  have "tapes_from (Suc n) random s = (\<Union>b \<in> {..<256}. (#) b ` tapes_from n (append_random b random) s)"
    by (auto simp: tapes_from_def length_Suc_conv image_iff)
  also have "card \<dots> = (\<Sum>b < 256. card ((#) b ` tapes_from n (append_random b random) s))"
    by (rule card_UN_disjoint) (auto simp: fin)
  finally show ?thesis by (simp add: card_image)
qed

lemma fold_append_random_prefix: "take (length random) (fold append_random tape random) = random"
proof (induction tape arbitrary: random)
  case (Cons b tape)
  then have "take (length random) (take (length (append_random b random)) (fold append_random (b # tape) random)) =
      take (length random) (append_random b random)" by simp
  then show ?case by (cases "length random < 43 \<and> b < validMax") (auto simp: append_random_def [of b random])
qed simp

lemma no_tapes: "take (length random) s \<noteq> random \<Longrightarrow> tapes_from n random s = {}"
  using fold_append_random_prefix by (auto simp: tapes_from_def)

lemma card_tapes_from:
  assumes "length s = 43" "set s \<subseteq> set charset"
  shows "k \<le> 43 \<Longrightarrow> card (tapes_from n (take k s) s) = ways n k"
proof (induction n arbitrary: k)
  case 0
  have "tapes_from 0 (take k s) s = (if k = 43 then {[]} else {})"
    using 0 assms(1) by (auto simp: tapes_from_def take_all_iff)
  then show ?case by simp
next
  case (Suc n)
  show ?case
  proof (cases "k < 43")
    case False
    then have "append_random b (take k s) = take k s" for b by (simp add: append_random_def assms(1))
    with Suc False show ?thesis by (simp add: card_tapes_Suc)
  next
    case True
    let ?B = "{b. b < validMax \<and> charset ! (b mod length charset) = s ! k}"
    have next1: "take k s @ [s ! k] = take (Suc k) s" using True assms(1) by (simp add: take_Suc_conv_app_nth)
    have step: "card (tapes_from n (append_random b (take k s)) s) =
        (if b < validMax then if charset ! (b mod length charset) = s ! k then ways n (Suc k) else 0 else ways n k)" for b
    proof (cases "b < validMax")
      case use: True
      with True assms(1) have a: "append_random b (take k s) = take k s @ [charset ! (b mod length charset)]"
        by (simp add: append_random_def)
      show ?thesis
      proof (cases "charset ! (b mod length charset) = s ! k")
        case eq: True
        with use a Suc.IH [of "Suc k"] True show ?thesis by (simp add: next1)
      next
        case False
        then have "take (length (take k s @ [charset ! (b mod length charset)])) s \<noteq> take k s @ [charset ! (b mod length charset)]"
          using True assms(1) next1 by (simp flip: next1)
        from no_tapes [OF this] use False a show ?thesis by simp
      qed
    next
      case False
      with Suc.IH [of k] True show ?thesis by (simp add: append_random_def)
    qed
    have three: "card ?B = 3"
    proof -
      have "s ! k \<in> set charset" using True assms by (metis nth_mem subsetD)
      from charset_uniform [OF this] have "length (filter (\<lambda>b. charset ! (b mod length charset) = s ! k) [0..<validMax]) = 3" .
      moreover have "distinct (filter (\<lambda>b. charset ! (b mod length charset) = s ! k) [0..<validMax])" by simp
      moreover have "set (filter (\<lambda>b. charset ! (b mod length charset) = s ! k) [0..<validMax]) = ?B" by auto
      ultimately show ?thesis by (metis distinct_card)
    qed
    have "(\<Sum>b < 256. card (tapes_from n (append_random b (take k s)) s)) =
        (\<Sum>b \<in> {..<validMax}. card (tapes_from n (append_random b (take k s)) s)) +
        (\<Sum>b \<in> {validMax..<256}. card (tapes_from n (append_random b (take k s)) s))"
      using sum.atLeastLessThan_concat [of 0 validMax 256, symmetric] by (simp add: validMax_eq atLeast0LessThan)
    also have "\<dots> = (\<Sum>b \<in> {..<validMax}. if charset ! (b mod length charset) = s ! k then ways n (Suc k) else 0) + 58 * ways n k"
      by (simp add: step validMax_eq)
    also have "(\<Sum>b \<in> {..<validMax}. if charset ! (b mod length charset) = s ! k then ways n (Suc k) else 0) = card ?B * ways n (Suc k)"
      by (simp add: sum.If_cases Int_def)
    finally show ?thesis using True by (simp add: card_tapes_Suc three)
  qed
qed

lemma card_tapes_for: "length s = 43 \<Longrightarrow> set s \<subseteq> set charset \<Longrightarrow> card (tapes_for n s) = ways n 0"
  using card_tapes_from [of s 0 n] by (simp add: tapes_for_eq)

section \<open>URL-safe base64\<close>

definition urlEncodeB64 :: "string \<Rightarrow> string" where
  "urlEncodeB64 input = concat (map (\<lambda>c. if c = CHR ''+'' then ''-'' else if c = CHR ''/'' then ''_''
     else if c = CHR ''='' then [] else [c]) input)"

text \<open>\<open>decodeURIComponent\<close> of the text with every byte percent-encoded is UTF-8 decoding.\<close>

definition decodeB64 :: "string \<Rightarrow> string option" where
  "decodeB64 input = Option.bind (atob input) (\<lambda>t. utf8_decode (map of_char t))"

definition urlDecodeB64 :: "string \<Rightarrow> string option" where
  "urlDecodeB64 input =
     decodeB64 (replace_char (CHR ''-'') (CHR ''+'') (replace_char (CHR ''_'') (CHR ''/'') input))"

definition bufferToBase64UrlEncoded :: "nat list \<Rightarrow> string" where
  "bufferToBase64UrlEncoded input = urlEncodeB64 (bytes_to_b64 input)"

definition url_char :: "char \<Rightarrow> char" where
  "url_char c = (if c = CHR ''+'' then CHR ''-'' else if c = CHR ''/'' then CHR ''_'' else c)"

lemma urlEncodeB64_append: "urlEncodeB64 (s @ t) = urlEncodeB64 s @ urlEncodeB64 t"
  by (simp add: urlEncodeB64_def)

lemma urlEncode_text: "CHR ''='' \<notin> set t \<Longrightarrow> urlEncodeB64 t = map url_char t"
  by (induction t) (auto simp: urlEncodeB64_def url_char_def)

lemma urlEncode_padding: "urlEncodeB64 (b64_padding n) = []"
proof -
  have "urlEncodeB64 ''=='' = []" "urlEncodeB64 ''='' = []" "urlEncodeB64 [] = []"
    by (simp_all add: urlEncodeB64_def)
  then show ?thesis by (simp add: b64_padding_def)
qed

lemma urlDecode_text:
  "CHR ''-'' \<notin> set t \<Longrightarrow> CHR ''_'' \<notin> set t \<Longrightarrow>
     replace_char (CHR ''-'') (CHR ''+'') (replace_char (CHR ''_'') (CHR ''/'') (map url_char t)) = t"
  by (induction t) (auto simp: replace_char_def url_char_def)

lemma sextet_chars:
  assumes "\<forall>b \<in> set bs. b < 256"
  shows "CHR ''='' \<notin> set (map b64_char (to_sextets bs))"
    "CHR ''-'' \<notin> set (map b64_char (to_sextets bs))" "CHR ''_'' \<notin> set (map b64_char (to_sextets bs))"
  using to_sextets_bound [OF assms] b64_chars(2-4) by (metis (no_types, lifting) imageE list.set_map)+

lemma bufferToBase64_chars:
  "\<forall>b \<in> set bs. b < 256 \<Longrightarrow> bufferToBase64UrlEncoded bs = map url_char (map b64_char (to_sextets bs))"
  unfolding bufferToBase64UrlEncoded_def bytes_to_b64_def urlEncodeB64_append urlEncode_padding
  by (simp only: urlEncode_text [OF sextet_chars(1)] append_Nil2)

lemma atob_sextets:
  assumes "\<forall>b \<in> set bs. b < 256"
  shows "atob (map b64_char (to_sextets bs)) = Some (map char_of bs)"
proof -
  have "filter (\<lambda>c. \<not> is_ws c) (map b64_char (to_sextets bs)) = map b64_char (to_sextets bs)"
    using to_sextets_bound [OF assms] by (simp add: filter_map comp_def)
  with b64_to_bytes_unpadded [OF assms] show ?thesis by (simp add: atob_def)
qed

lemma map_of_char_of: "\<forall>b \<in> set bs. b < 256 \<Longrightarrow> map (of_char \<circ> (char_of :: nat \<Rightarrow> char)) bs = bs"
  by (induction bs) simp_all

lemma urlDecode_buffer:
  assumes "\<forall>b \<in> set bs. b < 256"
  shows "urlDecodeB64 (bufferToBase64UrlEncoded bs) = utf8_decode bs"
  unfolding urlDecodeB64_def bufferToBase64_chars [OF assms] decodeB64_def
    urlDecode_text [OF sextet_chars(2,3) [OF assms]] atob_sextets [OF assms]
  by (simp add: map_of_char_of [OF assms])

section \<open>Parameters\<close>

text \<open>An object whose properties may be \<open>undefined\<close>.\<close>

type_synonym params = "json option obj"

definition stripUndefined :: "params \<Rightarrow> json obj" where
  "stripUndefined ps = map (\<lambda>(k, v). (k, the v)) (filter (\<lambda>(k, v). v \<noteq> None) ps)"

text \<open>\<open>String(v)\<close>\<close>

fun js_to_string :: "json \<Rightarrow> string" where
  "js_to_string JNull = ''null''"
| "js_to_string (JBool b) = (if b then ''true'' else ''false'')"
| "js_to_string (JNum n) = show_int n"
| "js_to_string (JStr s) = s"
| "js_to_string (JArr vs) = join '','' (map (\<lambda>v. if v = JNull then [] else js_to_string v) vs)"
| "js_to_string (JObj _) = ''[object Object]''"

text \<open>\<open>{ clientId: client_id, ...params }\<close> becomes \<open>{ client_id, ...params }\<close>.\<close>

definition createQueryParams :: "params \<Rightarrow> string" where
  "createQueryParams ps =
     (let client_id = Option.bind (map_of ps ''clientId'') id;
          all = obj_spread [(''client_id'', client_id)] (AList.delete ''clientId'' ps)
      in query_print (map (\<lambda>(k, v). (k, js_to_string v)) (stripUndefined all)))"

definition ALLOWED_AUTH0CLIENT_PROPERTIES :: "(string \<times> string list) list" where
  "ALLOWED_AUTH0CLIENT_PROPERTIES =
     [(''name'', [''string'']), (''version'', [''string'', ''number'']), (''env'', [''object''])]"

fun typeof :: "json \<Rightarrow> string" where
  "typeof JNull = ''object''"
| "typeof (JBool _) = ''boolean''"
| "typeof (JNum _) = ''number''"
| "typeof (JStr _) = ''string''"
| "typeof (JArr _) = ''object''"
| "typeof (JObj _) = ''object''"

definition stripAuth0Client :: "json obj \<Rightarrow> bool \<Rightarrow> json obj" where
  "stripAuth0Client auth0Client excludeEnv =
     filter (\<lambda>(key, v). \<not> (excludeEnv \<and> key = ''env'') \<and>
        (case map_of ALLOWED_AUTH0CLIENT_PROPERTIES key of
           Some types \<Rightarrow> typeof v \<in> set types | None \<Rightarrow> False)) auth0Client"

definition fromEntries :: "(string \<times> 'a) list \<Rightarrow> 'a obj" where
  "fromEntries iterable = obj_spread [] iterable"

section \<open>Small helpers\<close>

definition js_encode :: "string \<Rightarrow> string" where
  "js_encode value = btoa value"

definition js_decode :: "string \<Rightarrow> string option" where
  "js_decode value = atob value"

text \<open>What \<open>window.crypto\<close> is: absent, without \<open>subtle\<close> (an insecure origin), or complete.\<close>

datatype web_crypto = NoCrypto | NoSubtle | FullCrypto

fun validateCrypto :: "web_crypto \<Rightarrow> js_error option" where
  "validateCrypto NoCrypto = Some (PlainError
     ''For security reasons, `window.crypto` is required to run `auth0-spa-js`.'')"
| "validateCrypto NoSubtle = Some (PlainError (''auth0-spa-js must run on a secure origin. See '' @
     ''https://github.com/auth0/auth0-spa-js/blob/main/FAQ.md#why-do-i-get-auth0-spa-js-must-run-on-a-secure-origin'' @
     '' for more information.''))"
| "validateCrypto FullCrypto = None"

definition getDomain :: "string \<Rightarrow> string" where
  "getDomain domainUrl =
     (if starts_with domainUrl ''http://'' \<or> starts_with domainUrl ''https://'' then domainUrl
      else ''https://'' @ domainUrl)"

definition getTokenIssuer :: "string option \<Rightarrow> string \<Rightarrow> string" where
  "getTokenIssuer issuer domainUrl =
     (case or_undefined issuer of
        Some i \<Rightarrow> if starts_with i ''https://'' then i else ''https://'' @ i @ ''/''
      | None \<Rightarrow> domainUrl @ ''/'')"

definition parseInt :: "string \<Rightarrow> int option" where
  "parseInt s =
     (let t = dropWhile is_ws s;
          neg = (t \<noteq> [] \<and> hd t = CHR ''-'');
          u = (if t \<noteq> [] \<and> (hd t = CHR ''-'' \<or> hd t = CHR ''+'') then tl t else t);
          ds = takeWhile is_digit u
      in if ds = [] then None
         else Some (if neg then - int (read_nat 0 ds) else int (read_nat 0 ds)))"

definition parseNumber :: "json option \<Rightarrow> json option" where
  "parseNumber v = (case v of Some (JStr s) \<Rightarrow> map_option JNum (parseInt s) | _ \<Rightarrow> v)"

section \<open>Properties\<close>

text \<open>
  C33: the promise of \<open>runIframe\<close> is settled by the first authorization response posted from the
  authorization server's own origin or by the timeout, whichever comes first; messages of any
  other origin or type have no influence, and nothing changes the outcome afterwards. The same
  holds for \<open>runPopup\<close>, where closing the window cancels it.
\<close>

theorem window_wait_outcome:
  "wt_result (runIframe eventOrigin events) = iframe_decision eventOrigin events \<and>
   wt_result (runPopup eventOrigin closePopup events) = popup_decision eventOrigin events"
  by (simp add: runIframe_def runPopup_def iframe_start_def popup_start_def iframe_waiting popup_waiting)

text \<open>
  C37: with every fair generator, which may deliver useless bytes for any number of requests,
  \<open>createRandomString\<close> returns, and the string has 43 characters of the 66 character set. No string is
  more likely than another: of the tapes of \<open>n\<close> bytes, for every \<open>n\<close>, as many make it return the one as
  the other; of those of 43 bytes, \<open>3 ^ 43\<close>.
\<close>

theorem createRandomString_uniform:
  assumes "fair_generator getRandomValues"
    and "length s = 43" "set s \<subseteq> set charset" "length s' = 43" "set s' \<subseteq> set charset"
  shows "(\<exists>r w'. createRandomString getRandomValues w = Some (r, w') \<and> length r = 43 \<and> set r \<subseteq> set charset) \<and>
    card (tapes_for n s) = card (tapes_for n s') \<and> card (tapes_for 43 s) = 3 ^ 43"
proof (intro conjI)
  show "\<exists>r w'. createRandomString getRandomValues w = Some (r, w') \<and> length r = 43 \<and> set r \<subseteq> set charset"
    unfolding createRandomString_def by (rule random_loop_returns [OF assms(1)]) simp_all
  show "card (tapes_for n s) = card (tapes_for n s')"
    using card_tapes_for [OF assms(2,3)] card_tapes_for [OF assms(4,5)] by simp
  show "card (tapes_for 43 s) = 3 ^ 43"
    using card_tapes_for [OF assms(2,3), of 43] ways_exact [of 43 0] by simp
qed

text \<open>The generator of the witness delivers only the useless byte 255 every other time.\<close>

definition flaky_generator :: "nat \<Rightarrow> bool \<Rightarrow> nat list \<times> bool" where
  "flaky_generator n b = (replicate n (if b then 7 else 255), \<not> b)"

theorem createRandomString_uniform_witness:
  "\<exists>s w'. createRandomString flaky_generator False = Some (s, w') \<and> length s = 43"
proof -
  have "\<exists>k. \<exists>b \<in> set (nth_draw flaky_generator n k w). b < validMax" if "0 < n" for n w
    using that by (intro exI [of _ "if w then 0 else 1"]) (simp add: nth_draw_def flaky_generator_def validMax_eq)
  then have "fair_generator flaky_generator" by (simp add: fair_generator_def)
  from createRandomString_uniform [OF this, of "replicate 43 CHR ''a''" "replicate 43 CHR ''b''" False 43] show ?thesis
    by (auto simp: charset_def)
qed

text \<open>
  what \<open>bufferToBase64UrlEncoded\<close> makes of the UTF-8 bytes of a text, \<open>urlDecodeB64\<close> turns
  back into the text; the encoding is made of the 64 URL-safe characters only.
\<close>

theorem base64url_roundtrip:
  "urlDecodeB64 (bufferToBase64UrlEncoded (utf8_encode s)) = Some s \<and>
   set (bufferToBase64UrlEncoded (utf8_encode s)) \<subseteq> url_char ` set b64_alphabet"
proof -
  have b: "\<forall>b \<in> set (utf8_encode s). b < 256" using utf8_encode_bound by blast
  have "b64_char n \<in> set b64_alphabet" if "n < 64" for n
    using that by (simp add: b64_char_def length_b64_alphabet)
  then have "set (bufferToBase64UrlEncoded (utf8_encode s)) \<subseteq> url_char ` set b64_alphabet"
    using to_sextets_bound [OF b] by (auto simp: bufferToBase64_chars [OF b])
  then show ?thesis by (simp add: urlDecode_buffer [OF b] utf8_decode_encode)
qed

text \<open>
  the query string of a parameter object is read back as its defined properties, in order,
  each value converted to a string, with the client id first under its OAuth name.
\<close>

theorem createQueryParams_parse:
  "query_parse (createQueryParams ps) =
     map (\<lambda>(k, v). (k, js_to_string v))
       (stripUndefined (obj_spread [(''client_id'', Option.bind (map_of ps ''clientId'') id)]
                          (AList.delete ''clientId'' ps)))"
  by (simp add: createQueryParams_def query_parse_print)

end
