(* ===== verification/Worker.thy ===== *)
theory Worker
  imports Utils Scope
begin

text \<open>
  \<open>src/worker/*.ts\<close>: the worker that keeps the refresh tokens out of the main thread. Its state
  is the token store and the base URL it may talk to. \<open>messageHandler\<close> is cut where it awaits
  the network: \<open>prepare\<close> computes the request (or a reply) from the store as it is, \<open>finish\<close>
  updates the store as it then is and replies; the step relation at the end interleaves the
  messages. The network, and the URL parser of the platform, are parameters.
\<close>

section \<open>Requests and responses\<close>

record fetch_options =
  fo_method :: "string option"
  fo_body :: "string option"
  fo_headers :: "string obj"

record raw_response =
  rr_status :: int
  rr_ok :: bool
  rr_headers :: "(string \<times> string) list"
  rr_text :: string

text \<open>The race of \<open>fetch\<close> with the timer: a response, a rejection, or the timer first.\<close>

datatype fetch_outcome = Response raw_response | NetworkError string | TimedOut

type_synonym 'w network = "string \<Rightarrow> fetch_options \<Rightarrow> int \<Rightarrow> 'w \<Rightarrow> fetch_outcome \<times> 'w"

section \<open>Messages\<close>

record refresh_message =
  rm_timeout :: int
  rm_audience :: string
  rm_scope :: string
  rm_fetchUrl :: string
  rm_fetchOptions :: fetch_options
  rm_useFormData :: bool
  rm_useMrrt :: bool
  rm_skipTokenStorage :: bool
  rm_preserveRefreshToken :: bool

record revoke_message =
  vm_timeout :: int
  vm_audience :: string
  vm_fetchUrl :: string
  vm_fetchOptions :: fetch_options
  vm_useFormData :: bool

text \<open>\<open>OtherMsg\<close> is a message without \<open>fetchUrl\<close> and of none of the types.\<close>

datatype worker_message =
    InitMsg string
  | ClearMsg
  | RevokeMsg revoke_message
  | RefreshMsg refresh_message
  | OtherMsg

datatype worker_reply =
    ReplyJson bool json "string obj"
  | ReplyError string
  | ReplyOk

section \<open>The token store\<close>

record worker_state =
  wk_refreshTokens :: "string obj"
  wk_allowedBaseUrl :: "string option"

definition worker_init :: worker_state where
  "worker_init = \<lparr>wk_refreshTokens = [], wk_allowedBaseUrl = None\<rparr>"

definition latest_key :: string where
  "latest_key = ''latest_refresh_token''"

definition wk_cacheKey :: "string \<Rightarrow> string \<Rightarrow> string" where
  "wk_cacheKey audience scope = audience @ ''|'' @ scope"

definition cacheKeyContainsAudience :: "string \<Rightarrow> string \<Rightarrow> bool" where
  "cacheKeyContainsAudience audience cacheKey = starts_with cacheKey (audience @ ''|'')"

definition getRefreshToken :: "string \<Rightarrow> string \<Rightarrow> string obj \<Rightarrow> string option" where
  "getRefreshToken audience scope tokens = map_of tokens (wk_cacheKey audience scope)"

definition setRefreshToken :: "string \<Rightarrow> string \<Rightarrow> string \<Rightarrow> string obj \<Rightarrow> string obj" where
  "setRefreshToken refreshToken audience scope tokens =
     AList.update (wk_cacheKey audience scope) refreshToken tokens"

definition deleteRefreshToken :: "string \<Rightarrow> string \<Rightarrow> string obj \<Rightarrow> string obj" where
  "deleteRefreshToken audience scope tokens = AList.delete (wk_cacheKey audience scope) tokens"

definition wk_getRefreshTokensByAudience :: "string \<Rightarrow> string obj \<Rightarrow> string list" where
  "wk_getRefreshTokensByAudience audience tokens =
     dedupe (map snd (filter (\<lambda>(key, token). cacheKeyContainsAudience audience key) tokens))"

definition deleteRefreshTokensByValue :: "string \<Rightarrow> string obj \<Rightarrow> string obj" where
  "deleteRefreshTokensByValue refreshToken tokens =
     filter (\<lambda>(key, token). token \<noteq> refreshToken) tokens"

definition updateRefreshTokens :: "string option \<Rightarrow> string \<Rightarrow> string obj \<Rightarrow> string obj" where
  "updateRefreshTokens oldRefreshToken newRefreshToken tokens =
     map (\<lambda>(key, token). (key, if Some token = oldRefreshToken then newRefreshToken else token)) tokens"

text \<open>Every key but the latest one is made by \<open>cacheKey\<close>, so it has a part after the bar.\<close>

definition checkDownscoping :: "string \<Rightarrow> string \<Rightarrow> string obj \<Rightarrow> bool" where
  "checkDownscoping scope audience tokens =
     list_ex (\<lambda>key. key \<noteq> latest_key \<and>
        (case split_str ''|'' key of
           _ # scopes # _ \<Rightarrow>
             cacheKeyContainsAudience audience key \<and>
             list_all (\<lambda>s. s \<in> set (split_str '' '' scopes)) (split_str '' '' scope)
         | _ \<Rightarrow> False)) (obj_keys tokens)"

definition formDataToObject :: "string \<Rightarrow> json obj" where
  "formDataToObject formData = obj_spread [] (map (\<lambda>(k, v). (k, JStr v)) (query_parse formData))"

section \<open>messageHandler\<close>

definition caught_reply :: "js_error \<Rightarrow> string obj \<Rightarrow> worker_reply" where
  "caught_reply e headers = ReplyJson False
     (JObj (opt_prop ''error'' (map_option JStr (err_code e)) @
            [(''error_description'', JStr (err_message e))])) headers"

text \<open>The body of the request as a value, and its properties.\<close>

definition parse_body :: "bool \<Rightarrow> string option \<Rightarrow> js_error + json" where
  "parse_body useFormData body =
     (if useFormData then Inr (JObj (formDataToObject (or_default body [])))
      else (case Option.bind body json_parse of
         Some v \<Rightarrow> Inr v
       | None \<Rightarrow> Inl (Foreign None ''JSON.parse: unexpected token'')))"

fun body_props :: "json \<Rightarrow> json obj" where
  "body_props (JObj m) = m"
| "body_props _ = []"

definition print_body :: "bool \<Rightarrow> json obj \<Rightarrow> string" where
  "print_body useFormData body =
     (if useFormData then createQueryParams (map (\<lambda>(k, v). (k, Some v)) body)
      else stringify (JObj body))"

text \<open>The stored token a refresh uses.\<close>

definition stored_token :: "refresh_message \<Rightarrow> string obj \<Rightarrow> string option" where
  "stored_token m tokens =
     (let refreshToken = getRefreshToken (rm_audience m) (rm_scope m) tokens in
      if \<not> truthy refreshToken \<and> rm_useMrrt m then
        (let latest = map_of tokens latest_key in
         if truthy latest \<and> \<not> checkDownscoping (rm_scope m) (rm_audience m) tokens
         then latest else refreshToken)
      else refreshToken)"

text \<open>Up to the request: a reply, or the token to be replaced and the request's options.\<close>

definition prepare :: "refresh_message \<Rightarrow> string obj \<Rightarrow> worker_reply + string option \<times> fetch_options" where
  "prepare m tokens =
     (case parse_body (rm_useFormData m) (fo_body (rm_fetchOptions m)) of
        Inl e \<Rightarrow> Inl (caught_reply e [])
      | Inr body \<Rightarrow>
          if body = JNull then Inl (caught_reply (TypeErr ''Cannot read properties of null'') [])
          else if \<not> json_truthy (json_get body ''refresh_token'') \<and>
             json_get body ''grant_type'' = Some (JStr ''refresh_token'') then
            (let refreshToken = stored_token m tokens in
             if \<not> truthy refreshToken
             then Inl (caught_reply (MissingRefreshTokenError (Some (rm_audience m)) (Some (rm_scope m))) [])
             else Inr (refreshToken, (rm_fetchOptions m)
               \<lparr>fo_body := Some (print_body (rm_useFormData m)
                  (AList.update ''refresh_token'' (JStr (the refreshToken)) (body_props body)))\<rparr>))
          else if json_truthy (json_get body ''mfa_token'') then
            (let refreshToken = getRefreshToken (rm_audience m) (rm_scope m) tokens
             in Inr (if \<not> truthy refreshToken \<and> rm_useMrrt m then map_of tokens latest_key
                     else refreshToken, rm_fetchOptions m))
          else Inr (None, rm_fetchOptions m))"

definition without_refresh_token :: "json \<Rightarrow> json" where
  "without_refresh_token v = (case v of JObj m \<Rightarrow> JObj (AList.delete ''refresh_token'' m) | _ \<Rightarrow> v)"

text \<open>From the outcome of the request on.\<close>

definition store_token :: "refresh_message \<Rightarrow> string option \<Rightarrow> string \<Rightarrow> string obj \<Rightarrow> string obj" where
  "store_token m refreshToken new tokens =
     (let tokens1 = (if rm_useMrrt m
                     then updateRefreshTokens refreshToken new (AList.update latest_key new tokens)
                     else tokens)
      in setRefreshToken new (rm_audience m) (rm_scope m) tokens1)"

definition finish ::
  "refresh_message \<Rightarrow> string option \<Rightarrow> fetch_outcome \<Rightarrow> string obj \<Rightarrow> worker_reply \<times> string obj" where
  "finish m refreshToken outcome tokens = (case outcome of
     NetworkError msg \<Rightarrow> (ReplyError msg, tokens)
   | TimedOut \<Rightarrow> (ReplyError (''Timeout when executing '' @ [CHR 0x27] @ ''fetch'' @ [CHR 0x27]), tokens)
   | Response r \<Rightarrow>
       (let headers = fromEntries (rr_headers r) in
        case json_parse (rr_text r) of
          None \<Rightarrow> (caught_reply (Foreign None ''JSON.parse: unexpected token'') headers, tokens)
        | Some json \<Rightarrow>
            if json = JNull then (caught_reply (TypeErr ''Cannot read properties of null'') headers, tokens)
            else if rm_skipTokenStorage m then
              (ReplyJson (rr_ok r) (without_refresh_token json) headers, tokens)
            else if json_truthy (json_get json ''refresh_token'') then
              (ReplyJson (rr_ok r) (without_refresh_token json) headers,
               store_token m refreshToken (js_to_string (the (json_get json ''refresh_token''))) tokens)
            else
              (ReplyJson (rr_ok r) json headers,
               if rm_preserveRefreshToken m then tokens
               else deleteRefreshToken (rm_audience m) (rm_scope m) tokens)))"

section \<open>revokeMessageHandler\<close>

definition revoke_error :: "raw_response \<Rightarrow> string" where
  "revoke_error r =
     (let description = (case json_parse (rr_text r) of
            Some v \<Rightarrow> (case json_get v ''error_description'' of Some d \<Rightarrow> if json_truthy (Some d) then Some (js_to_string d) else None
                      | None \<Rightarrow> None)
          | None \<Rightarrow> None)
      in (case description of Some d \<Rightarrow> d | None \<Rightarrow> ''HTTP error '' @ show_int (rr_status r)))"

fun revoke_loop ::
  "'w network \<Rightarrow> revoke_message \<Rightarrow> json obj \<Rightarrow> string list \<Rightarrow> string obj \<Rightarrow> 'w
     \<Rightarrow> worker_reply \<times> string obj \<times> 'w" where
  "revoke_loop net m baseBody [] tokens w = (ReplyOk, tokens, w)"
| "revoke_loop net m baseBody (refreshToken # rest) tokens w =
     (let body = print_body (vm_useFormData m) (AList.update ''token'' (JStr refreshToken) baseBody) in
      case net (vm_fetchUrl m) ((vm_fetchOptions m)\<lparr>fo_body := Some body\<rparr>) (vm_timeout m) w of
        (NetworkError msg, w') \<Rightarrow> (ReplyError msg, tokens, w')
      | (TimedOut, w') \<Rightarrow> (ReplyError (''Timeout when executing '' @ [CHR 0x27] @ ''fetch'' @ [CHR 0x27]), tokens, w')
      | (Response r, w') \<Rightarrow>
          if \<not> rr_ok r then (ReplyError (revoke_error r), tokens, w')
          else revoke_loop net m baseBody rest (deleteRefreshTokensByValue refreshToken tokens) w')"

definition revokeMessageHandler ::
  "'w network \<Rightarrow> revoke_message \<Rightarrow> string obj \<Rightarrow> 'w \<Rightarrow> worker_reply \<times> string obj \<times> 'w" where
  "revokeMessageHandler net m tokens w =
     (let tokensToRevoke = wk_getRefreshTokensByAudience (vm_audience m) tokens in
      if tokensToRevoke = [] then (ReplyOk, tokens, w)
      else (case parse_body (vm_useFormData m) (fo_body (vm_fetchOptions m)) of
         Inl e \<Rightarrow> (ReplyError (or_default (Some (err_message e)) ''Unknown error during token revocation''), tokens, w)
       | Inr baseBody \<Rightarrow> revoke_loop net m (body_props baseBody) tokensToRevoke tokens w))"

section \<open>messageRouter\<close>

record web_url =
  url_origin :: string
  url_pathname :: string

type_synonym url_parser = "string \<Rightarrow> web_url option"

definition isAuthorizedWorkerRequest :: "url_parser \<Rightarrow> string option \<Rightarrow> string \<Rightarrow> string \<Rightarrow> bool" where
  "isAuthorizedWorkerRequest parse_url allowedBaseUrl fetchUrl expectedPath =
     (if \<not> truthy allowedBaseUrl then False
      else (case (parse_url (the allowedBaseUrl), parse_url fetchUrl) of
         (Some base, Some requested) \<Rightarrow>
           url_origin requested = url_origin base \<and> url_pathname requested = expectedPath
       | _ \<Rightarrow> False))"

definition unauthorized_reply :: worker_reply where
  "unauthorized_reply = ReplyJson False
     (JObj [(''error'', JStr ''invalid_fetch_url''), (''error_description'', JStr ''Unauthorized fetch URL'')]) []"

text \<open>What the router does with a message: nothing more, a reply, or a handler started.\<close>

datatype routed = Done | Reply worker_reply | StartRevoke revoke_message | StartRefresh refresh_message

definition messageRouter :: "url_parser \<Rightarrow> worker_message \<Rightarrow> worker_state \<Rightarrow> routed \<times> worker_state" where
  "messageRouter parse_url data st = (case data of
     InitMsg url \<Rightarrow>
       (Done, if wk_allowedBaseUrl st = None \<and> parse_url url \<noteq> None
              then st\<lparr>wk_allowedBaseUrl := Some url\<rparr> else st)
   | ClearMsg \<Rightarrow> (Reply ReplyOk, st\<lparr>wk_refreshTokens := []\<rparr>)
   | RevokeMsg m \<Rightarrow>
       (if \<not> isAuthorizedWorkerRequest parse_url (wk_allowedBaseUrl st) (vm_fetchUrl m) ''/oauth/revoke''
        then Reply unauthorized_reply else StartRevoke m, st)
   | RefreshMsg m \<Rightarrow>
       (if \<not> isAuthorizedWorkerRequest parse_url (wk_allowedBaseUrl st) (rm_fetchUrl m) ''/oauth/token''
        then Reply unauthorized_reply else StartRefresh m, st)
   | OtherMsg \<Rightarrow> (Reply unauthorized_reply, st))"

text \<open>One message handled to its end with nothing in between, as a caller that waits sees it.\<close>

definition messageHandler ::
  "'w network \<Rightarrow> refresh_message \<Rightarrow> string obj \<Rightarrow> 'w \<Rightarrow> worker_reply \<times> string obj \<times> 'w" where
  "messageHandler net m tokens w = (case prepare m tokens of
     Inl reply \<Rightarrow> (reply, tokens, w)
   | Inr (refreshToken, options) \<Rightarrow>
       (case net (rm_fetchUrl m) options (rm_timeout m) w of
          (outcome, w') \<Rightarrow> (case finish m refreshToken outcome tokens of
             (reply, tokens') \<Rightarrow> (reply, tokens', w'))))"

definition handle_message ::
  "url_parser \<Rightarrow> 'w network \<Rightarrow> worker_message \<Rightarrow> worker_state \<Rightarrow> 'w \<Rightarrow> worker_reply option \<times> worker_state \<times> 'w" where
  "handle_message parse_url net data st w = (case messageRouter parse_url data st of
     (Done, st') \<Rightarrow> (None, st', w)
   | (Reply r, st') \<Rightarrow> (Some r, st', w)
   | (StartRevoke m, st') \<Rightarrow>
       (case revokeMessageHandler net m (wk_refreshTokens st') w of
          (r, tokens, w') \<Rightarrow> (Some r, st'\<lparr>wk_refreshTokens := tokens\<rparr>, w'))
   | (StartRefresh m, st') \<Rightarrow>
       (case messageHandler net m (wk_refreshTokens st') w of
          (r, tokens, w') \<Rightarrow> (Some r, st'\<lparr>wk_refreshTokens := tokens\<rparr>, w')))"

section \<open>sendMessage\<close>

text \<open>The promise of the main thread, from the reply on its private port.\<close>

definition sendMessage_result :: "worker_reply option \<Rightarrow> js_error + worker_reply" where
  "sendMessage_result reply = (case reply of
     Some (ReplyError e) \<Rightarrow> if e \<noteq> [] then Inl (PlainError e) else Inr (ReplyError e)
   | Some r \<Rightarrow> Inr r
   | None \<Rightarrow> Inr ReplyOk)"

section \<open>Interleaved messages\<close>

text \<open>
  The worker with the refreshes that await their response, the URLs it has fetched and the
  replies it has posted. A response may have any content, and may come at any time.
\<close>

record worker_system =
  sys_state :: worker_state
  sys_flight :: "(refresh_message \<times> string option) list"
  sys_fetched :: "string list"
  sys_replies :: "worker_reply list"

definition sys_init :: worker_system where
  "sys_init = \<lparr>sys_state = worker_init, sys_flight = [], sys_fetched = [], sys_replies = []\<rparr>"

inductive worker_step :: "url_parser \<Rightarrow> worker_system \<Rightarrow> worker_system \<Rightarrow> bool" for parse_url where
  step_done: "messageRouter parse_url msg (sys_state s) = (Done, st) \<Longrightarrow>
     worker_step parse_url s (s\<lparr>sys_state := st\<rparr>)"
| step_reply: "messageRouter parse_url msg (sys_state s) = (Reply r, st) \<Longrightarrow>
     worker_step parse_url s (s\<lparr>sys_state := st, sys_replies := sys_replies s @ [r]\<rparr>)"
| step_refuse: "messageRouter parse_url msg (sys_state s) = (StartRefresh m, st) \<Longrightarrow>
     prepare m (wk_refreshTokens st) = Inl r \<Longrightarrow>
     worker_step parse_url s (s\<lparr>sys_state := st, sys_replies := sys_replies s @ [r]\<rparr>)"
| step_fetch: "messageRouter parse_url msg (sys_state s) = (StartRefresh m, st) \<Longrightarrow>
     prepare m (wk_refreshTokens st) = Inr (old, options) \<Longrightarrow>
     worker_step parse_url s (s\<lparr>sys_state := st, sys_flight := sys_flight s @ [(m, old)],
       sys_fetched := sys_fetched s @ [rm_fetchUrl m]\<rparr>)"
| step_answer: "(m, old) \<in> set (sys_flight s) \<Longrightarrow>
     finish m old outcome (wk_refreshTokens (sys_state s)) = (r, tokens) \<Longrightarrow>
     worker_step parse_url s (s\<lparr>sys_state := (sys_state s)\<lparr>wk_refreshTokens := tokens\<rparr>,
       sys_flight := remove1 (m, old) (sys_flight s), sys_replies := sys_replies s @ [r]\<rparr>)"
| step_revoke: "messageRouter parse_url msg (sys_state s) = (StartRevoke v, st) \<Longrightarrow>
     revokeMessageHandler (net :: nat network) v (wk_refreshTokens st) w = (r, tokens, w') \<Longrightarrow>
     worker_step parse_url s (s\<lparr>sys_state := st\<lparr>wk_refreshTokens := tokens\<rparr>,
       sys_fetched := sys_fetched s @ [vm_fetchUrl v], sys_replies := sys_replies s @ [r]\<rparr>)"

inductive worker_reach :: "url_parser \<Rightarrow> worker_system \<Rightarrow> bool" for parse_url where
  worker_start: "worker_reach parse_url sys_init"
| worker_more: "worker_reach parse_url s \<Longrightarrow> worker_step parse_url s s' \<Longrightarrow> worker_reach parse_url s'"

inductive_cases worker_stepE: "worker_step parse_url s s'"

fun reply_clean :: "worker_reply \<Rightarrow> bool" where
  "reply_clean (ReplyJson _ json _) = (\<not> json_truthy (json_get json ''refresh_token''))"
| "reply_clean _ = True"

text \<open>The URLs the worker may fetch: the two endpoints of the origin it was initialised with.\<close>

definition authorized_urls :: "url_parser \<Rightarrow> string option \<Rightarrow> string set" where
  "authorized_urls parse_url allowed =
     {url. \<exists>base b u. allowed = Some base \<and> parse_url base = Some b \<and> parse_url url = Some u \<and>
        url_origin u = url_origin b \<and> url_pathname u \<in> {''/oauth/token'', ''/oauth/revoke''}}"

lemma authorized_iff:
  "isAuthorizedWorkerRequest parse_url allowed url path \<Longrightarrow> path \<in> {''/oauth/token'', ''/oauth/revoke''} \<Longrightarrow>
     url \<in> authorized_urls parse_url allowed"
  by (cases allowed) (auto simp: isAuthorizedWorkerRequest_def authorized_urls_def split: if_splits option.splits)

lemma opt_prop_lookup: "map_of (opt_prop k v) j = (if j = k then v else None)"
  by (cases v) (simp_all add: opt_prop_def)

lemma caught_reply_clean [simp]: "reply_clean (caught_reply e headers)"
  by (simp add: caught_reply_def json_get_def opt_prop_lookup map_add_def json_truthy_def split: option.split)

lemma without_refresh_token_get: "json_get (without_refresh_token v) ''refresh_token'' = None"
  by (cases v) (simp_all add: json_get_def without_refresh_token_def)

lemma finish_clean: "reply_clean (fst (finish m old outcome tokens))"
proof (cases outcome)
  case (Response r)
  then show ?thesis
    by (simp add: finish_def Let_def without_refresh_token_get json_truthy_def [of None] split: option.split)
qed (simp_all add: finish_def)

lemma prepare_clean: "prepare m tokens = Inl r \<Longrightarrow> reply_clean r"
  by (auto simp: prepare_def Let_def split: sum.splits if_splits)

lemma revoke_loop_clean: "reply_clean (fst (revoke_loop net m base ts tokens w))"
  by (induction ts arbitrary: tokens w) (auto simp: Let_def split: prod.split fetch_outcome.split)

lemma revoke_clean: "reply_clean (fst (revokeMessageHandler net m tokens w))"
  by (simp add: revokeMessageHandler_def Let_def revoke_loop_clean split: sum.split)

lemma router_reply_clean: "messageRouter parse_url msg st = (Reply r, st') \<Longrightarrow> reply_clean r"
  by (auto simp: messageRouter_def unauthorized_reply_def json_get_def json_truthy_def
      split: worker_message.splits if_splits)

lemma router_allowed:
  "messageRouter parse_url msg st = (d, st') \<Longrightarrow> wk_allowedBaseUrl st \<noteq> None \<Longrightarrow>
     wk_allowedBaseUrl st' = wk_allowedBaseUrl st"
  by (auto simp: messageRouter_def split: worker_message.splits if_splits)

lemma router_start:
  "messageRouter parse_url msg st = (StartRefresh m, st') \<Longrightarrow>
     st' = st \<and> rm_fetchUrl m \<in> authorized_urls parse_url (wk_allowedBaseUrl st)"
  "messageRouter parse_url msg st = (StartRevoke v, st') \<Longrightarrow>
     st' = st \<and> vm_fetchUrl v \<in> authorized_urls parse_url (wk_allowedBaseUrl st)"
  by (auto simp: messageRouter_def intro: authorized_iff split: worker_message.splits if_splits)

definition worker_inv :: "url_parser \<Rightarrow> worker_system \<Rightarrow> bool" where
  "worker_inv parse_url s \<longleftrightarrow> list_all reply_clean (sys_replies s) \<and>
     set (sys_fetched s) \<subseteq> authorized_urls parse_url (wk_allowedBaseUrl (sys_state s))"

lemma authorized_None: "authorized_urls parse_url None = {}"
  by (simp add: authorized_urls_def)

lemma router_authorized:
  assumes "messageRouter parse_url msg st = (d, st')"
  shows "authorized_urls parse_url (wk_allowedBaseUrl st) \<subseteq> authorized_urls parse_url (wk_allowedBaseUrl st')"
  using router_allowed [OF assms] by (cases "wk_allowedBaseUrl st") (simp_all add: authorized_None)

lemma worker_step_inv: "worker_step parse_url s s' \<Longrightarrow> worker_inv parse_url s \<Longrightarrow> worker_inv parse_url s'"
proof (induction rule: worker_step.induct)
  case (step_done msg s st)
  then show ?case using router_authorized by (fastforce simp: worker_inv_def)
next
  case (step_reply msg s r st)
  then show ?case using router_authorized router_reply_clean by (fastforce simp: worker_inv_def)
next
  case (step_refuse msg s m st r)
  then show ?case using router_start(1) prepare_clean by (fastforce simp: worker_inv_def)
next
  case (step_fetch msg s m st old options)
  then show ?case using router_start(1) by (fastforce simp: worker_inv_def)
next
  case (step_answer m old s outcome r tokens)
  then show ?case
    using finish_clean [of m old outcome "wk_refreshTokens (sys_state s)"] by (simp add: worker_inv_def)
next
  case (step_revoke msg s v st net w r tokens w')
  then show ?case
    using router_start(2) revoke_clean [of net v "wk_refreshTokens st" w] by (fastforce simp: worker_inv_def)
qed

lemma worker_reach_inv: "worker_reach parse_url s \<Longrightarrow> worker_inv parse_url s"
proof (induction rule: worker_reach.induct)
  case worker_start
  show ?case by (simp add: worker_inv_def sys_init_def)
next
  case (worker_more s s')
  then show ?case using worker_step_inv by blast
qed

section \<open>Properties\<close>

text \<open>
  C4: however messages and responses are interleaved and whatever the server answers, no reply
  of the worker carries a refresh token to the main thread, and every URL it fetches is the
  token or the revocation endpoint of the origin it was initialised with.
\<close>

theorem worker_confines_tokens:
  assumes "worker_reach parse_url s"
  shows "list_all reply_clean (sys_replies s) \<and>
         set (sys_fetched s) \<subseteq> authorized_urls parse_url (wk_allowedBaseUrl (sys_state s))"
  using worker_reach_inv [OF assms] by (simp add: worker_inv_def)

definition sample_refresh :: refresh_message where
  "sample_refresh = \<lparr>rm_timeout = 10000, rm_audience = ''api'', rm_scope = ''read'',
     rm_fetchUrl = ''https://t/oauth/token'',
     rm_fetchOptions = \<lparr>fo_method = Some ''POST'', fo_body = Some ''grant_type=authorization_code'', fo_headers = []\<rparr>,
     rm_useFormData = True, rm_useMrrt = False, rm_skipTokenStorage = False, rm_preserveRefreshToken = False\<rparr>"

theorem worker_confines_tokens_witness:
  "\<exists>s. worker_reach (\<lambda>u. None) s \<and> sys_replies s = [unauthorized_reply] \<and> list_all reply_clean (sys_replies s)"
proof -
  let ?s = "sys_init\<lparr>sys_state := worker_init, sys_replies := [] @ [unauthorized_reply]\<rparr>"
  have "messageRouter (\<lambda>u. None) OtherMsg (sys_state sys_init) = (Reply unauthorized_reply, worker_init)"
    by (simp add: messageRouter_def sys_init_def)
  from step_reply [OF this] have "worker_step (\<lambda>u. None) sys_init ?s" by (simp add: sys_init_def)
  then have r: "worker_reach (\<lambda>u. None) ?s" by (rule worker_more [OF worker_start])
  from worker_confines_tokens [OF r] r show ?thesis by (intro exI [of _ ?s]) simp
qed

text \<open>
  once the worker has been initialised with a base URL, no message changes it.
\<close>

theorem worker_base_url_pinned:
  assumes "wk_allowedBaseUrl st = Some base"
  shows "wk_allowedBaseUrl (snd (messageRouter parse_url msg st)) = Some base"
  using router_allowed [of parse_url msg st] assms by (cases "messageRouter parse_url msg st") simp

theorem worker_base_url_pinned_witness:
  "wk_allowedBaseUrl (snd (messageRouter (\<lambda>u. Some \<lparr>url_origin = u, url_pathname = []\<rparr>) (InitMsg ''https://evil'')
     \<lparr>wk_refreshTokens = [], wk_allowedBaseUrl = Some ''https://t''\<rparr>)) = Some ''https://t''"
  by (rule worker_base_url_pinned) simp

lemma map_of_updateRefreshTokens:
  "map_of (updateRefreshTokens old new tokens) key =
     map_option (\<lambda>t. if Some t = old then new else t) (map_of tokens key)"
  by (simp add: updateRefreshTokens_def map_of_map)

text \<open>
  a rotated refresh token is stored under its audience and scope; with MRRT it also becomes
  the latest one and replaces the token that was spent in every entry that held it. No other
  entry changes.
\<close>

theorem worker_rotation:
  "map_of (store_token m old new tokens) key =
     (if key = wk_cacheKey (rm_audience m) (rm_scope m) then Some new
      else if \<not> rm_useMrrt m then map_of tokens key
      else if key = latest_key \<or> (old \<noteq> None \<and> map_of tokens key = old) then Some new
      else map_of tokens key)"
  by (cases "map_of tokens key")
    (auto simp: store_token_def setRefreshToken_def map_of_updateRefreshTokens Let_def)

lemma revoke_loop_tokens:
  "revoke_loop net m base ts tokens w = (r, tokens', w') \<Longrightarrow>
     \<exists>k \<le> length ts. tokens' = filter (\<lambda>(_, t). t \<notin> set (take k ts)) tokens \<and> (r = ReplyOk \<longrightarrow> k = length ts)"
proof (induction ts arbitrary: tokens w)
  case (Cons t ts)
  obtain out v where out: "net (vm_fetchUrl m) ((vm_fetchOptions m)\<lparr>fo_body :=
      Some (print_body (vm_useFormData m) (AList.update ''token'' (JStr t) base))\<rparr>) (vm_timeout m) w = (out, v)"
    by force
  show ?case
  proof (cases "\<exists>x. out = Response x \<and> rr_ok x")
    case True
    with Cons.prems out have "revoke_loop net m base ts (deleteRefreshTokensByValue t tokens) v = (r, tokens', w')"
      by (auto simp: Let_def)
    from Cons.IH [OF this] obtain k where k: "k \<le> length ts" "r = ReplyOk \<longrightarrow> k = length ts"
      "tokens' = filter (\<lambda>(_, t). t \<notin> set (take k ts)) (deleteRefreshTokensByValue t tokens)" by blast
    then show ?thesis
      by (intro exI [of _ "Suc k"]) (auto simp: deleteRefreshTokensByValue_def intro!: filter_cong)
  next
    case False
    with Cons.prems out have "tokens' = tokens \<and> r \<noteq> ReplyOk"
      by (auto simp: Let_def split: fetch_outcome.splits if_splits)
    then show ?thesis by (intro exI [of _ 0]) (simp add: case_prod_beta)
  qed
qed simp

text \<open>
  when the worker reports a revocation as done, its store has lost exactly the tokens of
  that audience, under every key that held one of them; none of the audience is left.
\<close>

theorem worker_revocation:
  assumes "revokeMessageHandler net m tokens w = (ReplyOk, tokens', w')"
  shows "tokens' = filter (\<lambda>(_, t). t \<notin> set (wk_getRefreshTokensByAudience (vm_audience m) tokens)) tokens \<and>
         wk_getRefreshTokensByAudience (vm_audience m) tokens' = []"
proof -
  let ?ts = "wk_getRefreshTokensByAudience (vm_audience m) tokens"
  have eq: "tokens' = filter (\<lambda>(_, t). t \<notin> set ?ts) tokens"
  proof (cases "?ts = []")
    case True
    with assms show ?thesis by (simp add: revokeMessageHandler_def case_prod_beta)
  next
    case False
    with assms obtain base where "revoke_loop net m base ?ts tokens w = (ReplyOk, tokens', w')"
      by (auto simp: revokeMessageHandler_def Let_def split: sum.splits)
    from revoke_loop_tokens [OF this] show ?thesis by auto
  qed
  have "wk_getRefreshTokensByAudience (vm_audience m) tokens' = []"
    unfolding eq by (force simp: wk_getRefreshTokensByAudience_def filter_empty_conv)
  with eq show ?thesis by blast
qed

theorem worker_revocation_witness:
  "wk_getRefreshTokensByAudience ''api''
     (fst (snd (revokeMessageHandler (\<lambda>_ _ _ w. (Response \<lparr>rr_status = 200, rr_ok = True, rr_headers = [], rr_text = []\<rparr>, w))
        \<lparr>vm_timeout = 1, vm_audience = ''api'', vm_fetchUrl = ''u'', vm_fetchOptions =
           \<lparr>fo_method = None, fo_body = None, fo_headers = []\<rparr>, vm_useFormData = True\<rparr>
        [(''api|read'', ''rt''), (''latest_refresh_token'', ''rt'')] ()))) = []"
  (is "wk_getRefreshTokensByAudience _ (fst (snd (revokeMessageHandler ?net ?m ?tokens ()))) = []")
proof -
  have ts: "wk_getRefreshTokensByAudience ''api'' ?tokens = [''rt'']" by code_simp
  have "\<exists>t. revokeMessageHandler ?net ?m ?tokens () = (ReplyOk, t, ())"
    by (simp add: revokeMessageHandler_def ts parse_body_def)
  then obtain t where t: "revokeMessageHandler ?net ?m ?tokens () = (ReplyOk, t, ())" ..
  from worker_revocation [OF t] have "wk_getRefreshTokensByAudience (vm_audience ?m) t = []" ..
  with t show ?thesis by (simp only: fst_conv snd_conv revoke_message.select_convs)
qed

text \<open>
  a request that asks not to store tokens (a token exchange that leaves the session alone)
  leaves the store as it is, whatever the server returns, and its reply carries no refresh token.
\<close>

theorem worker_skip_storage:
  assumes "rm_skipTokenStorage m"
  shows "snd (finish m old outcome tokens) = tokens \<and> reply_clean (fst (finish m old outcome tokens))"
  using assms finish_clean [of m old outcome tokens]
  by (simp add: finish_def Let_def split: fetch_outcome.split option.split)

theorem worker_skip_storage_witness:
  "snd (finish (sample_refresh\<lparr>rm_skipTokenStorage := True\<rparr>) None TimedOut [(''a|b'', ''rt'')]) = [(''a|b'', ''rt'')]"
  using worker_skip_storage [of "sample_refresh\<lparr>rm_skipTokenStorage := True\<rparr>" None TimedOut "[(''a|b'', ''rt'')]"]
  by simp

end
