(* ===== verification/Jwt.thy ===== *)
theory Jwt
  imports Utils CacheKey
begin

text \<open>
  \<open>src/jwt.ts\<close>: decoding an id token and verifying its claims. The signature is not verified by
  the SDK. Numbers in the token are integers below the range where a double loses precision. A
  date is a time value in milliseconds, \<^const>\<open>None\<close> for an invalid one; \<open>show_date\<close> stands for
  the platform's rendering of a date in the error texts.
\<close>

section \<open>decode\<close>

definition idTokendecoded :: "string list" where
  "idTokendecoded = [''iss'', ''aud'', ''exp'', ''nbf'', ''iat'', ''jti'', ''azp'', ''nonce'',
     ''auth_time'', ''at_hash'', ''c_hash'', ''acr'', ''amr'', ''sub_jwk'', ''cnf'', ''sip_from_tag'',
     ''sip_date'', ''sip_callid'', ''sip_cseq_num'', ''sip_via_branch'', ''orig'', ''dest'', ''mky'',
     ''events'', ''toe'', ''txn'', ''rph'', ''sid'', ''vot'', ''vtm'']"

record jwt_decoded =
  jd_encoded :: "string \<times> string \<times> string"
  jd_header :: json
  jd_claims :: "json obj"
  jd_user :: "json obj"

text \<open>The own properties of a JSON value (\<open>Object.keys\<close> with \<open>v[k]\<close>); \<open>null\<close> has none and throws.\<close>

fun own_properties :: "json \<Rightarrow> js_error + json obj" where
  "own_properties (JObj m) = Inr m"
| "own_properties (JArr vs) = Inr (zip (map show_nat [0..<length vs]) vs)"
| "own_properties (JStr s) = Inr (zip (map show_nat [0..<length s]) (map (\<lambda>c. JStr [c]) s))"
| "own_properties JNull = Inl (TypeErr ''Cannot convert undefined or null to object'')"
| "own_properties _ = Inr []"

definition parse_part :: "string \<Rightarrow> js_error + json" where
  "parse_part part = (case urlDecodeB64 part of
     None \<Rightarrow> Inl (Foreign None ''malformed base64url text'')
   | Some text \<Rightarrow> (case json_parse text of
        None \<Rightarrow> Inl (Foreign None ''malformed JSON text'')
      | Some v \<Rightarrow> Inr v))"

definition jwt_decode :: "string \<Rightarrow> js_error + jwt_decoded" where
  "jwt_decode token =
     (let parts = split_str ''.'' token;
          header = nth_opt parts 0; payload = nth_opt parts 1; signature = nth_opt parts 2
      in if length parts \<noteq> 3 \<or> \<not> truthy header \<or> \<not> truthy payload \<or> \<not> truthy signature
         then Inl (PlainError ''ID token could not be decoded'')
         else (case parse_part (the payload) of
            Inl e \<Rightarrow> Inl e
          | Inr payloadJSON \<Rightarrow> (case own_properties payloadJSON of
               Inl e \<Rightarrow> Inl e
             | Inr props \<Rightarrow> (case parse_part (the header) of
                  Inl e \<Rightarrow> Inl e
                | Inr h \<Rightarrow>
                    Inr \<lparr>jd_encoded = (the header, the payload, the signature), jd_header = h,
                         jd_claims = obj_spread [(''__raw'', JStr token)] props,
                         jd_user = filter (\<lambda>(k, v). k \<notin> set idTokendecoded) props\<rparr>))))"

section \<open>verify\<close>

record jwt_options =
  jo_iss :: string
  jo_aud :: string
  jo_id_token :: "string option"
  jo_nonce :: "string option"
  jo_leeway :: "int option"
  jo_max_age :: "json option"
  jo_organization :: "string option"
  jo_now :: "int option"

definition time_clip :: "int \<Rightarrow> int option" where
  "time_clip ms = (if \<bar>ms\<bar> \<le> 8640000000000000 then Some ms else None)"

text \<open>\<open>new Date(0).setUTCSeconds(n)\<close>, for \<open>n\<close> a number or NaN.\<close>

definition utc_seconds :: "int option \<Rightarrow> int option" where
  "utc_seconds n = Option.bind n (\<lambda>k. time_clip (k * 1000))"

definition date_less :: "int option \<Rightarrow> int option \<Rightarrow> bool" where
  "date_less a b = (case (a, b) of (Some x, Some y) \<Rightarrow> x < y | _ \<Rightarrow> False)"

definition or_number :: "int option \<Rightarrow> int \<Rightarrow> int" where
  "or_number v d = (case v of None \<Rightarrow> d | Some n \<Rightarrow> if n = 0 then d else n)"

text \<open>\<open>max_age\<close> as an operand of \<open>+\<close>: \<open>undefined\<close> is NaN.\<close>

definition max_age_number :: "json option \<Rightarrow> int option" where
  "max_age_number v = (case v of Some (JNum n) \<Rightarrow> Some n | Some JNull \<Rightarrow> Some 0
     | Some (JBool b) \<Rightarrow> Some (if b then 1 else 0) | _ \<Rightarrow> None)"

definition claim_num :: "json obj \<Rightarrow> string \<Rightarrow> int option" where
  "claim_num claims k = (case map_of claims k of Some (JNum n) \<Rightarrow> Some n | _ \<Rightarrow> None)"

definition claim_text :: "json obj \<Rightarrow> string \<Rightarrow> string" where
  "claim_text claims k = (case map_of claims k of None \<Rightarrow> ''undefined'' | Some v \<Rightarrow> js_to_string v)"

definition dq :: "string \<Rightarrow> string" where
  "dq s = [CHR 0x22] @ s @ [CHR 0x22]"

definition exp_failed :: "json obj \<Rightarrow> int \<Rightarrow> int option \<Rightarrow> bool" where
  "exp_failed claims leeway now =
     date_less (utc_seconds (map_option (\<lambda>e. e + leeway) (claim_num claims ''exp''))) now"

definition nbf_failed :: "json obj \<Rightarrow> int \<Rightarrow> int option \<Rightarrow> bool" where
  "nbf_failed claims leeway now =
     (case claim_num claims ''nbf'' of None \<Rightarrow> False
      | Some n \<Rightarrow> date_less now (utc_seconds (Some (n - leeway))))"

definition auth_date :: "json obj \<Rightarrow> int \<Rightarrow> json option \<Rightarrow> int option" where
  "auth_date claims leeway max_age =
     (case (claim_num claims ''auth_time'', max_age_number max_age) of
        (Some a, Some m) \<Rightarrow> utc_seconds (Some (a + m + leeway)) | _ \<Rightarrow> None)"

definition auth_time_failed :: "json obj \<Rightarrow> int \<Rightarrow> json option \<Rightarrow> int option \<Rightarrow> bool" where
  "auth_time_failed claims leeway max_age now =
     (claim_num claims ''auth_time'' \<noteq> None \<and> date_less (auth_date claims leeway max_age) now)"

definition verify_aud :: "json obj \<Rightarrow> string \<Rightarrow> js_error option" where
  "verify_aud claims aud = (case map_of claims ''aud'' of
     Some (JArr vs) \<Rightarrow>
       if JStr aud \<notin> set vs then Some (PlainError (''Audience (aud) claim mismatch in the ID token; expected '' @
            dq aud @ '' but was not one of '' @ dq (join '', '' (map js_to_string vs))))
       else if length vs > 1 then
         (if \<not> json_truthy (map_of claims ''azp'') then Some (PlainError
            (''Authorized Party (azp) claim must be a string present in the ID token when '' @
             ''Audience (aud) claim has multiple values''))
          else if map_of claims ''azp'' \<noteq> Some (JStr aud) then Some (PlainError
            (''Authorized Party (azp) claim mismatch in the ID token; expected '' @ dq aud @ '', found '' @
             dq (claim_text claims ''azp'')))
          else None)
       else None
   | Some (JStr s) \<Rightarrow>
       if s = [] then Some (PlainError
         ''Audience (aud) claim must be a string or array of strings present in the ID token'')
       else if s \<noteq> aud then Some (PlainError (''Audience (aud) claim mismatch in the ID token; expected '' @
            dq aud @ '' but found '' @ dq s))
       else None
   | _ \<Rightarrow> Some (PlainError
       ''Audience (aud) claim must be a string or array of strings present in the ID token''))"

definition verify_organization :: "json obj \<Rightarrow> string \<Rightarrow> js_error option" where
  "verify_organization claims organization =
     (let org = trim organization in
      if starts_with org ''org_'' then
        (if \<not> json_truthy (map_of claims ''org_id'') then Some (PlainError
           ''Organization ID (org_id) claim must be a string present in the ID token'')
         else if map_of claims ''org_id'' \<noteq> Some (JStr org) then Some (PlainError
           (''Organization ID (org_id) claim mismatch in the ID token; expected '' @ dq org @ '', found '' @
            dq (claim_text claims ''org_id'')))
         else None)
      else
        (let orgName = to_lower org in
         if \<not> json_truthy (map_of claims ''org_name'') then Some (PlainError
           ''Organization Name (org_name) claim must be a string present in the ID token'')
         else if map_of claims ''org_name'' \<noteq> Some (JStr orgName) then Some (PlainError
           (''Organization Name (org_name) claim mismatch in the ID token; expected '' @ dq orgName @
            '', found '' @ dq (claim_text claims ''org_name'')))
         else None))"

definition verify_nonce :: "json obj \<Rightarrow> string \<Rightarrow> js_error option" where
  "verify_nonce claims nonce =
     (if \<not> json_truthy (map_of claims ''nonce'') then Some (PlainError
        ''Nonce (nonce) claim must be a string present in the ID token'')
      else if map_of claims ''nonce'' \<noteq> Some (JStr nonce) then Some (PlainError
        (''Nonce (nonce) claim mismatch in the ID token; expected '' @ dq nonce @ '', found '' @
         dq (claim_text claims ''nonce'')))
      else None)"

text \<open>The checks on the times, with \<open>clock\<close> the value of \<open>Date.now()\<close>.\<close>

definition verify_times :: "(int option \<Rightarrow> string) \<Rightarrow> int \<Rightarrow> jwt_options \<Rightarrow> json obj \<Rightarrow> js_error option" where
  "verify_times show_date clock options claims =
     (let leeway = or_number (jo_leeway options) 60;
          now = time_clip (or_number (jo_now options) clock)
      in if exp_failed claims leeway now then Some (PlainError
           (''Expiration Time (exp) claim error in the ID token; current time ('' @ show_date now @
            '') is after expiration time ('' @
            show_date (utc_seconds (map_option (\<lambda>e. e + leeway) (claim_num claims ''exp''))) @ '')''))
         else if nbf_failed claims leeway now then Some (PlainError
           (''Not Before time (nbf) claim in the ID token indicates that this token can'' @ [CHR 0x27] @
            ''t be used just yet. Current time ('' @ show_date now @ '') is before '' @
            show_date (utc_seconds (map_option (\<lambda>n. n - leeway) (claim_num claims ''nbf'')))))
         else if auth_time_failed claims leeway (jo_max_age options) now then Some (PlainError
           (''Authentication Time (auth_time) claim in the ID token indicates that too much time has '' @
            ''passed since the last end-user authentication. Current time ('' @ show_date now @
            '') is after last auth at '' @ show_date (auth_date claims leeway (jo_max_age options))))
         else None)"

definition verify_claims :: "(int option \<Rightarrow> string) \<Rightarrow> int \<Rightarrow> jwt_options \<Rightarrow> jwt_decoded \<Rightarrow> js_error option" where
  "verify_claims show_date clock options decoded =
     (let claims = jd_claims decoded in
      if \<not> json_truthy (map_of claims ''iss'') then Some (PlainError
        ''Issuer (iss) claim must be a string present in the ID token'')
      else if map_of claims ''iss'' \<noteq> Some (JStr (jo_iss options)) then Some (PlainError
        (''Issuer (iss) claim mismatch in the ID token; expected '' @ dq (jo_iss options) @ '', found '' @
         dq (claim_text claims ''iss'')))
      else if \<not> json_truthy (map_of (jd_user decoded) ''sub'') then Some (PlainError
        ''Subject (sub) claim must be a string present in the ID token'')
      else if jd_header decoded = JNull then Some (TypeErr ''Cannot read properties of null'')
      else if json_get (jd_header decoded) ''alg'' \<noteq> Some (JStr ''RS256'') then Some (PlainError
        (''Signature algorithm of '' @
         dq (case json_get (jd_header decoded) ''alg'' of None \<Rightarrow> ''undefined'' | Some v \<Rightarrow> js_to_string v) @
         '' is not supported. Expected the ID token to be signed with '' @ dq ''RS256'' @ ''.''))
      else case verify_aud claims (jo_aud options) of Some e \<Rightarrow> Some e | None \<Rightarrow>
        case (if truthy (jo_nonce options) then verify_nonce claims (the (jo_nonce options)) else None) of
          Some e \<Rightarrow> Some e
        | None \<Rightarrow>
            if \<not> json_nullish (jo_max_age options) \<and> \<not> json_is_num (map_of claims ''auth_time'') then
              Some (PlainError (''Authentication Time (auth_time) claim must be a number present in the '' @
                ''ID token when Max Age (max_age) is specified''))
            else if \<not> json_is_num (map_of claims ''exp'') then Some (PlainError
              ''Expiration Time (exp) claim must be a number present in the ID token'')
            else if \<not> json_is_num (map_of claims ''iat'') then Some (PlainError
              ''Issued At (iat) claim must be a number present in the ID token'')
            else case verify_times show_date clock options claims of Some e \<Rightarrow> Some e | None \<Rightarrow>
              if truthy (jo_organization options)
              then verify_organization claims (the (jo_organization options)) else None)"

definition verify :: "(int option \<Rightarrow> string) \<Rightarrow> int \<Rightarrow> jwt_options \<Rightarrow> js_error + jwt_decoded" where
  "verify show_date clock options =
     (if \<not> truthy (jo_id_token options) then Inl (PlainError ''ID token is required but missing'')
      else (case jwt_decode (the (jo_id_token options)) of
         Inl e \<Rightarrow> Inl e
       | Inr decoded \<Rightarrow> (case verify_claims show_date clock options decoded of
            Some e \<Rightarrow> Inl e
          | None \<Rightarrow> Inr decoded)))"

section \<open>What a verified token satisfies\<close>

text \<open>The specification, written without the order of the checks.\<close>

definition aud_ok :: "json obj \<Rightarrow> string \<Rightarrow> bool" where
  "aud_ok claims aud \<longleftrightarrow>
     (\<exists>vs. map_of claims ''aud'' = Some (JArr vs) \<and> JStr aud \<in> set vs \<and>
        (length vs > 1 \<longrightarrow> aud \<noteq> [] \<and> map_of claims ''azp'' = Some (JStr aud))) \<or>
     (aud \<noteq> [] \<and> map_of claims ''aud'' = Some (JStr aud))"

definition org_ok :: "json obj \<Rightarrow> string \<Rightarrow> bool" where
  "org_ok claims organization \<longleftrightarrow>
     (let org = trim organization in
      if starts_with org ''org_'' then map_of claims ''org_id'' = Some (JStr org)
      else to_lower org \<noteq> [] \<and> map_of claims ''org_name'' = Some (JStr (to_lower org)))"

text \<open>A time in seconds that a \<open>Date\<close> can hold; one that it cannot makes no check fail.\<close>

definition date_range :: "int \<Rightarrow> bool" where
  "date_range seconds \<longleftrightarrow> \<bar>seconds * 1000\<bar> \<le> 8640000000000000"

definition times_ok :: "json obj \<Rightarrow> int \<Rightarrow> json option \<Rightarrow> int \<Rightarrow> bool" where
  "times_ok claims leeway max_age now \<longleftrightarrow>
     (\<forall>e. claim_num claims ''exp'' = Some e \<longrightarrow> date_range (e + leeway) \<longrightarrow> now \<le> (e + leeway) * 1000) \<and>
     (\<forall>n. claim_num claims ''nbf'' = Some n \<longrightarrow> date_range (n - leeway) \<longrightarrow> (n - leeway) * 1000 \<le> now) \<and>
     (\<forall>a m. claim_num claims ''auth_time'' = Some a \<longrightarrow> max_age_number max_age = Some m \<longrightarrow>
        date_range (a + m + leeway) \<longrightarrow> now \<le> (a + m + leeway) * 1000)"

definition id_token_ok :: "int \<Rightarrow> jwt_options \<Rightarrow> jwt_decoded \<Rightarrow> bool" where
  "id_token_ok clock options d \<longleftrightarrow>
     jo_iss options \<noteq> [] \<and> map_of (jd_claims d) ''iss'' = Some (JStr (jo_iss options)) \<and>
     json_truthy (map_of (jd_user d) ''sub'') \<and>
     json_get (jd_header d) ''alg'' = Some (JStr ''RS256'') \<and>
     aud_ok (jd_claims d) (jo_aud options) \<and>
     (truthy (jo_nonce options) \<longrightarrow> map_of (jd_claims d) ''nonce'' = Some (JStr (the (jo_nonce options)))) \<and>
     (json_nullish (jo_max_age options) \<or> json_is_num (map_of (jd_claims d) ''auth_time'')) \<and>
     json_is_num (map_of (jd_claims d) ''exp'') \<and> json_is_num (map_of (jd_claims d) ''iat'') \<and>
     pred_option (times_ok (jd_claims d) (or_number (jo_leeway options) 60) (jo_max_age options))
       (time_clip (or_number (jo_now options) clock)) \<and>
     (truthy (jo_organization options) \<longrightarrow> org_ok (jd_claims d) (the (jo_organization options)))"

lemma json_truthy_JStr [simp]: "json_truthy (Some (JStr t)) = (t \<noteq> [])"
  by (simp add: json_truthy_def)

lemma json_truthy_None [simp]: "\<not> json_truthy None"
  by (simp add: json_truthy_def)

lemma verify_aud_iff: "verify_aud claims aud = None \<longleftrightarrow> aud_ok claims aud"
  by (auto simp: verify_aud_def aud_ok_def split: option.splits json.splits if_splits)

lemma starts_with_org: "starts_with t ''org_'' \<Longrightarrow> t \<noteq> []"
  by (auto simp: starts_with_def)

lemma verify_organization_iff: "verify_organization claims org = None \<longleftrightarrow> org_ok claims org"
  by (auto simp: verify_organization_def org_ok_def Let_def dest: starts_with_org split: if_splits)

lemma verify_nonce_iff:
  "t \<noteq> [] \<Longrightarrow> verify_nonce claims t = None \<longleftrightarrow> map_of claims ''nonce'' = Some (JStr t)"
  by (auto simp: verify_nonce_def)

lemma utc_seconds_Some: "utc_seconds (Some n) = (if date_range n then Some (n * 1000) else None)"
  by (simp add: utc_seconds_def time_clip_def date_range_def)

lemma verify_times_iff:
  "verify_times show_date clock options claims = None \<longleftrightarrow>
     pred_option (times_ok claims (or_number (jo_leeway options) 60) (jo_max_age options))
       (time_clip (or_number (jo_now options) clock))"
proof (cases "time_clip (or_number (jo_now options) clock)")
  case None
  then show ?thesis
    by (auto simp: verify_times_def Let_def exp_failed_def nbf_failed_def auth_time_failed_def
        date_less_def split: option.splits)
next
  case (Some t)
  let ?l = "or_number (jo_leeway options) 60"
  have e: "exp_failed claims ?l (Some t) \<longleftrightarrow>
      \<not> (\<forall>e. claim_num claims ''exp'' = Some e \<longrightarrow> date_range (e + ?l) \<longrightarrow> t \<le> (e + ?l) * 1000)"
    by (cases "claim_num claims ''exp''")
      (auto simp: exp_failed_def date_less_def utc_seconds_Some, simp add: utc_seconds_def)
  have n: "nbf_failed claims ?l (Some t) \<longleftrightarrow>
      \<not> (\<forall>n. claim_num claims ''nbf'' = Some n \<longrightarrow> date_range (n - ?l) \<longrightarrow> (n - ?l) * 1000 \<le> t)"
    by (cases "claim_num claims ''nbf''") (auto simp: nbf_failed_def date_less_def utc_seconds_Some)
  have a: "auth_time_failed claims ?l (jo_max_age options) (Some t) \<longleftrightarrow>
      \<not> (\<forall>a m. claim_num claims ''auth_time'' = Some a \<longrightarrow> max_age_number (jo_max_age options) = Some m \<longrightarrow>
          date_range (a + m + ?l) \<longrightarrow> t \<le> (a + m + ?l) * 1000)"
    by (cases "claim_num claims ''auth_time''"; cases "max_age_number (jo_max_age options)")
      (auto simp: auth_time_failed_def auth_date_def date_less_def utc_seconds_Some)
  show ?thesis
    unfolding verify_times_def Let_def Some e n a by (simp add: times_ok_def)
qed

lemma first_error:
  "(case x of Some e \<Rightarrow> Some e | None \<Rightarrow> y) = None \<longleftrightarrow> x = None \<and> y = None"
  "(if c then Some e else y) = None \<longleftrightarrow> \<not> c \<and> y = None"
  "(if c then x else None) = None \<longleftrightarrow> (c \<longrightarrow> x = None)"
  by (simp_all split: option.split)

lemma verify_claims_iff:
  "verify_claims show_date clock options d = None \<longleftrightarrow> id_token_ok clock options d"
proof -
  have nonce: "(truthy (jo_nonce options) \<longrightarrow> verify_nonce (jd_claims d) (the (jo_nonce options)) = None)
      \<longleftrightarrow> (truthy (jo_nonce options) \<longrightarrow> map_of (jd_claims d) ''nonce'' = Some (JStr (the (jo_nonce options))))"
    using verify_nonce_iff by (cases "jo_nonce options") auto
  have alg: "\<not> jd_header d = JNull \<and> \<not> json_get (jd_header d) ''alg'' \<noteq> Some (JStr ''RS256'') \<longleftrightarrow>
      json_get (jd_header d) ''alg'' = Some (JStr ''RS256'')"
    by (auto simp: json_get_def)
  have iss: "\<not> \<not> json_truthy (map_of (jd_claims d) ''iss'') \<and> \<not> map_of (jd_claims d) ''iss'' \<noteq> Some (JStr (jo_iss options)) \<longleftrightarrow>
      jo_iss options \<noteq> [] \<and> map_of (jd_claims d) ''iss'' = Some (JStr (jo_iss options))"
    by auto
  show ?thesis
    unfolding verify_claims_def Let_def first_error verify_aud_iff verify_times_iff
      verify_organization_iff nonce id_token_ok_def
    using alg iss by blast
qed

text \<open>
  C5: an id token is accepted exactly when it decodes and satisfies the whole specification:
  the issuer, a subject, RS256, an audience that is the client (with the authorized party for
  several), the nonce of the login, an expiry, not-before and authentication time within the
  leeway, and the organization asked for.
\<close>

theorem verify_accepts_iff:
  "verify show_date clock options = Inr d \<longleftrightarrow>
     truthy (jo_id_token options) \<and> jwt_decode (the (jo_id_token options)) = Inr d \<and>
     id_token_ok clock options d"
  using verify_claims_iff [of show_date clock options d]
  by (auto simp: verify_def split: sum.splits option.splits)

section \<open>Decoding what an issuer encodes\<close>

lemma utf8_encode_Nil: "utf8_encode s = [] \<longleftrightarrow> s = []"
  by (cases s) (simp_all add: utf8_encode_def utf8_char_def Let_def)

lemma to_sextets_Nil: "to_sextets bs = [] \<longleftrightarrow> bs = []"
  by (cases bs rule: to_sextets.cases) simp_all

definition jwt_part :: "string \<Rightarrow> string" where
  "jwt_part text = bufferToBase64UrlEncoded (utf8_encode text)"

lemma utf8_bytes: "\<forall>b \<in> set (utf8_encode s). b < 256"
  using utf8_encode_bound by blast

lemma jwt_part_dot: "CHR ''.'' \<notin> set (jwt_part text)"
proof -
  have "CHR ''.'' \<notin> url_char ` set b64_alphabet"
    by (simp add: url_char_def b64_alphabet_def)
  moreover have "b64_char n \<in> set b64_alphabet" if "n < 64" for n
    using that by (simp add: b64_char_def length_b64_alphabet)
  ultimately show ?thesis
    using to_sextets_bound [OF utf8_bytes] by (auto simp: jwt_part_def bufferToBase64_chars [OF utf8_bytes])
qed

lemma jwt_part_Nil: "jwt_part text = [] \<longleftrightarrow> text = []"
  by (simp add: jwt_part_def bufferToBase64_chars [OF utf8_bytes] to_sextets_Nil utf8_encode_Nil)

lemma parse_jwt_part: "json_wf v \<Longrightarrow> parse_part (jwt_part (stringify v)) = Inr v"
  by (simp add: parse_part_def jwt_part_def urlDecode_buffer [OF utf8_bytes] utf8_decode_encode
      json_parse_stringify)

lemma jwt_decode_token:
  assumes "json_wf header" and "json_wf (JObj props)" and "signature \<noteq> []" and "CHR ''.'' \<notin> set signature"
    and "token = join ''.'' [jwt_part (stringify header), jwt_part (stringify (JObj props)), signature]"
  shows "jwt_decode token = Inr
    \<lparr>jd_encoded = (jwt_part (stringify header), jwt_part (stringify (JObj props)), signature),
     jd_header = header, jd_claims = obj_spread [(''__raw'', JStr token)] props,
     jd_user = filter (\<lambda>(k, v). k \<notin> set idTokendecoded) props\<rparr>"
proof -
  let ?parts = "[jwt_part (stringify header), jwt_part (stringify (JObj props)), signature]"
  have "split_str ''.'' token = ?parts"
    unfolding assms(5) by (rule split_str_join) (use assms(4) jwt_part_dot in auto)
  moreover have "truthy (Some (jwt_part (stringify v)))" for v
    by (simp add: jwt_part_Nil stringify_not_Nil)
  moreover have "nth_opt ?parts 0 = Some (jwt_part (stringify header))"
    "nth_opt ?parts 1 = Some (jwt_part (stringify (JObj props)))" "nth_opt ?parts 2 = Some signature"
    by (simp_all add: nth_opt_def)
  moreover have "parse_part (jwt_part (stringify header)) = Inr header"
    "parse_part (jwt_part (stringify (JObj props))) = Inr (JObj props)"
    by (rule parse_jwt_part [OF assms(1)], rule parse_jwt_part [OF assms(2)])
  ultimately show ?thesis
    using assms(3) by (simp add: jwt_decode_def del: json_wf.simps stringify.simps)
qed

text \<open>
  C39: a token of the form an issuer produces (header and payload as base64url of their JSON)
  decodes to that header, to all the payload's properties as claims, and to those that are no
  registered token claims as the user.
\<close>

theorem jwt_decode_issued:
  assumes "json_wf header" and "json_wf (JObj props)" and "signature \<noteq> []" and "CHR ''.'' \<notin> set signature"
    and "token = join ''.'' [jwt_part (stringify header), jwt_part (stringify (JObj props)), signature]"
  shows "jwt_decode token = Inr
    \<lparr>jd_encoded = (jwt_part (stringify header), jwt_part (stringify (JObj props)), signature),
     jd_header = header, jd_claims = obj_spread [(''__raw'', JStr token)] props,
     jd_user = filter (\<lambda>(k, v). k \<notin> set idTokendecoded) props\<rparr>"
  using assms by (rule jwt_decode_token)

theorem jwt_decode_issued_witness:
  "\<exists>d. jwt_decode (join ''.'' [jwt_part (stringify (JObj [(''alg'', JStr ''RS256'')])),
      jwt_part (stringify (JObj [(''iss'', JStr ''https://t/''), (''sub'', JStr ''u1'')])), ''sig'']) = Inr d \<and>
    jd_user d = [(''sub'', JStr ''u1'')]"
proof -
  let ?h = "JObj [(''alg'', JStr ''RS256'')]" and ?p = "[(''iss'', JStr ''https://t/''), (''sub'', JStr ''u1'')]"
  have "json_wf ?h" "json_wf (JObj ?p)" by simp_all
  moreover have "filter (\<lambda>(k, v). k \<notin> set idTokendecoded) ?p = [(''sub'', JStr ''u1'')]"
    by (simp add: idTokendecoded_def)
  ultimately show ?thesis
    using jwt_decode_issued [of ?h ?p "''sig''", OF _ _ _ _ refl] by simp
qed

end
