(* ===== verification/Http.thy ===== *)
theory Http
  imports Worker Dpop Jwt
begin

text \<open>
  \<open>src/http.ts\<close> and \<open>src/api.ts\<close>: the JSON request with its retries and its mapping of error
  responses, and the two endpoints built on it. The state \<open>'s\<close> is the caller's; what the
  functions need of it comes in two records: \<open>http_ops\<close> (the request under a timer, and the
  message to the worker when there is one) and \<open>dpop_ops\<close>.
\<close>

definition DEFAULT_FETCH_TIMEOUT_MS :: int where
  "DEFAULT_FETCH_TIMEOUT_MS = 10000"

definition DEFAULT_SILENT_TOKEN_RETRY_COUNT :: nat where
  "DEFAULT_SILENT_TOKEN_RETRY_COUNT = 3"

definition DEFAULT_AUTH0_CLIENT :: "json obj" where
  "DEFAULT_AUTH0_CLIENT = [(''name'', JStr ''auth0-spa-js''), (''version'', JStr ''2.30.0'')]"

record 's http_ops =
  ho_fetch :: "string \<Rightarrow> fetch_options \<Rightarrow> int \<Rightarrow> ('s, js_error, fetch_outcome) act"
  ho_worker :: "(worker_message \<Rightarrow> ('s, js_error, worker_reply) act) option"

record 's dpop_ops =
  do_generateProof :: "string \<Rightarrow> string \<Rightarrow> string option \<Rightarrow> ('s, js_error, string) act"
  do_getNonce :: "('s, js_error, string option) act"
  do_setNonce :: "string \<Rightarrow> ('s, js_error, unit) act"

record fetch_response =
  fr_ok :: bool
  fr_json :: json
  fr_headers :: "string obj"

section \<open>One request\<close>

definition timeout_error :: js_error where
  "timeout_error = PlainError (''Timeout when executing '' @ [CHR 0x27] @ ''fetch'' @ [CHR 0x27])"

definition fetchWithTimeout ::
  "'s http_ops \<Rightarrow> string \<Rightarrow> fetch_options \<Rightarrow> int \<Rightarrow> ('s, js_error, raw_response) act" where
  "fetchWithTimeout ops fetchUrl fetchOptions timeout =
     andThen (ho_fetch ops fetchUrl fetchOptions timeout) (\<lambda>outcome. case outcome of
       Response r \<Rightarrow> ret r
     | NetworkError msg \<Rightarrow> throw (Foreign None msg)
     | TimedOut \<Rightarrow> throw timeout_error)"

definition fetchWithoutWorker ::
  "'s http_ops \<Rightarrow> string \<Rightarrow> fetch_options \<Rightarrow> int \<Rightarrow> ('s, js_error, fetch_response) act" where
  "fetchWithoutWorker ops fetchUrl fetchOptions timeout =
     andThen (fetchWithTimeout ops fetchUrl fetchOptions timeout) (\<lambda>response.
       case json_parse (rr_text response) of
         None \<Rightarrow> throw (Foreign None ''JSON.parse: unexpected token'')
       | Some json \<Rightarrow> ret \<lparr>fr_ok = rr_ok response, fr_json = json,
                           fr_headers = fromEntries (rr_headers response)\<rparr>)"

text \<open>What a caller of the token endpoint passes along.\<close>

record token_call =
  tc_audience :: string
  tc_scope :: string
  tc_useFormData :: bool
  tc_timeout :: "int option"
  tc_useMrrt :: bool
  tc_skipTokenStorage :: bool
  tc_preserveRefreshToken :: bool

definition resolved_timeout :: "token_call \<Rightarrow> int" where
  "resolved_timeout c = (case tc_timeout c of None \<Rightarrow> DEFAULT_FETCH_TIMEOUT_MS | Some t \<Rightarrow> t)"

text \<open>A reply without \<open>json\<close> fails when the caller takes it apart.\<close>

definition reply_response :: "worker_reply \<Rightarrow> js_error + fetch_response" where
  "reply_response r = (case r of
     ReplyJson ok json headers \<Rightarrow> Inr \<lparr>fr_ok = ok, fr_json = json, fr_headers = headers\<rparr>
   | _ \<Rightarrow> Inr \<lparr>fr_ok = True, fr_json = JNull, fr_headers = []\<rparr>)"

definition fetchWithWorker ::
  "(worker_message \<Rightarrow> ('s, js_error, worker_reply) act) \<Rightarrow> string \<Rightarrow> fetch_options \<Rightarrow> token_call
     \<Rightarrow> ('s, js_error, fetch_response) act" where
  "fetchWithWorker send fetchUrl fetchOptions c =
     andThen (send (RefreshMsg \<lparr>rm_timeout = resolved_timeout c, rm_audience = tc_audience c,
        rm_scope = tc_scope c, rm_fetchUrl = fetchUrl, rm_fetchOptions = fetchOptions,
        rm_useFormData = tc_useFormData c, rm_useMrrt = tc_useMrrt c,
        rm_skipTokenStorage = tc_skipTokenStorage c,
        rm_preserveRefreshToken = tc_preserveRefreshToken c\<rparr>))
       (\<lambda>reply. case reply_response reply of Inl e \<Rightarrow> throw e | Inr r \<Rightarrow> ret r)"

definition switchFetch ::
  "'s http_ops \<Rightarrow> string \<Rightarrow> fetch_options \<Rightarrow> token_call \<Rightarrow> ('s, js_error, fetch_response) act" where
  "switchFetch ops fetchUrl fetchOptions c = (case ho_worker ops of
     Some send \<Rightarrow> fetchWithWorker send fetchUrl fetchOptions c
   | None \<Rightarrow> fetchWithoutWorker ops fetchUrl fetchOptions (resolved_timeout c))"

section \<open>getJSON\<close>

text \<open>The loop: \<open>k\<close> more attempts are made while the previous one threw.\<close>

fun fetch_attempts :: "('s, js_error, 'a) act \<Rightarrow> nat \<Rightarrow> ('s, js_error, 'a) act" where
  "fetch_attempts m 0 = m"
| "fetch_attempts m (Suc k) = catching m (\<lambda>_. fetch_attempts m k)"

definition json_text :: "json option \<Rightarrow> string option" where
  "json_text v = (if json_truthy v then map_option js_to_string v else None)"

definition types_of :: "json option \<Rightarrow> string list option" where
  "types_of v = (case v of
     Some (JArr vs) \<Rightarrow> Some (map (\<lambda>x. or_default (json_str (json_get x ''type'')) []) vs)
   | _ \<Rightarrow> None)"

definition requirements_of :: "json option \<Rightarrow> mfa_requirements option" where
  "requirements_of v = (case v of
     Some (JObj m) \<Rightarrow> Some \<lparr>req_enroll = types_of (map_of m ''enroll''), req_challenge = types_of (map_of m ''challenge'')\<rparr>
   | _ \<Rightarrow> None)"

definition response_data :: "json obj \<Rightarrow> json obj" where
  "response_data m = filter (\<lambda>(k, v). k \<noteq> ''error'' \<and> k \<noteq> ''error_description'') m"

text \<open>The error of a response that is not ok; \<open>None\<close> is \<open>use_dpop_nonce\<close>, decided by the caller.\<close>

definition response_error :: "string \<Rightarrow> token_call \<Rightarrow> json obj \<Rightarrow> js_error option" where
  "response_error url c m =
     (let error = map_of m ''error'';
          data = response_data m;
          errorMessage = (case json_text (map_of m ''error_description'') of Some d \<Rightarrow> d
                          | None \<Rightarrow> ''HTTP error. Unable to fetch '' @ url)
      in if error = Some (JStr ''mfa_required'') then
           Some (MfaRequiredError ''mfa_required'' errorMessage (json_str (map_of data ''mfa_token''))
             (requirements_of (map_of data ''mfa_requirements'')))
         else if error = Some (JStr ''missing_refresh_token'') then
           Some (MissingRefreshTokenError (Some (tc_audience c)) (Some (tc_scope c)))
         else if error = Some (JStr ''use_dpop_nonce'') then None
         else Some (GenericError (case json_text error of Some e \<Rightarrow> e | None \<Rightarrow> ''request_error'')
                errorMessage (Some (JObj data))))"

text \<open>Everything after the request, with \<open>retry\<close> the repeated call.\<close>

definition handle_response ::
  "'s dpop_ops option \<Rightarrow> string \<Rightarrow> token_call \<Rightarrow> bool \<Rightarrow> ('s, js_error, json obj) act \<Rightarrow> fetch_response
     \<Rightarrow> ('s, js_error, json obj) act" where
  "handle_response dpop url c isDpopRetry retry response =
     (case own_properties (fr_json response) of
        Inl e \<Rightarrow> throw e
      | Inr m \<Rightarrow>
          (let newDpopNonce = (case dpop of None \<Rightarrow> None
                 | Some _ \<Rightarrow> or_undefined (map_of (fr_headers response) DPOP_NONCE_HEADER))
           in andNext (case (dpop, newDpopNonce) of
                (Some d, Some n) \<Rightarrow> do_setNonce d n | _ \<Rightarrow> ret ())
              (if fr_ok response then ret (response_data m)
               else (case response_error url c m of
                  Some e \<Rightarrow> throw e
                | None \<Rightarrow>
                    if dpop = None \<or> newDpopNonce = None \<or> isDpopRetry
                    then throw (UseDpopNonceError newDpopNonce)
                    else retry))))"

text \<open>The proof goes into the headers of the options, which a repeated call finds there.\<close>

definition with_proof ::
  "'s dpop_ops option \<Rightarrow> string \<Rightarrow> fetch_options \<Rightarrow> ('s, js_error, fetch_options) act" where
  "with_proof dpop url options = (case dpop of
     None \<Rightarrow> ret options
   | Some d \<Rightarrow>
       andThen (do_getNonce d) (\<lambda>nonce.
       andThen (do_generateProof d url (or_default (fo_method options) ''GET'') nonce) (\<lambda>dpopProof.
         ret (options\<lparr>fo_headers := AList.update ''dpop'' dpopProof (fo_headers options)\<rparr>))))"

function getJSON ::
  "'s http_ops \<Rightarrow> 's dpop_ops option \<Rightarrow> string \<Rightarrow> fetch_options \<Rightarrow> token_call \<Rightarrow> bool
     \<Rightarrow> ('s, js_error, json obj) act" where
  "getJSON ops dpop url options c isDpopRetry =
     andThen (with_proof dpop url options) (\<lambda>options'.
     andThen (fetch_attempts (switchFetch ops url options' c) (DEFAULT_SILENT_TOKEN_RETRY_COUNT - 1))
       (handle_response dpop url c isDpopRetry
          (if isDpopRetry then throw (UseDpopNonceError None)
           else getJSON ops dpop url options' c True)))"
  by pat_completeness auto
termination by (relation "measure (\<lambda>(_, _, _, _, _, r). if r then 0 else 1)") auto

declare getJSON.simps [simp del]

section \<open>oauthToken\<close>

record token_endpoint_options =
  te_baseUrl :: string
  te_timeout :: "int option"
  te_audience :: "string option"
  te_scope :: "string option"
  te_auth0Client :: "json obj option"
  te_useFormData :: bool
  te_useMrrt :: bool
  te_preserveRefreshToken :: bool
  te_options :: params

definition opt_str :: "params \<Rightarrow> string \<Rightarrow> string option" where
  "opt_str ps k = json_str (Option.bind (map_of ps k) id)"

definition auth0_client_header :: "json obj option \<Rightarrow> string" where
  "auth0_client_header auth0Client = btoa (stringify (JObj (stripAuth0Client
     (case auth0Client of Some c \<Rightarrow> c | None \<Rightarrow> DEFAULT_AUTH0_CLIENT) False)))"

definition token_params :: "token_endpoint_options \<Rightarrow> params" where
  "token_params o1 =
     (let grant_type = opt_str (te_options o1) ''grant_type'';
          isTokenExchange = (grant_type = Some ''urn:ietf:params:oauth:grant-type:token-exchange'');
          isWebAuthn = (grant_type = Some ''urn:okta:params:oauth:grant-type:webauthn'');
          refreshWithMrrt = (grant_type = Some ''refresh_token'' \<and> te_useMrrt o1);
          includeAudienceAndScope = (isTokenExchange \<or> isWebAuthn \<or> refreshWithMrrt);
          extra = (\<lambda>k v. if includeAudienceAndScope \<and> truthy v then [(k, map_option JStr v)] else [])
      in obj_spread (obj_spread (te_options o1) (extra ''audience'' (te_audience o1)))
           (extra ''scope'' (te_scope o1)))"

definition uses_json :: "token_endpoint_options \<Rightarrow> bool" where
  "uses_json o1 = (opt_str (te_options o1) ''grant_type'' = Some ''urn:okta:params:oauth:grant-type:webauthn''
     \<or> \<not> te_useFormData o1)"

definition oauthToken ::
  "'s http_ops \<Rightarrow> 's dpop_ops option \<Rightarrow> token_endpoint_options \<Rightarrow> bool \<Rightarrow> ('s, js_error, json obj) act" where
  "oauthToken ops dpop o1 skipTokenStorage =
     (let grant_type = or_default (opt_str (te_options o1) ''grant_type'') [];
          body = (if uses_json o1 then stringify (JObj (stripUndefined (token_params o1)))
                  else createQueryParams (token_params o1))
      in getJSON ops (if isGrantTypeSupported grant_type then dpop else None)
           (te_baseUrl o1 @ ''/oauth/token'')
           \<lparr>fo_method = Some ''POST'', fo_body = Some body,
            fo_headers = [(''Content-Type'', if uses_json o1 then ''application/json''
                             else ''application/x-www-form-urlencoded''),
                          (''Auth0-Client'', auth0_client_header (te_auth0Client o1))]\<rparr>
           \<lparr>tc_audience = or_default (te_audience o1) DEFAULT_AUDIENCE, tc_scope = or_default (te_scope o1) [],
            tc_useFormData = te_useFormData o1, tc_timeout = te_timeout o1, tc_useMrrt = te_useMrrt o1,
            tc_skipTokenStorage = skipTokenStorage, tc_preserveRefreshToken = te_preserveRefreshToken o1\<rparr>
           False)"

section \<open>revokeToken\<close>

record revoke_options =
  ro_baseUrl :: string
  ro_client_id :: string
  ro_refreshTokens :: "string list"
  ro_audience :: "string option"
  ro_timeout :: "int option"
  ro_auth0Client :: "json obj option"
  ro_useFormData :: bool

definition revoke_fetch_options :: "revoke_options \<Rightarrow> string option \<Rightarrow> fetch_options" where
  "revoke_fetch_options o1 token =
     (let params = [(''client_id'', Some (JStr (ro_client_id o1))),
                    (''token_type_hint'', Some (JStr ''refresh_token''))] @
                   (case token of None \<Rightarrow> [] | Some t \<Rightarrow> [(''token'', Some (JStr t))])
      in \<lparr>fo_method = Some ''POST'',
          fo_body = Some (if ro_useFormData o1 then createQueryParams params
                          else stringify (JObj (stripUndefined params))),
          fo_headers = [(''Content-Type'', if ro_useFormData o1 then ''application/x-www-form-urlencoded''
                           else ''application/json''),
                        (''Auth0-Client'', auth0_client_header (ro_auth0Client o1))]\<rparr>)"

definition revoke_failure :: "raw_response \<Rightarrow> js_error" where
  "revoke_failure response =
     (let v = json_parse (rr_text response);
          prop = (\<lambda>k. json_text (Option.bind v (\<lambda>x. json_get x k)))
      in GenericError (case prop ''error'' of Some e \<Rightarrow> e | None \<Rightarrow> ''revoke_error'')
           (case prop ''error_description'' of Some d \<Rightarrow> d | None \<Rightarrow> ''HTTP error '' @ show_int (rr_status response))
           None)"

definition or_timeout :: "int option \<Rightarrow> int" where
  "or_timeout t = (case t of None \<Rightarrow> DEFAULT_FETCH_TIMEOUT_MS | Some n \<Rightarrow> if n = 0 then DEFAULT_FETCH_TIMEOUT_MS else n)"

definition revoke_one ::
  "'s http_ops \<Rightarrow> revoke_options \<Rightarrow> (string \<Rightarrow> ('s, js_error, unit) act) \<Rightarrow> string \<Rightarrow> ('s, js_error, unit) act" where
  "revoke_one ops o1 onRefreshTokenRevoked refreshToken =
     andThen (fetchWithTimeout ops (ro_baseUrl o1 @ ''/oauth/revoke'')
                (revoke_fetch_options o1 (Some refreshToken)) (or_timeout (ro_timeout o1)))
       (\<lambda>response. if \<not> rr_ok response then throw (revoke_failure response)
                    else onRefreshTokenRevoked refreshToken)"

definition revokeToken ::
  "'s http_ops \<Rightarrow> revoke_options \<Rightarrow> (string \<Rightarrow> ('s, js_error, unit) act) \<Rightarrow> ('s, js_error, unit) act" where
  "revokeToken ops o1 onRefreshTokenRevoked = (case ho_worker ops of
     Some send \<Rightarrow>
       catching (andNext (send (RevokeMsg
           \<lparr>vm_timeout = or_timeout (ro_timeout o1),
            vm_audience = (case ro_audience o1 of Some a \<Rightarrow> a | None \<Rightarrow> DEFAULT_AUDIENCE),
            vm_fetchUrl = ro_baseUrl o1 @ ''/oauth/revoke'',
            vm_fetchOptions = revoke_fetch_options o1 None, vm_useFormData = ro_useFormData o1\<rparr>))
          (ret ()))
         (\<lambda>e. throw (GenericError ''revoke_error'' (err_message e) None))
   | None \<Rightarrow> forEach (ro_refreshTokens o1) (revoke_one ops o1 onRefreshTokenRevoked))"

section \<open>How many requests\<close>

text \<open>\<open>costs steps k m\<close>: a run of \<open>m\<close> makes at most \<open>k\<close> steps, whatever its outcome, where
  \<open>steps k s t\<close> says that at most \<open>k\<close> of them lead from \<open>s\<close> to \<open>t\<close>.\<close>

definition costs :: "(nat \<Rightarrow> 's \<Rightarrow> 's \<Rightarrow> bool) \<Rightarrow> nat \<Rightarrow> ('s, js_error, 'a) act \<Rightarrow> bool" where
  "costs steps k m \<longleftrightarrow> effect (steps k) m"

locale graded =
  fixes steps :: "nat \<Rightarrow> 's \<Rightarrow> 's \<Rightarrow> bool"
  assumes no_step: "steps k s s"
    and more_steps: "steps j s t \<Longrightarrow> steps k t u \<Longrightarrow> steps (j + k) s u"
begin

lemma costs_pure: "costs steps k (ret x)" "costs steps k (throw e)" "costs steps k (gets f)"
  by (simp_all add: costs_def effect_def no_step)

lemma costs_weaken: "costs steps j m \<Longrightarrow> j \<le> k \<Longrightarrow> costs steps k m"
  unfolding costs_def effect_def using more_steps [OF _ no_step] by (metis le_add_diff_inverse)

lemma costs_andThen: "costs steps j m \<Longrightarrow> (\<And>x. costs steps k (f x)) \<Longrightarrow> costs steps (j + k) (andThen m f)"
  unfolding costs_def effect_def
  by (auto simp: andThen_def split: prod.split sum.split intro: more_steps no_step)
    (metis more_steps no_step snd_conv)+

lemma costs_catching: "costs steps j m \<Longrightarrow> (\<And>e. costs steps k (h e)) \<Longrightarrow> costs steps (j + k) (catching m h)"
  unfolding costs_def effect_def
  by (auto simp: catching_def split: prod.split sum.split intro: more_steps no_step)
    (metis more_steps no_step snd_conv)+

lemma costs_attempts: "costs steps 1 m \<Longrightarrow> costs steps (Suc k) (fetch_attempts m k)"
proof (induction k)
  case (Suc k)
  then have "costs steps (1 + Suc k) (catching m (\<lambda>_. fetch_attempts m k))"
    by (intro costs_catching) auto
  then show ?case by simp
qed simp

end

text \<open>A request to \<open>url\<close>, of the page or of the worker, is one step; the DPoP operations make none.\<close>

locale counted = graded steps for steps :: "nat \<Rightarrow> 's \<Rightarrow> 's \<Rightarrow> bool" +
  fixes ops :: "'s http_ops" and dpop :: "'s dpop_ops option" and url :: string
  assumes cost_fetch: "costs steps 1 (ho_fetch ops url o1 t)"
    and cost_worker: "ho_worker ops = Some send \<Longrightarrow> rm_fetchUrl m = url \<Longrightarrow> costs steps 1 (send (RefreshMsg m))"
    and cost_dpop: "dpop = Some d \<Longrightarrow> costs steps 0 (do_generateProof d url mt n) \<and> costs steps 0 (do_getNonce d) \<and>
        costs steps 0 (do_setNonce d x)"
begin

lemma cost_switchFetch: "costs steps 1 (switchFetch ops url o1 c)"
proof (cases "ho_worker ops")
  case None
  have "costs steps (1 + 0 + 0) (switchFetch ops url o1 c)"
    unfolding switchFetch_def None option.case fetchWithoutWorker_def fetchWithTimeout_def
    by (intro costs_andThen cost_fetch) (simp_all add: costs_pure split: fetch_outcome.split option.split)
  then show ?thesis by simp
next
  case (Some send)
  have "costs steps (1 + 0) (switchFetch ops url o1 c)"
    unfolding switchFetch_def Some option.case fetchWithWorker_def
    by (intro costs_andThen cost_worker [OF Some]) (simp_all add: costs_pure split: sum.split)
  then show ?thesis by simp
qed

lemma cost_with_proof: "costs steps 0 (with_proof dpop url o1)"
proof (cases dpop)
  case (Some d)
  have "costs steps (0 + (0 + 0)) (with_proof dpop url o1)"
    unfolding with_proof_def Some option.case
    by (intro costs_andThen) (use cost_dpop [OF Some] in \<open>simp_all add: costs_pure\<close>)
  then show ?thesis by simp
qed (simp add: with_proof_def costs_pure)

lemma cost_handle: "costs steps k retry \<Longrightarrow> costs steps k (handle_response dpop u c r retry response)"
proof -
  assume retry: "costs steps k retry"
  have "costs steps (0 + k) (handle_response dpop u c r retry response)"
  proof (cases "own_properties (fr_json response)")
    case (Inr m)
    show ?thesis
      unfolding handle_response_def Inr sum.case Let_def andNext_def
      by (intro costs_andThen) (use cost_dpop retry in \<open>auto simp: costs_pure split: option.split\<close>)
  qed (simp add: handle_response_def costs_pure)
  then show ?thesis by simp
qed

lemma cost_handle_plain: "costs steps 0 (handle_response None u c r retry response)"
  by (auto simp: handle_response_def andNext_def Let_def costs_pure
      costs_andThen [of 0 _ 0, simplified] split: sum.split option.split)

text \<open>Without DPoP three requests are made, with it six, or three when the nonce is already the second.\<close>

lemma cost_getJSON: "costs steps (if r \<or> dpop = None then 3 else 6) (getJSON ops dpop url o1 c r)"
proof -
  have three: "costs steps (Suc (DEFAULT_SILENT_TOKEN_RETRY_COUNT - 1))
      (fetch_attempts (switchFetch ops url o2 c) (DEFAULT_SILENT_TOKEN_RETRY_COUNT - 1))" for o2
    by (rule costs_attempts [OF cost_switchFetch])
  have True: "costs steps (0 + (Suc (DEFAULT_SILENT_TOKEN_RETRY_COUNT - 1) + 0)) (getJSON ops dpop url o3 c True)" for o3
    by (subst getJSON.simps, intro costs_andThen cost_with_proof three cost_handle) (simp add: costs_pure)
  then have t: "costs steps 3 (getJSON ops dpop url o3 c True)" for o3
    by (simp add: DEFAULT_SILENT_TOKEN_RETRY_COUNT_def)
  have "costs steps (0 + (Suc (DEFAULT_SILENT_TOKEN_RETRY_COUNT - 1) + 3)) (getJSON ops dpop url o1 c False)"
    by (subst getJSON.simps, intro costs_andThen cost_with_proof three cost_handle) (simp add: t)
  moreover have "costs steps (0 + (Suc (DEFAULT_SILENT_TOKEN_RETRY_COUNT - 1) + 0)) (getJSON ops None url o1 c False)"
    if "dpop = None"
    using cost_with_proof unfolding that
    by (subst getJSON.simps, intro costs_andThen three cost_handle_plain) simp
  ultimately show ?thesis using t [of o1] by (cases r; cases dpop) (simp_all add: DEFAULT_SILENT_TOKEN_RETRY_COUNT_def)
qed

end

lemma cost_oauthToken:
  assumes "counted steps ops dpop (te_baseUrl o1 @ ''/oauth/token'')"
  shows "costs steps (if dpop = None then 3 else 6) (oauthToken ops dpop o1 skip)"
proof -
  let ?url = "te_baseUrl o1 @ ''/oauth/token''"
  have graded: "graded steps" by (rule counted.axioms(1) [OF assms])
  have "counted steps ops None ?url"
    using assms unfolding counted_def counted_axioms_def by simp
  from counted.cost_getJSON [OF this]
  have plain: "costs steps 3 (getJSON ops None ?url o2 c False)" for o2 c by simp
  then have "costs steps (if dpop = None then 3 else 6) (getJSON ops None ?url o2 c False)" for o2 c
    by (rule graded.costs_weaken [OF graded]) simp
  moreover have "costs steps (if dpop = None then 3 else 6) (getJSON ops dpop ?url o2 c False)" for o2 c
    using counted.cost_getJSON [OF assms, of False o2 c] by simp
  ultimately show ?thesis
    unfolding oauthToken_def Let_def
    by (cases "isGrantTypeSupported (or_default (opt_str (te_options o1) ''grant_type'') [])") simp_all
qed

end
