(* ===== verification/Fetcher.thy ===== *)
theory Fetcher
  imports Http
begin

text \<open>
  \<open>src/fetcher.ts\<close>: requests to an API with the access token attached, and one repetition after a
  DPoP nonce was asked for. The platform's \<open>Request\<close> is a record; resolving a URL against the page
  is a parameter. The hooks of the client, the access token factory and the fetch implementation
  are operations on the caller's state \<open>'s\<close>.
\<close>

section \<open>Requests and responses\<close>

record request =
  rq_url :: string
  rq_method :: string
  rq_headers :: "string obj"
  rq_body :: "string option"

datatype request_info = InfoString string | InfoUrl string | InfoRequest request

record request_init =
  ri_method :: "string option"
  ri_headers :: "string obj option"
  ri_body :: "string option"

definition no_init :: request_init where
  "no_init = \<lparr>ri_method = None, ri_headers = None, ri_body = None\<rparr>"

text \<open>\<open>new Request(info, init)\<close>: what \<open>init\<close> gives overrides what \<open>info\<close> has; header names are
  kept in lower case.\<close>

definition new_Request ::
  "(string \<Rightarrow> string option) \<Rightarrow> request_info \<Rightarrow> request_init \<Rightarrow> js_error + request" where
  "new_Request resolve info init =
     (let base = (case info of
            InfoRequest r \<Rightarrow> Some r
          | InfoString u \<Rightarrow> map_option (\<lambda>v. \<lparr>rq_url = v, rq_method = ''GET'', rq_headers = [], rq_body = None\<rparr>) (resolve u)
          | InfoUrl u \<Rightarrow> map_option (\<lambda>v. \<lparr>rq_url = v, rq_method = ''GET'', rq_headers = [], rq_body = None\<rparr>) (resolve u))
      in case base of
           None \<Rightarrow> Inl (TypeErr ''Failed to construct Request: invalid URL'')
         | Some r \<Rightarrow> Inr (r\<lparr>rq_method := or_default (ri_method init) (rq_method r),
             rq_headers := (case ri_headers init of None \<Rightarrow> rq_headers r
                            | Some hs \<Rightarrow> map (\<lambda>(k, v). (to_lower k, v)) hs),
             rq_body := (case ri_body init of None \<Rightarrow> rq_body r | Some b \<Rightarrow> Some b)\<rparr>))"

text \<open>The three forms of response headers of \<open>CustomFetchMinimalOutput\<close>.\<close>

datatype response_headers =
    HeaderPairs "(string \<times> string) list"
  | HeaderGetter "string \<Rightarrow> string option"
  | HeaderRecord "string option obj"

record 'o fetched =
  ft_status :: int
  ft_headers :: response_headers
  ft_output :: 'o

text \<open>\<open>headers.get\<close> of the pairs joins the values of a name; the name is matched in lower case.\<close>

definition getHeader :: "response_headers \<Rightarrow> string \<Rightarrow> string" where
  "getHeader headers name = (case headers of
     HeaderPairs ps \<Rightarrow> join '', '' (map snd (filter (\<lambda>(k, _). to_lower k = to_lower name) ps))
   | HeaderGetter get \<Rightarrow> or_default (get name) []
   | HeaderRecord m \<Rightarrow> or_default (Option.bind (map_of m name) id) [])"

section \<open>URLs\<close>

text \<open>\<open>/^(https?:)?\/\//i\<close>\<close>

definition isAbsoluteUrl :: "string \<Rightarrow> bool" where
  "isAbsoluteUrl url =
     (let u = to_lower url in starts_with u ''//'' \<or> starts_with u ''http://'' \<or> starts_with u ''https://'')"

text \<open>\<open>baseUrl.replace(/\/?\/$/, '')\<close>: one or two slashes at the end; \<open>url.replace(/^\/+/, '')\<close>:
  every slash at the front.\<close>

definition drop_end_slashes :: "string \<Rightarrow> string" where
  "drop_end_slashes s =
     (case rev s of
        a # b # r \<Rightarrow> if a = CHR ''/'' then (if b = CHR ''/'' then rev r else rev (b # r)) else s
      | [a] \<Rightarrow> if a = CHR ''/'' then [] else s
      | [] \<Rightarrow> s)"

definition buildUrl :: "string option \<Rightarrow> string option \<Rightarrow> js_error + string" where
  "buildUrl baseUrl url =
     (if truthy url \<and> isAbsoluteUrl (the url) then Inr (the url)
      else if truthy url \<and> truthy baseUrl
      then Inr (drop_end_slashes (the baseUrl) @ ''/'' @ dropWhile (\<lambda>c. c = CHR ''/'') (the url))
      else Inl (TypeErr ''`url` must be absolute or `baseUrl` non-empty.''))"

fun extractUrl :: "request_info \<Rightarrow> string" where
  "extractUrl (InfoString u) = u"
| "extractUrl (InfoUrl u) = u"
| "extractUrl (InfoRequest r) = rq_url r"

definition buildBaseRequest ::
  "(string \<Rightarrow> string option) \<Rightarrow> string option \<Rightarrow> request_info \<Rightarrow> request_init \<Rightarrow> js_error + request" where
  "buildBaseRequest resolve baseUrl info init =
     (if \<not> truthy baseUrl then new_Request resolve info init
      else (case buildUrl baseUrl (Some (extractUrl info)) of
         Inl e \<Rightarrow> Inl e
       | Inr finalUrl \<Rightarrow>
           (case (case info of
              InfoRequest r \<Rightarrow> new_Request resolve (InfoString finalUrl)
                \<lparr>ri_method = Some (rq_method r), ri_headers = Some (rq_headers r), ri_body = rq_body r\<rparr>
            | _ \<Rightarrow> new_Request resolve (InfoString finalUrl) no_init) of
              Inl e \<Rightarrow> Inl e
            | Inr r \<Rightarrow> new_Request resolve (InfoRequest r) init)))"

section \<open>The fetcher\<close>

text \<open>\<open>GetTokenSilentlyVerboseResponse\<close>; an access token factory may also give a plain token, or
  \<open>undefined\<close>.\<close>

record token_response =
  tr_id_token :: "string option"
  tr_token_type :: "string option"
  tr_access_token :: "string option"
  tr_scope :: "string option"
  tr_expires_in :: "int option"

datatype token_result = PlainToken string | VerboseToken token_response

record auth_params =
  ap_scope :: "string list option"
  ap_audience :: "string option"

record ('s, 'o) fetcher_config =
  fc_getAccessToken :: "(auth_params option \<Rightarrow> ('s, js_error, token_result option) act) option"
  fc_baseUrl :: "string option"
  fc_fetch :: "request \<Rightarrow> ('s, js_error, 'o fetched) act"
  fc_dpopNonceId :: "string option"

record 's fetcher_hooks =
  fh_getAccessToken :: "auth_params option \<Rightarrow> ('s, js_error, token_result option) act"
  fh_getDpopNonce :: "('s, js_error, string option) act"
  fh_setDpopNonce :: "string \<Rightarrow> ('s, js_error, unit) act"
  fh_generateDpopProof :: "string \<Rightarrow> string \<Rightarrow> string option \<Rightarrow> string \<Rightarrow> ('s, js_error, string) act"

definition ft_getAccessToken ::
  "('s, 'o) fetcher_config \<Rightarrow> 's fetcher_hooks \<Rightarrow> auth_params option \<Rightarrow> ('s, js_error, token_result option) act" where
  "ft_getAccessToken config hooks authParams =
     (case fc_getAccessToken config of Some f \<Rightarrow> f authParams | None \<Rightarrow> fh_getAccessToken hooks authParams)"

definition setAuthorizationHeader :: "request \<Rightarrow> string \<Rightarrow> string \<Rightarrow> request" where
  "setAuthorizationHeader request accessToken tokenType =
     request\<lparr>rq_headers := AList.update ''authorization'' (tokenType @ '' '' @ accessToken) (rq_headers request)\<rparr>"

definition setDpopProofHeader ::
  "('s, 'o) fetcher_config \<Rightarrow> 's fetcher_hooks \<Rightarrow> request \<Rightarrow> string \<Rightarrow> ('s, js_error, request) act" where
  "setDpopProofHeader config hooks request accessToken =
     (if \<not> truthy (fc_dpopNonceId config) then ret request
      else
        andThen (fh_getDpopNonce hooks) (\<lambda>dpopNonce.
        andThen (fh_generateDpopProof hooks (rq_url request) (rq_method request) dpopNonce accessToken) (\<lambda>dpopProof.
          ret (request\<lparr>rq_headers := AList.update ''dpop'' dpopProof (rq_headers request)\<rparr>))))"

text \<open>A missing \<open>token_type\<close> argument defaults to \<open>Bearer\<close>.\<close>

definition token_parts :: "string option \<Rightarrow> token_result \<Rightarrow> string \<times> string" where
  "token_parts dpopNonceId accessTokenResponse = (case accessTokenResponse of
     PlainToken t \<Rightarrow> (if truthy dpopNonceId then ''DPoP'' else ''Bearer'', t)
   | VerboseToken r \<Rightarrow> (case tr_token_type r of None \<Rightarrow> ''Bearer'' | Some ty \<Rightarrow> ty, tmpl (tr_access_token r)))"

definition prepareRequest ::
  "('s, 'o) fetcher_config \<Rightarrow> 's fetcher_hooks \<Rightarrow> request \<Rightarrow> auth_params option \<Rightarrow> ('s, js_error, request) act" where
  "prepareRequest config hooks request authParams =
     andThen (ft_getAccessToken config hooks authParams) (\<lambda>accessTokenResponse.
       case accessTokenResponse of
         None \<Rightarrow> throw (GenericError ''missing_access_token'' ''No access token available'' None)
       | Some t \<Rightarrow>
           (case token_parts (fc_dpopNonceId config) t of (tokenType, accessToken) \<Rightarrow>
              let request1 = setAuthorizationHeader request accessToken tokenType
              in if tokenType = ''DPoP'' then setDpopProofHeader config hooks request1 accessToken
                 else ret request1))"

definition hasUseDpopNonceError :: "'o fetched \<Rightarrow> bool" where
  "hasUseDpopNonceError response =
     (if ft_status response \<noteq> 401 then False
      else let wwwAuthHeader = getHeader (ft_headers response) ''www-authenticate''
           in str_includes wwwAuthHeader ''invalid_dpop_nonce'' \<or> str_includes wwwAuthHeader ''use_dpop_nonce'')"

text \<open>\<open>onUseDpopNonceError\<close> is the callback of that name, absent in the repeated call.\<close>

definition ft_handleResponse ::
  "'s fetcher_hooks \<Rightarrow> ('s, js_error, 'o fetched) act option \<Rightarrow> 'o fetched \<Rightarrow> ('s, js_error, 'o fetched) act" where
  "ft_handleResponse hooks onUseDpopNonceError response =
     (let newDpopNonce = getHeader (ft_headers response) DPOP_NONCE_HEADER
      in andNext (if newDpopNonce \<noteq> [] then fh_setDpopNonce hooks newDpopNonce else ret ())
           (if \<not> hasUseDpopNonceError response then ret response
            else (case onUseDpopNonceError of
               None \<Rightarrow> throw (UseDpopNonceError (Some newDpopNonce))
             | Some again \<Rightarrow>
                 if newDpopNonce = [] then throw (UseDpopNonceError (Some newDpopNonce)) else again)))"

definition internalFetchWithAuth ::
  "(string \<Rightarrow> string option) \<Rightarrow> ('s, 'o) fetcher_config \<Rightarrow> 's fetcher_hooks \<Rightarrow> request_info \<Rightarrow> request_init
     \<Rightarrow> ('s, js_error, 'o fetched) act option \<Rightarrow> auth_params option \<Rightarrow> ('s, js_error, 'o fetched) act" where
  "internalFetchWithAuth resolve config hooks info init onUseDpopNonceError authParams =
     (case buildBaseRequest resolve (fc_baseUrl config) info init of
        Inl e \<Rightarrow> throw e
      | Inr request \<Rightarrow>
          andThen (prepareRequest config hooks request authParams) (\<lambda>request'.
          andThen (fc_fetch config request') (ft_handleResponse hooks onUseDpopNonceError)))"

definition fetchWithAuth ::
  "(string \<Rightarrow> string option) \<Rightarrow> ('s, 'o) fetcher_config \<Rightarrow> 's fetcher_hooks \<Rightarrow> request_info \<Rightarrow> request_init
     \<Rightarrow> auth_params option \<Rightarrow> ('s, js_error, 'o fetched) act" where
  "fetchWithAuth resolve config hooks info init authParams =
     internalFetchWithAuth resolve config hooks info init
       (Some (internalFetchWithAuth resolve config hooks info init None authParams)) authParams"

section \<open>How often, and with what, the API is called\<close>

text \<open>
  The requests made so far are a list in the state: \<open>fetch\<close> adds the request it is given, nothing
  else touches the list.
\<close>

definition authorized :: "request \<Rightarrow> bool" where
  "authorized r \<longleftrightarrow> (\<exists>ty t. map_of (rq_headers r) ''authorization'' = Some (ty @ '' '' @ t))"

locale recorded =
  fixes log :: "'s \<Rightarrow> request list" and config :: "('s, 'o) fetcher_config" and hooks :: "'s fetcher_hooks"
  assumes fetch_log: "log (snd (fc_fetch config r s)) = log s @ [r]"
    and token_log: "log (snd (ft_getAccessToken config hooks a s)) = log s"
    and nonce_log: "log (snd (fh_getDpopNonce hooks s)) = log s"
    and set_log: "log (snd (fh_setDpopNonce hooks n s)) = log s"
    and proof_log: "log (snd (fh_generateDpopProof hooks u m nonce t s)) = log s"
begin

lemma prepare_log:
  assumes "prepareRequest config hooks request a s = (x, t)"
  shows "log t = log s \<and> (\<forall>r. x = Inr r \<longrightarrow> authorized r)"
proof -
  obtain q u where u: "ft_getAccessToken config hooks a s = (q, u)" by force
  have lu: "log u = log s" using token_log [of a s] u by simp
  show ?thesis
  proof (cases "q = Inr None \<or> (\<exists>e. q = Inl e)")
    case True
    with assms u lu show ?thesis by (auto simp: prepareRequest_def andThen_def)
  next
    case False
    then obtain tk where q: "q = Inr (Some tk)" by (cases q) auto
    obtain ty tok where p: "token_parts (fc_dpopNonceId config) tk = (ty, tok)" by force
    let ?r = "setAuthorizationHeader request tok ty"
    have r: "authorized (?r\<lparr>rq_headers := AList.update ''dpop'' v (rq_headers ?r)\<rparr>)" "authorized ?r" for v
      by (auto simp: authorized_def setAuthorizationHeader_def)
    have "log (snd (setDpopProofHeader config hooks ?r tok u)) = log u \<and>
        (\<forall>r'. fst (setDpopProofHeader config hooks ?r tok u) = Inr r' \<longrightarrow> authorized r')"
      using nonce_log [of u] proof_log r
      by (auto simp: setDpopProofHeader_def andThen_def split: prod.splits sum.splits) (metis snd_conv)+
    with assms u q p lu r show ?thesis
      by (auto simp: prepareRequest_def andThen_def Let_def split: if_splits)
  qed
qed

lemma internal_log:
  assumes again: "\<And>u again. onUse = Some again \<Longrightarrow> \<exists>rs. log (snd (again u)) = log u @ rs \<and> length rs \<le> k \<and> (\<forall>r \<in> set rs. authorized r)"
  shows "\<exists>rs. log (snd (internalFetchWithAuth resolve config hooks info init onUse a s)) = log s @ rs \<and>
           length rs \<le> Suc k \<and> (\<forall>r \<in> set rs. authorized r)"
proof (cases "buildBaseRequest resolve (fc_baseUrl config) info init")
  case (Inl e)
  then show ?thesis by (simp add: internalFetchWithAuth_def)
next
  case (Inr request)
  obtain x t where x: "prepareRequest config hooks request a s = (x, t)" by force
  note p = prepare_log [OF x]
  show ?thesis
  proof (cases x)
    case (Inl e)
    with Inr x p show ?thesis by (simp add: internalFetchWithAuth_def andThen_def)
  next
    case ok: (Inr request')
    obtain y u where y: "fc_fetch config request' t = (y, u)" by force
    have lu: "log u = log s @ [request']" "authorized request'"
      using fetch_log [of request' t] y p ok by simp_all
    show ?thesis
    proof (cases y)
      case (Inl e)
      with Inr x ok y lu show ?thesis by (simp add: internalFetchWithAuth_def andThen_def)
    next
      case resp: (Inr response)
      have "\<exists>rs. log (snd (ft_handleResponse hooks onUse response u)) = log u @ rs \<and> length rs \<le> k \<and>
          (\<forall>r \<in> set rs. authorized r)"
      proof -
        let ?n = "getHeader (ft_headers response) DPOP_NONCE_HEADER"
        obtain z v where z: "(if ?n \<noteq> [] then fh_setDpopNonce hooks ?n else ret ()) u = (z, v)" by force
        have v: "log v = log u" using set_log [of ?n u] z by (auto split: if_splits)
        show ?thesis
        proof (cases "z \<noteq> Inr () \<or> \<not> hasUseDpopNonceError response \<or> onUse = None \<or> ?n = []")
          case True
          with z v show ?thesis
            by (cases z; cases onUse) (auto simp: ft_handleResponse_def Let_def act_simps)
        next
          case False
          then obtain m where m: "onUse = Some m" by auto
          with False z again [OF m, of v] v show ?thesis
            by (simp add: ft_handleResponse_def Let_def act_simps)
        qed
      qed
      then obtain rs where rs: "log (snd (ft_handleResponse hooks onUse response u)) = log u @ rs" "length rs \<le> k"
        "\<forall>r \<in> set rs. authorized r" by blast
      from Inr x ok y resp rs lu show ?thesis
        by (intro exI [of _ "request' # rs"]) (simp add: internalFetchWithAuth_def andThen_def)
    qed
  qed
qed

lemma fetch_log_bounded:
  "\<exists>rs. log (snd (fetchWithAuth resolve config hooks info init a s)) = log s @ rs \<and>
     length rs \<le> 2 \<and> (\<forall>r \<in> set rs. authorized r)"
proof -
  have "\<exists>rs. log (snd (internalFetchWithAuth resolve config hooks info init None a u)) = log u @ rs \<and>
      length rs \<le> Suc 0 \<and> (\<forall>r \<in> set rs. authorized r)" for u
    by (rule internal_log) simp
  then have "\<exists>rs. log (snd (fetchWithAuth resolve config hooks info init a s)) = log s @ rs \<and>
      length rs \<le> Suc (Suc 0) \<and> (\<forall>r \<in> set rs. authorized r)"
    unfolding fetchWithAuth_def by (intro internal_log) auto
  then show ?thesis by (simp add: numeral_2_eq_2)
qed

end

end
