(* ===== verification/MyAccount.thy ===== *)
theory MyAccount
  imports Fetcher
begin

text \<open>
  \<open>src/myaccount/MyAccountApiClient.ts\<close>: the My Account API over \<open>fetchWithAuth\<close> of a fetcher
  (an operation on the caller's state \<open>'s\<close>; the responses are \<^typ>\<open>raw_response\<close>s). Option objects
  of the API are passed through as their JSON text, so they are property lists here.
\<close>

type_synonym 's api_fetch = "string \<Rightarrow> request_init \<Rightarrow> auth_params option \<Rightarrow> ('s, js_error, raw_response) act"

section \<open>decodeURIComponent\<close>

text \<open>Every escape must be complete and the bytes must be UTF-8; otherwise it throws.\<close>

fun uri_bytes :: "string \<Rightarrow> nat list option" where
  "uri_bytes [] = Some []"
| "uri_bytes (c # r) =
     (if c = CHR ''%'' then
        (case r of
           d # e # r' \<Rightarrow> (case (hex_digit_val d, hex_digit_val e) of
              (Some x, Some y) \<Rightarrow> map_option ((#) (16 * x + y)) (uri_bytes r')
            | _ \<Rightarrow> None)
         | _ \<Rightarrow> None)
      else map_option ((@) (utf8_char c)) (uri_bytes r))"

definition decodeURIComponent :: "string \<Rightarrow> string option" where
  "decodeURIComponent s = Option.bind (uri_bytes s) utf8_decode"

section \<open>Requests\<close>

definition get_init :: request_init where
  "get_init = \<lparr>ri_method = Some ''GET'', ri_headers = None, ri_body = None\<rparr>"

definition json_init :: "string \<Rightarrow> json \<Rightarrow> request_init" where
  "json_init method body = \<lparr>ri_method = Some method,
     ri_headers = Some [(''Content-Type'', ''application/json'')], ri_body = Some (stringify body)\<rparr>"

definition scoped :: "string \<Rightarrow> auth_params option" where
  "scoped scope = Some \<lparr>ap_scope = Some [scope], ap_audience = None\<rparr>"

definition ma_handleResponse :: "raw_response \<Rightarrow> js_error + json" where
  "ma_handleResponse res = (case json_parse (rr_text res) of
     None \<Rightarrow> Inl (MyAccountApiError (Some (JStr ''invalid_json'')) (Some (JNum (rr_status res)))
        (Some (JStr ''Invalid JSON response''))
        (Some (JStr (if rr_text res = [] then ''SyntaxError: Unexpected end of JSON input'' else rr_text res))) None)
   | Some body \<Rightarrow>
       if rr_ok res then Inr body
       else if body = JNull then Inl (TypeErr ''Cannot destructure null'')
       else Inl (MyAccountApiError (json_get body ''type'') (json_get body ''status'')
              (json_get body ''title'') (json_get body ''detail'') (json_get body ''validation_errors'')))"

definition ma_result :: "raw_response \<Rightarrow> ('s, js_error, json) act" where
  "ma_result res = (case ma_handleResponse res of Inl e \<Rightarrow> throw e | Inr v \<Rightarrow> ret v)"

definition ma_call ::
  "'s api_fetch \<Rightarrow> string \<Rightarrow> request_init \<Rightarrow> string \<Rightarrow> ('s, js_error, json) act" where
  "ma_call fetch url init scope = andThen (fetch url init (scoped scope)) ma_result"

text \<open>A property of the parsed body, which fails on \<open>null\<close>.\<close>

definition ma_property :: "string \<Rightarrow> json \<Rightarrow> ('s, js_error, json option) act" where
  "ma_property k body = (if body = JNull then throw (TypeErr ''Cannot read properties of null'')
     else ret (json_get body k))"

section \<open>The client\<close>

definition connectAccount :: "'s api_fetch \<Rightarrow> string \<Rightarrow> params \<Rightarrow> ('s, js_error, json) act" where
  "connectAccount fetch apiBase ps =
     ma_call fetch (apiBase @ ''v1/connected-accounts/connect'')
       (json_init ''POST'' (JObj (stripUndefined ps))) ''create:me:connected_accounts''"

definition completeAccount :: "'s api_fetch \<Rightarrow> string \<Rightarrow> params \<Rightarrow> ('s, js_error, json) act" where
  "completeAccount fetch apiBase ps =
     ma_call fetch (apiBase @ ''v1/connected-accounts/complete'')
       (json_init ''POST'' (JObj (stripUndefined ps))) ''create:me:connected_accounts''"

definition getFactors :: "'s api_fetch \<Rightarrow> string \<Rightarrow> ('s, js_error, json option) act" where
  "getFactors fetch apiBase =
     andThen (ma_call fetch (apiBase @ ''v1/factors'') get_init ''read:me:factors'') (ma_property ''factors'')"

definition getAuthenticationMethods :: "'s api_fetch \<Rightarrow> string \<Rightarrow> string option \<Rightarrow> ('s, js_error, json option) act" where
  "getAuthenticationMethods fetch apiBase ty =
     (let query = (if truthy ty then ''?'' @ query_print [(''type'', the ty)] else [])
      in andThen (ma_call fetch (apiBase @ ''v1/authentication-methods'' @ query) get_init
              ''read:me:authentication_methods'')
           (ma_property ''authentication_methods''))"

definition method_url :: "string \<Rightarrow> string \<Rightarrow> string" where
  "method_url apiBase method_id = apiBase @ ''v1/authentication-methods/'' @ encodeURIComponent method_id"

definition getAuthenticationMethod :: "'s api_fetch \<Rightarrow> string \<Rightarrow> string \<Rightarrow> ('s, js_error, json) act" where
  "getAuthenticationMethod fetch apiBase method_id =
     ma_call fetch (method_url apiBase method_id) get_init ''read:me:authentication_methods''"

definition deleteAuthenticationMethod :: "'s api_fetch \<Rightarrow> string \<Rightarrow> string \<Rightarrow> ('s, js_error, unit) act" where
  "deleteAuthenticationMethod fetch apiBase method_id =
     andThen (fetch (method_url apiBase method_id)
         \<lparr>ri_method = Some ''DELETE'', ri_headers = None, ri_body = None\<rparr> (scoped ''delete:me:authentication_methods''))
       (\<lambda>res. if \<not> rr_ok res then andNext (ma_result res) (ret ()) else ret ())"

definition updateAuthenticationMethod :: "'s api_fetch \<Rightarrow> string \<Rightarrow> string \<Rightarrow> params \<Rightarrow> ('s, js_error, json) act" where
  "updateAuthenticationMethod fetch apiBase method_id data =
     ma_call fetch (method_url apiBase method_id) (json_init ''PATCH'' (JObj (stripUndefined data)))
       ''update:me:authentication_methods''"

text \<open>The id of the new method is the last segment of its location; \<open>{...raw, id, location}\<close>.\<close>

definition last_segment :: "string \<Rightarrow> string" where
  "last_segment location = last (split_str ''/'' location)"

definition enrollmentChallenge :: "'s api_fetch \<Rightarrow> string \<Rightarrow> params \<Rightarrow> ('s, js_error, json) act" where
  "enrollmentChallenge fetch apiBase options =
     andThen (fetch (apiBase @ ''v1/authentication-methods'') (json_init ''POST'' (JObj (stripUndefined options)))
         (scoped ''create:me:authentication_methods'')) (\<lambda>res.
     andThen (ma_result res) (\<lambda>raw.
       let location = (case map_of (rr_headers res) ''location'' of None \<Rightarrow> [] | Some l \<Rightarrow> l)
       in case decodeURIComponent (last_segment location) of
            None \<Rightarrow> throw (Foreign None ''URI malformed'')
          | Some i \<Rightarrow> ret (JObj (obj_spread (case raw of JObj m \<Rightarrow> m | _ \<Rightarrow> [])
              [(''id'', JStr i), (''location'', JStr location)]))))"

definition enrollmentVerify :: "'s api_fetch \<Rightarrow> params \<Rightarrow> ('s, js_error, json) act" where
  "enrollmentVerify fetch options =
     (let location = tmpl (json_str (Option.bind (map_of options ''location'') id));
          body = AList.delete ''type'' (AList.delete ''location'' options)
      in ma_call fetch (location @ ''/verify'') (json_init ''POST'' (JObj (stripUndefined body)))
           ''create:me:authentication_methods'')"

definition profile_query :: "string list option \<Rightarrow> bool option \<Rightarrow> (string \<times> string) list" where
  "profile_query fieldNames includeFields =
     (case fieldNames of None \<Rightarrow> [] | Some fs \<Rightarrow> if fs = [] then [] else [(''fields'', join '','' fs)]) @
     (if includeFields = Some False then [(''include_fields'', ''false'')] else [])"

definition getUserProfile :: "'s api_fetch \<Rightarrow> string \<Rightarrow> string list option \<Rightarrow> bool option \<Rightarrow> ('s, js_error, json) act" where
  "getUserProfile fetch apiBase fieldNames includeFields =
     (let printed = query_print (profile_query fieldNames includeFields)
      in ma_call fetch (apiBase @ ''v1/profile'' @ (if printed = [] then [] else ''?'' @ printed)) get_init ''read:me:profile'')"

definition updateUserProfile :: "'s api_fetch \<Rightarrow> string \<Rightarrow> params \<Rightarrow> ('s, js_error, json) act" where
  "updateUserProfile fetch apiBase data =
     ma_call fetch (apiBase @ ''v1/profile'') (json_init ''PATCH'' (JObj (stripUndefined data))) ''update:me:profile''"

section \<open>Ids in URLs\<close>

lemma uri_bytes_plain: "c \<noteq> CHR ''%'' \<Longrightarrow> uri_bytes (c # r) = map_option ((@) (utf8_char c)) (uri_bytes r)"
  by simp

lemma uri_bytes_pcts:
  "\<forall>b \<in> set bs. b < 256 \<Longrightarrow> uri_bytes (concat (map pct bs) @ r) = map_option ((@) bs) (uri_bytes r)"
proof (induction bs)
  case Nil
  show ?case by (cases "uri_bytes r") simp_all
next
  case (Cons b bs)
  then show ?case
    by (cases "uri_bytes r") (simp_all add: pct_def div_less_iff_less_mult)
qed

lemma decode_encode: "decodeURIComponent (encodeURIComponent s) = Some s"
proof -
  have "uri_bytes (encodeURIComponent s) = Some (utf8_encode s)"
  proof (induction s)
    case (Cons c s)
    have "uri_bytes ((if is_alnum c \<or> c \<in> set ''-_.!~*()'' \<or> c = CHR 0x27 then [c]
        else concat (map pct (utf8_char c))) @ r) = map_option ((@) (utf8_char c)) (uri_bytes r)" for r
    proof (cases "is_alnum c \<or> c \<in> set ''-_.!~*()'' \<or> c = CHR 0x27")
      case True
      then have "c \<noteq> CHR ''%''" by (auto simp: is_alnum_def)
      with True show ?thesis by simp
    next
      case False
      moreover have "\<forall>b \<in> set (utf8_char c). b < 256" using utf8_char_bound by blast
      ultimately show ?thesis using uri_bytes_pcts by simp
    qed
    with Cons show ?case by (simp add: encodeURIComponent_def utf8_encode_def)
  qed (simp add: encodeURIComponent_def utf8_encode_def)
  then show ?thesis by (simp add: decodeURIComponent_def utf8_decode_encode)
qed

lemma hex_digit_alnum: "n < 16 \<Longrightarrow> is_alnum (hex_digit n)"
proof -
  assume "n < 16"
  then have "n \<in> set [0..<16]" by simp
  moreover have "list_all (\<lambda>n. is_alnum (hex_digit n)) [0..<16]" by code_simp
  ultimately show ?thesis unfolding list_all_iff by blast
qed

lemma encoded_chars: "c \<in> set (encodeURIComponent s) \<Longrightarrow> is_alnum c \<or> c \<in> set ''-_.!~*()%'' \<or> c = CHR 0x27"
proof -
  assume "c \<in> set (encodeURIComponent s)"
  then obtain d where "c \<in> set (if is_alnum d \<or> d \<in> set ''-_.!~*()'' \<or> d = CHR 0x27 then [d]
      else concat (map pct (utf8_char d)))"
    unfolding encodeURIComponent_def set_concat set_map by blast
  moreover have "c \<in> set (pct b) \<Longrightarrow> b < 256 \<Longrightarrow> c = CHR ''%'' \<or> is_alnum c" for b
    using hex_digit_alnum by (auto simp: pct_def div_less_iff_less_mult)
  ultimately show ?thesis
    using utf8_char_bound by (fastforce split: if_splits)
qed

lemma last_segment_append: "CHR ''/'' \<notin> set t \<Longrightarrow> last_segment (s @ ''/'' @ t) = t"
proof -
  assume t: "CHR ''/'' \<notin> set t"
  have "last (split_str ''/'' (s @ CHR ''/'' # t)) = t" for s
  proof (induction s)
    case Nil
    from t show ?case by (simp add: split_char_Cons split_str_clean)
  next
    case (Cons c s)
    obtain x xs where "split_str ''/'' (s @ CHR ''/'' # t) = x # xs"
      by (cases "split_str ''/'' (s @ CHR ''/'' # t)") auto
    moreover have "xs \<noteq> []"
    proof
      assume "xs = []"
      with calculation have "s @ CHR ''/'' # t = x" using join_split_str [of "''/''" "s @ CHR ''/'' # t"] by simp
      moreover have "CHR ''/'' \<notin> set x"
        using \<open>split_str ''/'' (s @ CHR ''/'' # t) = x # xs\<close>
          split_char_no_sep [of x "CHR ''/''" "s @ CHR ''/'' # t"] by simp
      ultimately show False by auto
    qed
    ultimately show ?case using Cons by (cases "c = CHR ''/''") (simp_all add: split_char_Cons)
  qed
  then show ?thesis by (simp add: last_segment_def)
qed

text \<open>What a URL parser makes of the segments of a path: dot segments, also with the dot percent-encoded, are
  resolved, from left to right (\<open>st\<close> is the path so far, reversed).\<close>

definition single_dot :: "string \<Rightarrow> bool" where
  "single_dot x \<longleftrightarrow> x \<in> set [''.'', ''%2e'', ''%2E'']"

definition double_dot :: "string \<Rightarrow> bool" where
  "double_dot x \<longleftrightarrow> x \<in> set [''..'', ''.%2e'', ''.%2E'', ''%2e.'', ''%2E.'', ''%2e%2e'', ''%2e%2E'', ''%2E%2e'', ''%2E%2E'']"

fun url_path :: "string list \<Rightarrow> string list \<Rightarrow> string list" where
  "url_path st [] = rev st"
| "url_path st (x # xs) =
     (if double_dot x then url_path (if xs = [] then [] # tl st else tl st) xs
      else if single_dot x then url_path (if xs = [] then [] # st else st) xs
      else url_path (x # st) xs)"

lemma url_path_snoc:
  assumes "\<not> double_dot a" "\<not> single_dot a" "\<not> double_dot b" "\<not> single_dot b"
  shows "url_path st (xs @ [a, b]) = url_path st (xs @ [a]) @ [b]"
  using assms by (induction xs arbitrary: st) simp_all

lemma split_segment: "CHR ''/'' \<notin> set t \<Longrightarrow> split_str ''/'' (s @ ''/'' @ t) = split_str ''/'' s @ [t]"
proof (induction s)
  case Nil
  then show ?case by (simp add: split_char_Cons split_str_clean)
next
  case (Cons c s)
  obtain x xs where "split_str ''/'' s = x # xs" by (cases "split_str ''/'' s") auto
  with Cons show ?case by (cases "c = CHR ''/''") (simp_all add: split_char_Cons)
qed

text \<open>The encoding leaves the dot alone, so two ids are dot segments, and no other.\<close>

lemma encoded_dots:
  "single_dot (encodeURIComponent i) \<Longrightarrow> i = ''.''"
  "double_dot (encodeURIComponent i) \<Longrightarrow> i = ''..''"
proof -
  have "list_all (\<lambda>x. decodeURIComponent x = Some ''.'') [''.'', ''%2e'', ''%2E'']"
    "list_all (\<lambda>x. decodeURIComponent x = Some ''..'')
      [''..'', ''.%2e'', ''.%2E'', ''%2e.'', ''%2E.'', ''%2e%2e'', ''%2e%2E'', ''%2E%2e'', ''%2E%2E'']" by code_simp+
  then have "single_dot x \<Longrightarrow> decodeURIComponent x = Some ''.''" "double_dot x \<Longrightarrow> decodeURIComponent x = Some ''..''" for x
    unfolding single_dot_def double_dot_def list_all_iff by blast+
  from this [of "encodeURIComponent i"] decode_encode [of i]
  show "single_dot (encodeURIComponent i) \<Longrightarrow> i = ''.''" "double_dot (encodeURIComponent i) \<Longrightarrow> i = ''..''" by simp_all
qed

text \<open>
  C40: an id given to the My Account API, other than the two dot segments, never leaves its path segment, whatever
  characters it has: the path of the request, as a URL parser resolves it, is the path of the
  methods and the encoded id, with no separator of queries or fragments after it; and the id
  read from the location of a new method is the one the server put there. (The two ids are
  let through, see \<open>dot_id_leaves\<close>.)
\<close>

theorem method_id_confined:
  assumes "i \<noteq> ''.''" and "i \<noteq> ''..''"
  shows "url_path [] (split_str ''/'' (method_url path i)) =
      url_path [] (split_str ''/'' (path @ ''v1/authentication-methods'')) @ [encodeURIComponent i] \<and>
    set (encodeURIComponent i) \<inter> set ''/?#&'' = {} \<and>
    decodeURIComponent (last_segment (method_url path i)) = Some i"
proof -
  have clean: "CHR ''/'' \<notin> set (encodeURIComponent i)" "set (encodeURIComponent i) \<inter> set ''/?#&'' = {}"
    using encoded_chars [of "CHR ''/''" i] encoded_chars [of "CHR ''?''" i] encoded_chars [of "CHR ''#''" i]
      encoded_chars [of "CHR ''&''" i] by (auto simp: is_alnum_def Let_def)
  have url: "method_url path i = (path @ ''v1/authentication-methods'') @ ''/'' @ encodeURIComponent i"
    by (simp add: method_url_def)
  have base: "split_str ''/'' (path @ ''v1/authentication-methods'') = split_str ''/'' (path @ ''v1'') @ [''authentication-methods'']"
    using split_segment [of "''authentication-methods''" "path @ ''v1''"] by simp
  have "url_path [] (split_str ''/'' (method_url path i)) =
      url_path [] (split_str ''/'' (path @ ''v1/authentication-methods'')) @ [encodeURIComponent i]"
  proof -
    have segments: "split_str ''/'' (method_url path i) = split_str ''/'' (path @ ''v1'') @ [''authentication-methods'', encodeURIComponent i]"
      unfolding url split_segment [OF clean(1)] base by simp
    have "\<not> single_dot ''authentication-methods''" "\<not> double_dot ''authentication-methods''"
      by (simp_all add: single_dot_def double_dot_def)
    with encoded_dots [of i] assms show ?thesis unfolding segments base by (intro url_path_snoc) auto
  qed
  moreover have "decodeURIComponent (last_segment (method_url path i)) = Some i"
    unfolding url last_segment_append [OF clean(1)] by (rule decode_encode)
  ultimately show ?thesis using clean(2) by blast
qed

theorem method_id_confined_witness:
  "url_path [] (split_str ''/'' (method_url ''/me/'' ''../x?y'')) =
     [[], ''me'', ''v1'', ''authentication-methods'', ''..%2Fx%3Fy'']"
proof -
  have "url_path [] (split_str ''/'' (''/me/v1/authentication-methods'')) = [[], ''me'', ''v1'', ''authentication-methods'']"
    "encodeURIComponent ''../x?y'' = ''..%2Fx%3Fy''" by code_simp+
  with method_id_confined [of "''../x?y''" "''/me/''"] show ?thesis by simp
qed

text \<open>The id \<open>..\<close> is not stopped: deleting it deletes what the service has at the parent path.\<close>

lemma dot_id_leaves: "url_path [] (split_str ''/'' (method_url ''/me/'' ''..'')) = [[], ''me'', ''v1'', []]"
  by code_simp

end
