(* ===== verification/Lock.thy ===== *)
theory Lock
  imports Errors
begin

text \<open>
  \<open>src/lock.ts\<close>: running a callback under a cross-tab lock. The lock itself is third-party
  (\<open>browser-tabs-lock\<close>, or the browser's Web Locks) and is a parameter of the model: what an
  attempt to acquire answers, and what a release does, as functions of the world \<open>'w\<close>. The
  manager's own state is the set of keys it holds and whether the \<open>pagehide\<close> listener is
  installed.
\<close>

section \<open>LegacyLockManager\<close>

record 'w lock_lib =
  lib_acquire :: "string \<Rightarrow> int \<Rightarrow> 'w \<Rightarrow> bool \<times> 'w"
  lib_release :: "string \<Rightarrow> 'w \<Rightarrow> 'w"

record 'w lock_state =
  lk_active :: "string list"
  lk_listener :: bool
  lk_world :: 'w

definition retryAttempts :: nat where
  "retryAttempts = 10"

text \<open>\<open>for (let i = 0; i < retryAttempts && !acquired; i++)\<close>\<close>

fun acquire_loop :: "'w lock_lib \<Rightarrow> string \<Rightarrow> int \<Rightarrow> nat \<Rightarrow> 'w \<Rightarrow> bool \<times> 'w" where
  "acquire_loop lib key timeout 0 w = (False, w)"
| "acquire_loop lib key timeout (Suc n) w =
     (case lib_acquire lib key timeout w of
        (True, w') \<Rightarrow> (True, w')
      | (False, w') \<Rightarrow> acquire_loop lib key timeout n w')"

definition lock_acquired :: "string \<Rightarrow> 'w lock_state \<Rightarrow> 'w lock_state" where
  "lock_acquired key s =
     (let active = (if key \<in> set (lk_active s) then lk_active s else lk_active s @ [key])
      in s\<lparr>lk_active := active, lk_listener := (length active = 1 \<or> lk_listener s)\<rparr>)"

definition lock_finally :: "'w lock_lib \<Rightarrow> string \<Rightarrow> 'w lock_state \<Rightarrow> 'w lock_state" where
  "lock_finally lib key s =
     (let active = filter (\<lambda>k. k \<noteq> key) (lk_active s)
      in s\<lparr>lk_active := active, lk_world := lib_release lib key (lk_world s),
           lk_listener := (active \<noteq> [] \<and> lk_listener s)\<rparr>)"

definition pagehideHandler :: "'w lock_lib \<Rightarrow> 'w lock_state \<Rightarrow> 'w lock_state" where
  "pagehideHandler lib s =
     s\<lparr>lk_world := fold (lib_release lib) (lk_active s) (lk_world s), lk_active := []\<rparr>"

definition runWithLock ::
  "'w lock_lib \<Rightarrow> string \<Rightarrow> int \<Rightarrow> ('w lock_state, js_error, 'a) act \<Rightarrow>
     ('w lock_state, js_error, 'a) act" where
  "runWithLock lib key timeout callback s =
     (case acquire_loop lib key timeout retryAttempts (lk_world s) of
        (False, w) \<Rightarrow> (Inl TimeoutError, s\<lparr>lk_world := w\<rparr>)
      | (True, w) \<Rightarrow>
          ensuring callback (lock_finally lib key) (lock_acquired key (s\<lparr>lk_world := w\<rparr>)))"

section \<open>WebLocksApiManager\<close>

text \<open>What \<open>navigator.locks.request\<close> does with the abort signal: grants the lock (or calls back
  with \<open>null\<close>), rejects because the timer aborted it, or rejects with an error of its own.\<close>

datatype lock_grant = Granted bool | Aborted | RequestFailed js_error

definition webRunWithLock ::
  "(string \<Rightarrow> int \<Rightarrow> 'w \<Rightarrow> lock_grant \<times> 'w) \<Rightarrow> (string \<Rightarrow> 'w \<Rightarrow> 'w) \<Rightarrow> string \<Rightarrow> int \<Rightarrow>
     ('w, js_error, 'a) act \<Rightarrow> ('w, js_error, 'a) act" where
  "webRunWithLock request release key timeout callback w =
     (case request key timeout w of
        (Granted lock, w') \<Rightarrow>
          ensuring (if lock then callback else throw (PlainError ''Lock not available'')) (release key) w'
      | (Aborted, w') \<Rightarrow> (Inl TimeoutError, w')
      | (RequestFailed e, w') \<Rightarrow> (Inl e, w'))"

text \<open>\<open>getLockManager\<close> creates the manager once, by feature detection.\<close>

datatype lock_manager = WebLocks | LegacyLocks

definition createLockManager :: "bool \<Rightarrow> lock_manager" where
  "createLockManager webLocksSupported = (if webLocksSupported then WebLocks else LegacyLocks)"

definition getLockManager :: "bool \<Rightarrow> lock_manager option \<Rightarrow> lock_manager \<times> lock_manager option" where
  "getLockManager webLocksSupported lockManager =
     (case lockManager of
        None \<Rightarrow> (let m = createLockManager webLocksSupported in (m, Some m))
      | Some m \<Rightarrow> (m, Some m))"

definition resetLockManager :: "lock_manager option" where
  "resetLockManager = None"

section \<open>The contract of runWithLock\<close>

text \<open>
  A lock the library grants is exclusive: \<open>held w\<close> is the set of keys somebody holds. This is
  the documented behaviour of both libraries.
\<close>

locale exclusive_lock =
  fixes lib :: "'w lock_lib" and held :: "'w \<Rightarrow> string set"
  assumes acquire_free: "lib_acquire lib key t w = (True, w') \<Longrightarrow> key \<notin> held w \<and> held w' = insert key (held w)"
    and acquire_busy: "lib_acquire lib key t w = (False, w') \<Longrightarrow> held w' = held w"
    and release_held: "held (lib_release lib key w) = held w - {key}"
begin

lemma acquire_loop_held:
  "acquire_loop lib key t n w = (b, w') \<Longrightarrow>
     (if b then key \<notin> held w \<and> held w' = insert key (held w) else held w' = held w)"
proof (induction n arbitrary: w)
  case (Suc n)
  obtain c v where "lib_acquire lib key t w = (c, v)" by force
  with Suc.IH [of v] Suc.prems acquire_free [of key t w v] acquire_busy [of key t w v] show ?case
    by (cases c) auto
qed simp

lemma run_releases:
  assumes cb: "\<And>u. held (lk_world (snd (callback u))) = held (lk_world u)"
  shows "held (lk_world (snd (runWithLock lib key t callback s))) = held (lk_world s)"
proof -
  obtain b w where w: "acquire_loop lib key t retryAttempts (lk_world s) = (b, w)" by force
  show ?thesis
  proof (cases b)
    case False
    with w acquire_loop_held [OF w] show ?thesis by (simp add: runWithLock_def)
  next
    case True
    obtain q u where u: "callback (lock_acquired key (s\<lparr>lk_world := w\<rparr>)) = (q, u)" by force
    from cb [of "lock_acquired key (s\<lparr>lk_world := w\<rparr>)"] u acquire_loop_held [OF w] True
    have "held (lk_world u) = insert key (held (lk_world s))" "key \<notin> held (lk_world s)"
      by (simp_all add: lock_acquired_def Let_def)
    with True w u show ?thesis
      by (simp add: runWithLock_def ensuring_def lock_finally_def Let_def release_held)
  qed
qed

end

text \<open>A library that keeps the set of its held keys.\<close>

definition set_lock :: "string list lock_lib" where
  "set_lock = \<lparr>lib_acquire = (\<lambda>key _ w. if key \<in> set w then (False, w) else (True, key # w)),
     lib_release = (\<lambda>key w. filter (\<lambda>k. k \<noteq> key) w)\<rparr>"

interpretation set_lock: exclusive_lock set_lock set
  by unfold_locales (auto simp: set_lock_def split: if_splits)

section \<open>Interleaved use of the manager\<close>

text \<open>
  Several calls are in flight at once: each acquires, runs and finishes; the page may be hidden
  at any point. The handler is installed whenever a lock is held.
\<close>

inductive lock_step :: "'w lock_lib \<Rightarrow> 'w lock_state \<Rightarrow> 'w lock_state \<Rightarrow> bool" for lib where
  lock_enter: "lib_acquire lib key t (lk_world s) = (True, w) \<Longrightarrow>
     lock_step lib s (lock_acquired key (s\<lparr>lk_world := w\<rparr>))"
| lock_busy: "lib_acquire lib key t (lk_world s) = (False, w) \<Longrightarrow> lock_step lib s (s\<lparr>lk_world := w\<rparr>)"
| lock_leave: "lock_step lib s (lock_finally lib key s)"
| lock_hide: "lk_listener s \<Longrightarrow> lock_step lib s (pagehideHandler lib s)"

inductive lock_reach :: "'w lock_lib \<Rightarrow> 'w lock_state \<Rightarrow> bool" for lib where
  lock_start: "lk_active s = [] \<Longrightarrow> \<not> lk_listener s \<Longrightarrow> lock_reach lib s"
| lock_more: "lock_reach lib s \<Longrightarrow> lock_step lib s s' \<Longrightarrow> lock_reach lib s'"

inductive_cases lock_stepE: "lock_step lib s s'"

lemma lock_reach_listener: "lock_reach lib s \<Longrightarrow> lk_active s \<noteq> [] \<longrightarrow> lk_listener s"
proof (induction rule: lock_reach.induct)
  case (lock_more s s')
  from lock_more.hyps(2) lock_more.IH show ?case
    by (cases rule: lock_step.cases)
      (auto simp: lock_acquired_def lock_finally_def pagehideHandler_def Let_def filter_empty_conv)
qed simp

section \<open>Properties\<close>

text \<open>
  C24: with an exclusive lock underneath, \<open>runWithLock\<close> leaks none: whatever the callback does,
  returns or throws, the same locks are held after the call as before it.
\<close>

theorem runWithLock_releases:
  assumes "exclusive_lock lib held"
    and "\<And>u. held (lk_world (snd (callback u))) = held (lk_world u)"
  shows "held (lk_world (snd (runWithLock lib key timeout callback s))) = held (lk_world s)"
  using assms by (rule exclusive_lock.run_releases)

theorem runWithLock_releases_witness:
  "set (lk_world (snd (runWithLock set_lock ''k'' 5000 (throw TimeoutError)
      \<lparr>lk_active = [], lk_listener = False, lk_world = []\<rparr>))) = {}"
  using runWithLock_releases [OF set_lock.exclusive_lock_axioms, of "throw TimeoutError" "''k''" 5000
      "\<lparr>lk_active = [], lk_listener = False, lk_world = []\<rparr>"]
  by simp

text \<open>
  \<open>runWithLock\<close> runs the callback only when one of the ten attempts to acquire the lock
  succeeded, and fails with a \<open>TimeoutError\<close> otherwise, the callback not run; whatever the
  callback returned or threw is the result, and the key is released and forgotten after it.
\<close>

lemma runWithLock_exact:
  "runWithLock lib key timeout callback s =
     (case acquire_loop lib key timeout 10 (lk_world s) of
        (False, w) \<Rightarrow> (Inl TimeoutError, s\<lparr>lk_world := w\<rparr>)
      | (True, w) \<Rightarrow>
          (let (r, u) = callback (lock_acquired key (s\<lparr>lk_world := w\<rparr>)) in (r, lock_finally lib key u)))
   \<and> key \<notin> set (lk_active (lock_finally lib key u))"
  by (simp add: runWithLock_def retryAttempts_def ensuring_def lock_finally_def Let_def
      split: prod.splits bool.splits)

text \<open>
  C31: in every interleaving of calls and page events, a lock is held only with the \<open>pagehide\<close>
  listener installed, and when the page is hidden the handler releases every lock held.
\<close>

theorem pagehide_releases_all:
  assumes "lock_reach lib s" and "exclusive_lock lib held"
  shows "(lk_active s \<noteq> [] \<longrightarrow> lk_listener s) \<and>
         held (lk_world (pagehideHandler lib s)) = held (lk_world s) - set (lk_active s)"
proof -
  have "held (fold (lib_release lib) ks w) = held w - set ks" for ks w
    using exclusive_lock.release_held [OF assms(2)] by (induction ks arbitrary: w) auto
  with lock_reach_listener [OF assms(1)] show ?thesis by (simp add: pagehideHandler_def)
qed

theorem pagehide_releases_all_witness:
  "set (lk_world (pagehideHandler set_lock
      (lock_acquired ''k'' \<lparr>lk_active = [], lk_listener = False, lk_world = [''k'']\<rparr>))) = {}"
proof -
  let ?s = "\<lparr>lk_active = [], lk_listener = False, lk_world = []\<rparr> :: string list lock_state"
  let ?t = "lock_acquired ''k'' (?s\<lparr>lk_world := [''k'']\<rparr>)"
  have "lock_reach set_lock ?s" by (rule lock_start) simp_all
  moreover have "lock_step set_lock ?s ?t"
    by (rule lock_enter [where t = 0]) (simp add: set_lock_def)
  ultimately have "lock_reach set_lock ?t" by (rule lock_more)
  from pagehide_releases_all [OF this set_lock.exclusive_lock_axioms] show ?thesis
    by (simp add: lock_acquired_def Let_def)
qed

end
