(* ===== verification/Anonymous.thy ===== *)
theory Anonymous
  imports Lock Cache
begin

text \<open>
  \<open>src/anonymous/\<close>: the cache of anonymous sessions and the client over it. The package client
  that talks to the server (\<open>AnonymousSessionClient\<close> of \<open>@auth0/auth0-auth-js\<close>), the clock and the
  lock of the page are given as operations on the caller's state \<open>'s\<close>, in the record \<open>anon_ops\<close>.
\<close>

section \<open>AnonymousSessionCacheManager\<close>

text \<open>The stores: the browser's \<open>localStorage\<close> (texts), the memory stores (a missing key is
  \<open>null\<close>), and the keys of the map \<open>slots\<close>.\<close>

record anon_store =
  an_local :: "string obj"
  an_memory :: "json obj"
  an_slots :: "string list"

record anon_cache =
  ac_baseKey :: string
  ac_useLocalStorage :: bool

definition SESSION_TOKEN_SUFFIX :: string where
  "SESSION_TOKEN_SUFFIX = ''session''"

definition SESSION_EXPIRED_SUFFIX :: string where
  "SESSION_EXPIRED_SUFFIX = ''session_expired''"

text \<open>\<open>available\<close> is whether the page has a readable \<open>localStorage\<close>.\<close>

definition new_AnonymousCache :: "string \<Rightarrow> string \<Rightarrow> bool \<Rightarrow> anon_cache" where
  "new_AnonymousCache clientId cacheMode available =
     \<lparr>ac_baseKey = CACHE_KEY_PREFIX @ ''::'' @ clientId @ ''::anonymous'',
      ac_useLocalStorage = (cacheMode = ''localStorage'' \<and> available)\<rparr>"

definition ac_sessionKey :: "anon_cache \<Rightarrow> string" where
  "ac_sessionKey cache = ac_baseKey cache @ ''::'' @ SESSION_TOKEN_SUFFIX"

definition ac_expiredKey :: "anon_cache \<Rightarrow> string" where
  "ac_expiredKey cache = ac_baseKey cache @ ''::'' @ SESSION_EXPIRED_SUFFIX"

text \<open>\<open>makeLocalStore\<close> and \<open>makeMemoryStore\<close>: the value of a store, \<^const>\<open>None\<close> for \<open>null\<close>.\<close>

definition local_value :: "string obj \<Rightarrow> string \<Rightarrow> json option" where
  "local_value storage key = (case map_of storage key of
     None \<Rightarrow> None
   | Some raw \<Rightarrow> if raw = [] then None
                 else (case json_parse raw of Some JNull \<Rightarrow> None | v \<Rightarrow> v))"

definition store_get :: "anon_cache \<Rightarrow> string \<Rightarrow> anon_store \<Rightarrow> json option" where
  "store_get cache key s =
     (if ac_useLocalStorage cache then local_value (an_local s) key else map_of (an_memory s) key)"

definition store_set :: "anon_cache \<Rightarrow> string \<Rightarrow> json \<Rightarrow> anon_store \<Rightarrow> anon_store" where
  "store_set cache key v s =
     (if ac_useLocalStorage cache then s\<lparr>an_local := AList.update key (stringify v) (an_local s)\<rparr>
      else s\<lparr>an_memory := AList.update key v (an_memory s)\<rparr>)"

definition store_remove :: "anon_cache \<Rightarrow> string \<Rightarrow> anon_store \<Rightarrow> anon_store" where
  "store_remove cache key s =
     (if ac_useLocalStorage cache then s\<lparr>an_local := AList.delete key (an_local s)\<rparr>
      else s\<lparr>an_memory := AList.delete key (an_memory s)\<rparr>)"

text \<open>\<open>getStore\<close>: the key of a slot, which it enters into the map.\<close>

definition slot_key :: "anon_cache \<Rightarrow> string option \<Rightarrow> string option \<Rightarrow> string" where
  "slot_key cache audience scope =
     ac_baseKey cache @ ''::'' @
     stringify (JArr [JStr (case audience of None \<Rightarrow> [] | Some a \<Rightarrow> a),
                      JStr (case scope of None \<Rightarrow> [] | Some c \<Rightarrow> c)])"

definition getStore :: "anon_cache \<Rightarrow> string option \<Rightarrow> string option \<Rightarrow> anon_store \<Rightarrow> string \<times> anon_store" where
  "getStore cache audience scope s =
     (let key = slot_key cache audience scope
      in (key, if key \<in> set (an_slots s) then s else s\<lparr>an_slots := an_slots s @ [key]\<rparr>))"

definition getSessionToken :: "anon_cache \<Rightarrow> anon_store \<Rightarrow> json option" where
  "getSessionToken cache = store_get cache (ac_sessionKey cache)"

definition setSessionToken :: "anon_cache \<Rightarrow> json \<Rightarrow> anon_store \<Rightarrow> anon_store" where
  "setSessionToken cache session s =
     store_remove cache (ac_expiredKey cache) (store_set cache (ac_sessionKey cache) session s)"

definition isSessionExpired :: "anon_cache \<Rightarrow> anon_store \<Rightarrow> bool" where
  "isSessionExpired cache s = json_truthy (store_get cache (ac_expiredKey cache) s)"

definition markSessionExpired :: "anon_cache \<Rightarrow> anon_store \<Rightarrow> anon_store" where
  "markSessionExpired cache = store_set cache (ac_expiredKey cache) (JBool True)"

definition removeAll :: "anon_cache \<Rightarrow> anon_store \<Rightarrow> anon_store" where
  "removeAll cache s =
     (let s1 = store_remove cache (ac_sessionKey cache) s;
          s2 = store_remove cache (ac_expiredKey cache) s1;
          s3 = fold (store_remove cache) (an_slots s) s2;
          s4 = s3\<lparr>an_slots := []\<rparr>;
          prefix = ac_baseKey cache @ ''::''
      in if ac_useLocalStorage cache
         then s4\<lparr>an_local := fold AList.delete
                   (filter (\<lambda>key. starts_with key prefix) (obj_keys (an_local s4))) (an_local s4)\<rparr>
         else s4)"

section \<open>AnonymousSessionApiClient\<close>

record anon_session =
  as_accessToken :: string
  as_expiresAt :: int
  as_scope :: "string option"
  as_sessionToken :: string
  as_sessionTokenExpiresAt :: "int option"

record anon_options =
  ao_audience :: "string option"
  ao_scope :: "string option"

record 's anon_ops =
  an_read :: "'s \<Rightarrow> anon_store"
  an_write :: "anon_store \<Rightarrow> 's \<Rightarrow> 's"
  an_now :: "'s \<Rightarrow> int"
  an_lock :: "string \<Rightarrow> int \<Rightarrow> ('s, js_error, json) act \<Rightarrow> ('s, js_error, json) act"
  an_createSession :: "anon_options \<Rightarrow> ('s, js_error, anon_session) act"
  an_getAccessToken :: "anon_options \<Rightarrow> string option \<Rightarrow> ('s, js_error, anon_session) act"
  an_mintTransferToken :: "string \<Rightarrow> ('s, js_error, string) act"
  an_logout :: "('s, js_error, unit) act"

definition EXPIRY_LEEWAY_SECONDS :: int where
  "EXPIRY_LEEWAY_SECONDS = 60"

definition session_expired_error :: js_error where
  "session_expired_error = AnonymousSession ''session_expired''
     ''The anonymous session has expired. Call createSession() to start a new one.''"

text \<open>The slot and the shared session of a new session, and the access to the caller's stores.\<close>

definition slot_of :: "anon_session \<Rightarrow> json" where
  "slot_of session = JObj ([(''accessToken'', JStr (as_accessToken session)),
     (''expiresAt'', JNum (as_expiresAt session))] @ opt_prop ''scope'' (map_option JStr (as_scope session)))"

definition shared_of :: "anon_session \<Rightarrow> json" where
  "shared_of session = JObj ((''sessionToken'', JStr (as_sessionToken session)) #
     opt_prop ''sessionTokenExpiresAt'' (map_option JNum (as_sessionTokenExpiresAt session)))"

definition on_store :: "'s anon_ops \<Rightarrow> (anon_store \<Rightarrow> anon_store) \<Rightarrow> ('s, js_error, unit) act" where
  "on_store ops f = modify (\<lambda>s. an_write ops (f (an_read ops s)) s)"

text \<open>A slot is used while it has more than the leeway to run; \<open>now\<close> is \<open>Date.now()\<close>, so both
  sides are multiplied by 1000.\<close>

definition slot_fresh :: "int \<Rightarrow> json option \<Rightarrow> bool" where
  "slot_fresh now slot = (case slot of
     None \<Rightarrow> False
   | Some v \<Rightarrow> json_truthy slot \<and> (case json_num (json_get v ''expiresAt'') of
        None \<Rightarrow> False | Some x \<Rightarrow> (x - EXPIRY_LEEWAY_SECONDS) * 1000 > now))"

definition put_slot :: "'s anon_ops \<Rightarrow> anon_cache \<Rightarrow> anon_options \<Rightarrow> anon_session \<Rightarrow> ('s, js_error, unit) act" where
  "put_slot ops cache options session = on_store ops (\<lambda>s.
     case getStore cache (ao_audience options) (ao_scope options) s of
       (key, s') \<Rightarrow> store_set cache key (slot_of session) s')"

definition stored_session_token :: "anon_cache \<Rightarrow> anon_store \<Rightarrow> string option" where
  "stored_session_token cache s =
     Option.bind (getSessionToken cache s) (\<lambda>v. json_str (json_get v ''sessionToken''))"

definition anon_createSession ::
  "'s anon_ops \<Rightarrow> anon_cache \<Rightarrow> anon_options \<Rightarrow> ('s, js_error, anon_session) act" where
  "anon_createSession ops cache options =
     andThen (an_createSession ops options) (\<lambda>session.
     andNext (on_store ops (setSessionToken cache (shared_of session)))
     (andNext (put_slot ops cache options session) (ret session)))"

text \<open>The callback under the lock; \<open>key\<close> is the store fetched before.\<close>

definition anon_renew ::
  "'s anon_ops \<Rightarrow> anon_cache \<Rightarrow> anon_options \<Rightarrow> string \<Rightarrow> ('s, js_error, json) act" where
  "anon_renew ops cache options key =
     andThen (gets (\<lambda>s. isSessionExpired cache (an_read ops s))) (\<lambda>expired.
     if expired then throw session_expired_error
     else
       andThen (gets (\<lambda>s. (an_now ops s, store_get cache key (an_read ops s)))) (\<lambda>(now, afterLock).
       if slot_fresh now afterLock then ret (the afterLock)
       else
         andThen (gets (\<lambda>s. stored_session_token cache (an_read ops s))) (\<lambda>sessionToken.
         andThen (catching (an_getAccessToken ops options sessionToken) (\<lambda>e.
             andNext (case e of
                AnonymousSession code _ \<Rightarrow>
                  if code = ''session_expired'' \<or> code = ''invalid_session_token''
                  then on_store ops (\<lambda>s. markSessionExpired cache (removeAll cache s))
                  else ret ()
              | _ \<Rightarrow> ret ()) (throw e))) (\<lambda>session.
         andNext (put_slot ops cache options session)
         (andNext (on_store ops (\<lambda>s. if json_truthy (getSessionToken cache s) then s
                                     else setSessionToken cache (shared_of session) s))
           (ret (slot_of session)))))))"

definition anon_getTokenSilently ::
  "'s anon_ops \<Rightarrow> anon_cache \<Rightarrow> string \<Rightarrow> anon_options \<Rightarrow> ('s, js_error, json) act" where
  "anon_getTokenSilently ops cache clientId options =
     andNext (on_store ops (\<lambda>s. snd (getStore cache (ao_audience options) (ao_scope options) s)))
     (andThen (gets (\<lambda>s. (an_now ops s, store_get cache (slot_key cache (ao_audience options) (ao_scope options)) (an_read ops s))))
       (\<lambda>(now, slot).
         if slot_fresh now slot then ret (the slot)
         else an_lock ops (''anonymous::'' @ clientId) 5000
           (anon_renew ops cache options (slot_key cache (ao_audience options) (ao_scope options)))))"

definition anon_mintTransferToken :: "'s anon_ops \<Rightarrow> anon_cache \<Rightarrow> ('s, js_error, string option) act" where
  "anon_mintTransferToken ops cache =
     andThen (gets (\<lambda>s. stored_session_token cache (an_read ops s))) (\<lambda>stored.
       if \<not> truthy stored then ret None
       else andThen (an_mintTransferToken ops (the stored)) (\<lambda>t. ret (Some t)))"

definition anon_logout :: "'s anon_ops \<Rightarrow> anon_cache \<Rightarrow> ('s, js_error, unit) act" where
  "anon_logout ops cache = andNext (an_logout ops) (on_store ops (removeAll cache))"

definition anon_hasSession :: "'s anon_ops \<Rightarrow> anon_cache \<Rightarrow> 's \<Rightarrow> bool" where
  "anon_hasSession ops cache s = truthy (stored_session_token cache (an_read ops s))"

section \<open>Lemmas\<close>

lemma starts_with_append_self: "starts_with (p @ q) p"
  by (simp add: starts_with_def)

lemma store_get_set:
  "json_wf v \<Longrightarrow> v \<noteq> JNull \<Longrightarrow>
     store_get cache j (store_set cache k v s) = (if j = k then Some v else store_get cache j s)"
  by (auto simp: store_get_def store_set_def local_value_def json_parse_stringify split: json.splits)

lemma store_get_remove:
  "store_get cache j (store_remove cache k s) = (if j = k then None else store_get cache j s)"
  by (auto simp: store_get_def store_remove_def local_value_def)

lemma store_get_removes:
  "store_get cache j (fold (store_remove cache) ks s) = (if j \<in> set ks then None else store_get cache j s)"
  by (induction ks arbitrary: s) (auto simp: store_get_remove)

lemma store_get_slots [simp]: "store_get cache j (s\<lparr>an_slots := x\<rparr>) = store_get cache j s"
  by (simp add: store_get_def)

lemma anon_keys:
  "ac_sessionKey cache \<noteq> ac_expiredKey cache"
  "slot_key cache a c \<noteq> ac_sessionKey cache" "slot_key cache a c \<noteq> ac_expiredKey cache"
  by (simp_all add: ac_sessionKey_def ac_expiredKey_def slot_key_def SESSION_TOKEN_SUFFIX_def
      SESSION_EXPIRED_SUFFIX_def)

lemma slot_key_inject:
  "slot_key cache (Some a) (Some c) = slot_key cache (Some b) (Some d) \<longleftrightarrow> a = b \<and> c = d"
proof -
  have "slot_key cache (Some a) (Some c) = slot_key cache (Some b) (Some d) \<longleftrightarrow>
      stringify (JArr [JStr a, JStr c]) = stringify (JArr [JStr b, JStr d])"
    unfolding slot_key_def option.case by blast
  also have "\<dots> \<longleftrightarrow> JArr [JStr a, JStr c] = JArr [JStr b, JStr d]"
    by (rule stringify_inject) simp_all
  finally show ?thesis by simp
qed

lemma anon_values_wf [simp]: "json_wf (slot_of session)" "json_wf (shared_of session)"
  "slot_of session \<noteq> JNull" "shared_of session \<noteq> JNull"
  by (auto simp: slot_of_def shared_of_def opt_prop_def split: option.splits)

lemma store_get_removeAll:
  "store_get cache j (removeAll cache s) =
     (if j = ac_sessionKey cache \<or> j = ac_expiredKey cache \<or> j \<in> set (an_slots s) \<or>
         (ac_useLocalStorage cache \<and> starts_with j (ac_baseKey cache @ ''::''))
      then None else store_get cache j s)"
proof -
  let ?s4 = "(fold (store_remove cache) (an_slots s)
     (store_remove cache (ac_expiredKey cache) (store_remove cache (ac_sessionKey cache) s)))\<lparr>an_slots := []\<rparr>"
  have s4: "store_get cache j ?s4 =
      (if j = ac_sessionKey cache \<or> j = ac_expiredKey cache \<or> j \<in> set (an_slots s) then None
       else store_get cache j s)"
    by (simp add: store_get_removes store_get_remove)
  have doomed: "map_of (fold AList.delete (filter P (obj_keys m)) m) j = (if P j then None else map_of m j)"
    for P and m :: "string obj"
  proof -
    have "map_of (fold AList.delete ks m) j = (if j \<in> set ks then None else map_of m j)" for ks
      by (induction ks arbitrary: m) auto
    then show ?thesis by (auto simp: set_obj_keys dom_def)
  qed
  show ?thesis
  proof (cases "ac_useLocalStorage cache")
    case False
    then show ?thesis using s4 by (simp add: removeAll_def Let_def)
  next
    case True
    have slots: "an_slots (fold (store_remove cache) ks x) = an_slots x" for ks x
      by (induction ks arbitrary: x) (simp_all add: store_remove_def)
    from True s4 show ?thesis
      by (auto simp: removeAll_def Let_def store_get_def local_value_def doomed)
  qed
qed

text \<open>The identity: the session token, and whether the session was marked expired.\<close>

definition anon_identity :: "anon_cache \<Rightarrow> anon_store \<Rightarrow> string option \<times> bool" where
  "anon_identity cache s = (stored_session_token cache s, isSessionExpired cache s)"

text \<open>What a renewal makes of it, from the answer of the service: an expired session is dropped and marked, and
  one is established where there was none. Any other answer leaves it.\<close>

definition declared_expired :: "js_error \<Rightarrow> bool" where
  "declared_expired e \<longleftrightarrow> (\<exists>code \<in> set [''session_expired'', ''invalid_session_token'']. \<exists>m. e = AnonymousSession code m)"

definition renewed_identity :: "anon_cache \<Rightarrow> (js_error + anon_session) \<Rightarrow> anon_store \<Rightarrow> string option \<times> bool" where
  "renewed_identity cache answer s = (case answer of
     Inl e \<Rightarrow> if declared_expired e then (None, True) else anon_identity cache s
   | Inr session \<Rightarrow> if json_truthy (getSessionToken cache s) then anon_identity cache s
                    else (Some (as_sessionToken session), False))"

text \<open>The service is asked when the session is not known to be expired and the token is not fresh.\<close>

definition renewal_due :: "anon_cache \<Rightarrow> string \<Rightarrow> int \<Rightarrow> anon_store \<Rightarrow> bool" where
  "renewal_due cache key now s \<longleftrightarrow> \<not> isSessionExpired cache s \<and> \<not> slot_fresh now (store_get cache key s)"

lemma identity_put_slot:
  "anon_identity cache (store_set cache (slot_key cache a c) (slot_of session) (s\<lparr>an_slots := x\<rparr>))
     = anon_identity cache s"
  "anon_identity cache (store_set cache (slot_key cache a c) (slot_of session) s) = anon_identity cache s"
  "getSessionToken cache (store_set cache (slot_key cache a c) (slot_of session) s) = getSessionToken cache s"
  using anon_keys [of cache] anon_keys(2,3) [of cache a c, symmetric]
  by (simp_all add: anon_identity_def stored_session_token_def getSessionToken_def isSessionExpired_def
      store_get_set)

lemma identity_expired: "anon_identity cache (markSessionExpired cache (removeAll cache s)) = (None, True)"
  using anon_keys [of cache]
  by (simp add: anon_identity_def stored_session_token_def getSessionToken_def isSessionExpired_def
      markSessionExpired_def store_get_set store_get_removeAll json_truthy_def)

lemma identity_established: "anon_identity cache (setSessionToken cache (shared_of session) s) = (Some (as_sessionToken session), False)"
proof -
  have "json_str (json_get (shared_of session) ''sessionToken'') = Some (as_sessionToken session)"
    by (simp add: shared_of_def json_get_def json_str_def)
  with anon_keys(1) [of cache] show ?thesis
    by (simp add: anon_identity_def stored_session_token_def getSessionToken_def isSessionExpired_def setSessionToken_def
        store_get_set store_get_remove json_truthy_def)
qed

lemma identity_getStore: "anon_identity cache (snd (getStore cache a c s)) = anon_identity cache s"
  "getSessionToken cache (snd (getStore cache a c s)) = getSessionToken cache s"
  "isSessionExpired cache (snd (getStore cache a c s)) = isSessionExpired cache s"
  by (simp_all add: getStore_def anon_identity_def stored_session_token_def getSessionToken_def
      isSessionExpired_def Let_def)

section \<open>The contract of the operations\<close>

text \<open>
  The stores are a part of the caller's state that the package, the clock and the lock leave
  alone, and the service answers whatever they hold; a callback under the lock is run once, on the
  stores as they are, or not at all.
\<close>

locale anon_page =
  fixes ops :: "'s anon_ops"
  assumes read_write: "an_read ops (an_write ops x s) = x"
    and write_now: "an_now ops (an_write ops x s) = an_now ops s"
    and write_answer: "fst (an_getAccessToken ops options tok (an_write ops x s)) = fst (an_getAccessToken ops options tok s)"
    and create_frame: "effect (frame (an_read ops)) (an_createSession ops options)"
    and token_frame: "effect (frame (an_read ops)) (an_getAccessToken ops options tok)"
    and mint_frame: "effect (frame (an_read ops)) (an_mintTransferToken ops t)"
    and logout_frame: "effect (frame (an_read ops)) (an_logout ops)"
    and lock_cases: "an_lock ops key timeout m s = (r, u) \<Longrightarrow> an_read ops u = an_read ops s \<or>
      (\<exists>v x. an_read ops v = an_read ops s \<and> an_now ops v = an_now ops s \<and>
         (\<forall>options tok. fst (an_getAccessToken ops options tok v) = fst (an_getAccessToken ops options tok s)) \<and>
         m v = (r, x) \<and> an_read ops u = an_read ops x)"
begin

lemma renew_identity:
  "anon_identity cache (an_read ops (snd (anon_renew ops cache options key s))) =
     (if renewal_due cache key (an_now ops s) (an_read ops s)
      then renewed_identity cache (fst (an_getAccessToken ops options (stored_session_token cache (an_read ops s)) s)) (an_read ops s)
      else anon_identity cache (an_read ops s))"
proof (cases "renewal_due cache key (an_now ops s) (an_read ops s)")
  case False
  then show ?thesis by (auto simp: anon_renew_def renewal_due_def)
next
  case due: True
  then have fresh: "\<not> isSessionExpired cache (an_read ops s)" "\<not> slot_fresh (an_now ops s) (store_get cache key (an_read ops s))"
    by (simp_all add: renewal_due_def)
  let ?tok = "stored_session_token cache (an_read ops s)"
  obtain r u where u: "an_getAccessToken ops options ?tok s = (r, u)" by force
  have read_u: "an_read ops u = an_read ops s"
    using effectD [OF token_frame u] by (simp add: frame_def)
  show ?thesis
  proof (cases r)
    case (Inl e)
    have "anon_renew ops cache options key s = (Inl e, snd ((case e of
        AnonymousSession code _ \<Rightarrow>
          if code = ''session_expired'' \<or> code = ''invalid_session_token''
          then on_store ops (\<lambda>s. markSessionExpired cache (removeAll cache s)) else ret ()
      | _ \<Rightarrow> ret ()) u :: (js_error + unit) \<times> 's))"
      using fresh u Inl by (cases e) (simp_all add: anon_renew_def act_simps on_store_def)
    then have "an_read ops (snd (anon_renew ops cache options key s)) =
        (if declared_expired e then markSessionExpired cache (removeAll cache (an_read ops s)) else an_read ops s)"
      using read_u by (cases e) (auto simp: on_store_def read_write declared_expired_def)
    with due u Inl show ?thesis by (simp add: renewed_identity_def identity_expired)
  next
    case (Inr session)
    let ?x = "case getStore cache (ao_audience options) (ao_scope options) (an_read ops s) of
       (key, s') \<Rightarrow> store_set cache key (slot_of session) s'"
    have x: "anon_identity cache ?x = anon_identity cache (an_read ops s)"
      "getSessionToken cache ?x = getSessionToken cache (an_read ops s)"
      using identity_getStore [of cache "ao_audience options" "ao_scope options" "an_read ops s"]
      by (simp_all add: getStore_def Let_def identity_put_slot)
    have "an_read ops (snd (anon_renew ops cache options key s)) =
        (if json_truthy (getSessionToken cache ?x) then ?x else setSessionToken cache (shared_of session) ?x)"
      using fresh u Inr read_u
      by (simp add: anon_renew_def act_simps on_store_def put_slot_def read_write)
    with x due u Inr show ?thesis by (simp add: renewed_identity_def identity_established)
  qed
qed

lemma silent_identity:
  assumes run: "anon_getTokenSilently ops cache clientId options s = (r, t)"
    and key: "key = slot_key cache (ao_audience options) (ao_scope options)"
  shows "anon_identity cache (an_read ops t) = anon_identity cache (an_read ops s) \<or>
     renewal_due cache key (an_now ops s) (an_read ops s) \<and>
     anon_identity cache (an_read ops t) =
       renewed_identity cache (fst (an_getAccessToken ops options (stored_session_token cache (an_read ops s)) s)) (an_read ops s)"
proof -
  let ?x = "snd (getStore cache (ao_audience options) (ao_scope options) (an_read ops s))"
  let ?u = "an_write ops ?x s"
  have x: "anon_identity cache ?x = anon_identity cache (an_read ops s)"
    "stored_session_token cache ?x = stored_session_token cache (an_read ops s)"
    "renewal_due cache key now ?x = renewal_due cache key now (an_read ops s)"
    "renewed_identity cache answer ?x = renewed_identity cache answer (an_read ops s)" for now answer
    by (simp_all add: getStore_def anon_identity_def stored_session_token_def renewal_due_def renewed_identity_def
        getSessionToken_def isSessionExpired_def Let_def split: sum.split)
  consider "an_read ops t = ?x"
    | "an_lock ops (''anonymous::'' @ clientId) 5000 (anon_renew ops cache options key) ?u = (r, t)"
    using run by (auto simp: anon_getTokenSilently_def on_store_def read_write key act_simps split: if_splits)
  then show ?thesis
  proof cases
    case 2
    from lock_cases [OF this] consider "an_read ops t = ?x"
      | v y where "an_read ops v = ?x" "an_now ops v = an_now ops ?u"
        "\<And>options tok. fst (an_getAccessToken ops options tok v) = fst (an_getAccessToken ops options tok ?u)"
        "anon_renew ops cache options key v = (r, y)" "an_read ops t = an_read ops y"
      unfolding read_write by blast
    then show ?thesis
    proof cases
      case (2 v y)
      with renew_identity [of cache options key v] show ?thesis
        by (auto simp: x write_now write_answer split: if_splits)
    qed (simp add: x)
  qed (simp add: x)
qed

end

end
