(* ===== verification/ClientConfig.thy ===== *)
theory ClientConfig
  imports CacheManager Storage MyAccount Anonymous
begin

text \<open>
  The configuration of a client: the options and the constructor of \<open>src/Auth0Client.ts\<close>, the
  names and helpers of \<open>src/Auth0Client.utils.ts\<close>, and the URLs the client builds. The
  constructor is a function from the options and the facts of the page to the configuration the
  methods work with, the warnings it prints, or the error it throws.
\<close>

section \<open>Constants\<close>

definition DEFAULT_AUTHORIZE_TIMEOUT_IN_SECONDS :: int where
  "DEFAULT_AUTHORIZE_TIMEOUT_IN_SECONDS = 60"

definition MISSING_REFRESH_TOKEN_ERROR_MESSAGE :: string where
  "MISSING_REFRESH_TOKEN_ERROR_MESSAGE = ''Missing Refresh Token''"

definition INVALID_REFRESH_TOKEN_ERROR_MESSAGE :: string where
  "INVALID_REFRESH_TOKEN_ERROR_MESSAGE = ''invalid refresh token''"

definition USER_BLOCKED_ERROR_MESSAGE :: string where
  "USER_BLOCKED_ERROR_MESSAGE = ''user is blocked''"

definition MFA_STEP_UP_ERROR_DESCRIPTION :: string where
  "MFA_STEP_UP_ERROR_DESCRIPTION = ''Multifactor authentication required''"

definition DEFAULT_SESSION_CHECK_EXPIRY_DAYS :: int where
  "DEFAULT_SESSION_CHECK_EXPIRY_DAYS = 1"

definition SESSION_EXPIRY_LEEWAY_SECONDS :: int where
  "SESSION_EXPIRY_LEEWAY_SECONDS = 30"

section \<open>Names\<close>

definition GET_TOKEN_SILENTLY_LOCK_KEY :: string where
  "GET_TOKEN_SILENTLY_LOCK_KEY = ''auth0.lock.getTokenSilently''"

definition GET_TOKEN_FROM_IFRAME_LOCK_KEY :: string where
  "GET_TOKEN_FROM_IFRAME_LOCK_KEY = ''auth0.lock.getTokenFromIFrame''"

definition buildGetTokenSilentlyLockKey :: "string \<Rightarrow> string \<Rightarrow> string" where
  "buildGetTokenSilentlyLockKey clientId audience =
     GET_TOKEN_SILENTLY_LOCK_KEY @ ''.'' @ clientId @ ''.'' @ audience"

definition buildIframeLockKey :: "string \<Rightarrow> string" where
  "buildIframeLockKey clientId = GET_TOKEN_FROM_IFRAME_LOCK_KEY @ ''.'' @ clientId"

definition buildOrganizationHintCookieName :: "string \<Rightarrow> string" where
  "buildOrganizationHintCookieName clientId = ''auth0.'' @ clientId @ ''.organization_hint''"

definition OLD_IS_AUTHENTICATED_COOKIE_NAME :: string where
  "OLD_IS_AUTHENTICATED_COOKIE_NAME = ''auth0.is.authenticated''"

definition buildIsAuthenticatedCookieName :: "string \<Rightarrow> string" where
  "buildIsAuthenticatedCookieName clientId = ''auth0.'' @ clientId @ ''.is.authenticated''"

section \<open>Caches of the page\<close>

text \<open>
  The in-memory cache of a client, the browser's \<open>localStorage\<close>, and the application's own cache
  if it passed one (\<open>'u\<close>) live side by side; each \<open>ICache\<close> works on its part.
\<close>

record 'u page_caches =
  pc_memory :: "cacheable obj"
  pc_local :: "string obj"
  pc_custom :: 'u

definition on_part :: "('p \<Rightarrow> 'c) \<Rightarrow> ('c \<Rightarrow> 'p \<Rightarrow> 'p) \<Rightarrow> 'c icache \<Rightarrow> 'p icache" where
  "on_part get put ic =
     \<lparr>ic_get = (\<lambda>p. ic_get ic (get p)), ic_set = (\<lambda>k v p. put (ic_set ic k v (get p)) p),
      ic_remove = (\<lambda>k p. put (ic_remove ic k (get p)) p),
      ic_allKeys = (case ic_allKeys ic of None \<Rightarrow> None | Some f \<Rightarrow> Some (\<lambda>p. f (get p)))\<rparr>"

definition cacheFactory :: "string \<Rightarrow> 'u page_caches icache option" where
  "cacheFactory location =
     (if location = ''memory'' then Some (on_part pc_memory (\<lambda>c p. p\<lparr>pc_memory := c\<rparr>) InMemoryCache)
      else if location = ''localstorage'' then Some (on_part pc_local (\<lambda>c p. p\<lparr>pc_local := c\<rparr>) LocalStorageCache)
      else None)"

section \<open>Options\<close>

text \<open>\<^const>\<open>None\<close> is an option that is absent; a boolean option without default counts as
  \<open>false\<close> when absent. The scope inside \<open>authorizationParams\<close> is a text or an object.\<close>

record 'c client_options =
  co_domain :: string
  co_issuer :: "string option"
  co_clientId :: string
  co_leeway :: "int option"
  co_cacheLocation :: "string option"
  co_cache :: "'c icache option"
  co_useRefreshTokens :: bool
  co_useRefreshTokensFallback :: "bool option"
  co_authorizeTimeoutInSeconds :: "int option"
  co_httpTimeoutInSeconds :: "int option"
  co_auth0Client :: "json obj option"
  co_legacySameSiteCookie :: "bool option"
  co_useCookiesForTransactions :: bool
  co_sessionCheckExpiryDays :: "int option"
  co_cookieDomain :: "string option"
  co_useFormData :: "bool option"
  co_workerUrl :: "string option"
  co_useMrrt :: bool
  co_useDpop :: bool
  co_refreshTokenMode :: "string option"
  co_interactiveErrorHandler :: "string option"
  co_authorizationParams :: params
  co_anonymousSessionsCacheMode :: "string option"
  co_createAnonymousSession :: bool
  co_sessionTransferTokenQueryParamName :: "string option"
  co_enterpriseConnect :: bool

definition or_option :: "'a option \<Rightarrow> 'a \<Rightarrow> 'a option" where
  "or_option v d = (case v of None \<Rightarrow> Some d | Some x \<Rightarrow> Some x)"

text \<open>\<open>{...this.defaultOptions, ...options, authorizationParams: {...}}\<close>\<close>

definition merge_options :: "'c client_options \<Rightarrow> 'c client_options" where
  "merge_options options =
     options\<lparr>co_useRefreshTokensFallback := or_option (co_useRefreshTokensFallback options) False,
       co_useFormData := or_option (co_useFormData options) True,
       co_refreshTokenMode := or_option (co_refreshTokenMode options) ''offline'',
       co_anonymousSessionsCacheMode := or_option (co_anonymousSessionsCacheMode options) ''localStorage'',
       co_authorizationParams :=
         obj_spread [(''scope'', Some (JStr DEFAULT_SCOPE))] (co_authorizationParams options)\<rparr>"

definition scope_option :: "params \<Rightarrow> auth_scopes" where
  "scope_option ps = (case Option.bind (map_of ps ''scope'') id of
     Some (JStr s) \<Rightarrow> ScopeString s
   | Some (JObj m) \<Rightarrow> ScopeRecord (map (\<lambda>(k, v). (k, js_to_string v)) m)
   | _ \<Rightarrow> ScopeAbsent)"

definition resolveOnlineAccess :: "'c client_options \<Rightarrow> js_error + bool" where
  "resolveOnlineAccess options =
     (if co_refreshTokenMode options \<noteq> Some ''online'' then Inr False
      else if \<not> co_useRefreshTokens options then Inl (InvalidConfigurationError
        (''`refreshTokenMode: '' @ dq ''online'' @ ''` requires the refresh-token grant.'')
        ''Set `useRefreshTokens: true`.'')
      else if \<not> co_useDpop options then Inl (InvalidConfigurationError
        (''`refreshTokenMode: '' @ dq ''online'' @ ''` requires DPoP, which is missing or disabled.'')
        ''Set `useDpop: true` (DPoP is mandatory for online access).'')
      else Inr True)"

definition warnEnterpriseConnectConfig :: "'c client_options \<Rightarrow> string list" where
  "warnEnterpriseConnectConfig options =
     (if \<not> co_enterpriseConnect options then []
      else (if co_useRefreshTokens options \<or>
               (case scope_option (co_authorizationParams options) of
                  ScopeString s \<Rightarrow> str_includes s ''offline_access'' | _ \<Rightarrow> False)
            then [''Enterprise Connect issues no refresh token; `useRefreshTokens` and `offline_access` in `scope` have no effect.'']
            else []) @
           (if json_truthy (Option.bind (map_of (co_authorizationParams options) ''organization'') id)
            then [''Enterprise Connect resolves the organization from the email domain (Home Realm Discovery); a static `organization` breaks multi-customer setups.'']
            else []))"

section \<open>The constructor\<close>

text \<open>What the constructor asks of the page.\<close>

record 'w page_facts =
  pf_window :: bool
  pf_crypto :: web_crypto
  pf_webLocks :: bool
  pf_https :: bool
  pf_workers :: bool
  pf_localStorage :: bool
  pf_cookies :: "'w cookie_lib"

record ('c, 'w) client_config =
  cc_options :: "'c client_options"
  cc_onlineAccess :: bool
  cc_lockManager :: lock_manager
  cc_httpTimeoutMs :: int
  cc_cookieStorage :: "'w client_storage"
  cc_orgHintCookieName :: string
  cc_isAuthenticatedCookieName :: string
  cc_sessionCheckExpiryDays :: int
  cc_scope :: "string obj"
  cc_transactions :: "'w transaction_manager"
  cc_manager :: "'c cache_manager"
  cc_dpop :: bool
  cc_domainUrl :: string
  cc_tokenIssuer :: string
  cc_anonymous :: anon_cache
  cc_worker :: bool

definition choose_cache ::
  "'u page_caches client_options \<Rightarrow> js_error + 'u page_caches icache \<times> string option" where
  "choose_cache options = (case co_cache options of
     Some cache \<Rightarrow> Inr (cache, None)
   | None \<Rightarrow>
       (let cacheLocation = or_default (co_cacheLocation options) ''memory''
        in case cacheFactory cacheLocation of
             None \<Rightarrow> Inl (PlainError (''Invalid cache location '' @ dq cacheLocation))
           | Some cache \<Rightarrow> Inr (cache, Some cacheLocation)))"

definition session_scope :: "bool \<Rightarrow> 'c client_options \<Rightarrow> string" where
  "session_scope onlineAccess options =
     (if onlineAccess then ONLINE_ACCESS_SCOPE
      else if co_useRefreshTokens options then ''offline_access'' else [])"

definition build_config ::
  "'w page_facts \<Rightarrow> lock_manager \<Rightarrow> 'c client_options \<Rightarrow> bool \<Rightarrow> 'c icache \<Rightarrow> string option \<Rightarrow> ('c, 'w) client_config" where
  "build_config page lockManager options onlineAccess cache cacheLocation =
     (let merged = merge_options options;
          clientId = co_clientId merged;
          cookieStorage = (if co_legacySameSiteCookie options = Some False
                           then CookieStorage (pf_cookies page) (pf_https page)
                           else CookieStorageWithLegacySameSite (pf_cookies page) (pf_https page));
          domainUrl = getDomain (co_domain merged)
      in \<lparr>cc_options = merged,
          cc_onlineAccess = onlineAccess,
          cc_lockManager = lockManager,
          cc_httpTimeoutMs = (case co_httpTimeoutInSeconds options of
             Some n \<Rightarrow> if n \<noteq> 0 then n * 1000 else DEFAULT_FETCH_TIMEOUT_MS | None \<Rightarrow> DEFAULT_FETCH_TIMEOUT_MS),
          cc_cookieStorage = cookieStorage,
          cc_orgHintCookieName = buildOrganizationHintCookieName clientId,
          cc_isAuthenticatedCookieName = buildIsAuthenticatedCookieName clientId,
          cc_sessionCheckExpiryDays = or_number (co_sessionCheckExpiryDays options) DEFAULT_SESSION_CHECK_EXPIRY_DAYS,
          cc_scope = injectDefaultScopes (scope_option (co_authorizationParams merged)) ''openid''
             [session_scope onlineAccess merged],
          cc_transactions = new_TransactionManager
             (if co_useCookiesForTransactions options then cookieStorage else SessionStorage)
             clientId (co_cookieDomain merged),
          cc_manager = new_CacheManager cache clientId,
          cc_dpop = co_useDpop merged,
          cc_domainUrl = domainUrl,
          cc_tokenIssuer = getTokenIssuer (co_issuer merged) domainUrl,
          cc_anonymous = new_AnonymousCache clientId
             (the (co_anonymousSessionsCacheMode merged)) (pf_window page \<and> pf_localStorage page),
          cc_worker = (pf_window page \<and> pf_workers page \<and> co_useRefreshTokens merged \<and>
             cacheLocation = Some ''memory'')\<rparr>)"

text \<open>\<open>managers\<close> is the lock manager created by an earlier client of the page.\<close>

definition new_Auth0Client ::
  "'w page_facts \<Rightarrow> lock_manager option \<Rightarrow> 'u page_caches client_options
     \<Rightarrow> js_error + ('u page_caches, 'w) client_config \<times> string list" where
  "new_Auth0Client page managers options =
     (case resolveOnlineAccess options of
        Inl e \<Rightarrow> Inl e
      | Inr onlineAccess \<Rightarrow>
          (case (if pf_window page then validateCrypto (pf_crypto page) else None) of
             Some e \<Rightarrow> Inl e
           | None \<Rightarrow>
               (case choose_cache options of
                  Inl e \<Rightarrow> Inl e
                | Inr (cache, cacheLocation) \<Rightarrow>
                    Inr (build_config page (fst (getLockManager (pf_webLocks page) managers)) options
                           onlineAccess cache cacheLocation,
                         warnEnterpriseConnectConfig options @
                         (if co_cache options \<noteq> None \<and> truthy (co_cacheLocation options)
                          then [''Both `cache` and `cacheLocation` options have been specified in the Auth0Client configuration; ignoring `cacheLocation` and using `cache`.'']
                          else [])))))"

section \<open>Reading the configuration\<close>

definition cc_clientId :: "('c, 'w) client_config \<Rightarrow> string" where
  "cc_clientId cfg = co_clientId (cc_options cfg)"

definition cc_params :: "('c, 'w) client_config \<Rightarrow> params" where
  "cc_params cfg = co_authorizationParams (cc_options cfg)"

text \<open>\<open>options.audience || this.options.authorizationParams.audience\<close> and the like.\<close>

definition or_param :: "('c, 'w) client_config \<Rightarrow> string option \<Rightarrow> string \<Rightarrow> string option" where
  "or_param cfg v k = (if truthy v then v else opt_str (cc_params cfg) k)"

definition getConfiguration :: "('c, 'w) client_config \<Rightarrow> string \<times> string" where
  "getConfiguration cfg = (co_domain (cc_options cfg), cc_clientId cfg)"

section \<open>URLs\<close>

definition client_url :: "('c, 'w) client_config \<Rightarrow> string \<Rightarrow> string" where
  "client_url cfg path =
     (let auth0ClientObj = (case co_auth0Client (cc_options cfg) of Some c \<Rightarrow> c | None \<Rightarrow> DEFAULT_AUTH0_CLIENT);
          auth0Client = encodeURIComponent (btoa (stringify (JObj (stripAuth0Client auth0ClientObj True))))
      in cc_domainUrl cfg @ path @ ''&auth0Client='' @ auth0Client)"

definition authorizeUrl :: "('c, 'w) client_config \<Rightarrow> params \<Rightarrow> string" where
  "authorizeUrl cfg authorizeOptions = client_url cfg (''/authorize?'' @ createQueryParams authorizeOptions)"

definition str_param :: "string option \<Rightarrow> json option" where
  "str_param v = map_option JStr v"

definition getAuthorizeParams ::
  "('c, 'w) client_config \<Rightarrow> params \<Rightarrow> string \<Rightarrow> string \<Rightarrow> string \<Rightarrow> string option \<Rightarrow> string option
     \<Rightarrow> string option \<Rightarrow> params" where
  "getAuthorizeParams cfg authorizationParams state nonce code_challenge redirect_uri response_mode thumbprint =
     obj_spread (obj_spread (obj_spread [(''client_id'', Some (JStr (cc_clientId cfg)))] (cc_params cfg)) authorizationParams)
       [(''scope'', Some (JStr (scopesToRequest (cc_scope cfg) (opt_str authorizationParams ''scope'')
            (opt_str authorizationParams ''audience'')))),
        (''response_type'', Some (JStr ''code'')),
        (''response_mode'', Some (JStr (or_default response_mode ''query''))),
        (''state'', Some (JStr state)),
        (''nonce'', Some (JStr nonce)),
        (''redirect_uri'', str_param (or_param cfg redirect_uri ''redirect_uri'')),
        (''code_challenge'', Some (JStr code_challenge)),
        (''code_challenge_method'', Some (JStr ''S256'')),
        (''dpop_jkt'', str_param thumbprint)]"

text \<open>\<open>LogoutOptions.clientId\<close>: absent, \<open>null\<close>, or given.\<close>

datatype logout_client = ClientDefault | ClientNull | ClientGiven string

definition buildLogoutUrl :: "('c, 'w) client_config \<Rightarrow> logout_client \<Rightarrow> params \<Rightarrow> string" where
  "buildLogoutUrl cfg clientId logoutParams =
     (let cid = (case clientId of
            ClientNull \<Rightarrow> None
          | ClientDefault \<Rightarrow> Some (cc_clientId cfg)
          | ClientGiven c \<Rightarrow> Some (if c = [] then cc_clientId cfg else c));
          federatedQuery = (if json_truthy (Option.bind (map_of logoutParams ''federated'') id) then ''&federated'' else []);
          logoutOptions = AList.delete ''federated'' logoutParams
      in client_url cfg (''/v2/logout?'' @ createQueryParams (obj_spread [(''clientId'', str_param cid)] logoutOptions))
         @ federatedQuery)"

section \<open>Session transfer tokens\<close>

text \<open>\<open>search\<close> is the query of the page's URL without its question mark. \<open>searchParams.delete\<close>
  prints the remaining parameters back.\<close>

definition extractSessionTransferToken :: "string \<Rightarrow> string \<Rightarrow> string option" where
  "extractSessionTransferToken search paramName = or_undefined (query_get (query_parse search) paramName)"

definition clearSessionTransferTokenFromUrl :: "string \<Rightarrow> string \<Rightarrow> string" where
  "clearSessionTransferTokenFromUrl search paramName =
     (if query_get (query_parse search) paramName \<noteq> None
      then query_print (filter (\<lambda>(k, _). k \<noteq> paramName) (query_parse search))
      else search)"

definition applySessionTransferToken :: "('c, 'w) client_config \<Rightarrow> string \<Rightarrow> params \<Rightarrow> params \<times> string" where
  "applySessionTransferToken cfg search authorizationParams =
     (let paramName = co_sessionTransferTokenQueryParamName (cc_options cfg)
      in if \<not> truthy paramName \<or> truthy (opt_str authorizationParams ''session_transfer_token'')
         then (authorizationParams, search)
         else (case extractSessionTransferToken search (the paramName) of
            None \<Rightarrow> (authorizationParams, search)
          | Some token \<Rightarrow>
              (obj_spread authorizationParams [(''session_transfer_token'', Some (JStr token))],
               clearSessionTransferTokenFromUrl search (the paramName))))"

end
