(* ===== verification/MfaContext.thy ===== *)
theory MfaContext
  imports Errors
begin

text \<open>
  \<open>src/mfa/MfaContextManager.ts\<close>, \<open>utils.ts\<close> and \<open>constants.ts\<close>: the contexts remembered for the MFA
  tokens of refused requests, each for a limited time, and the parameters of enrolments and
  verifications. Time is what \<open>Date.now()\<close> returns.
\<close>

section \<open>MfaContextManager\<close>

record mfa_context =
  mc_scope :: "string option"
  mc_audience :: "string option"
  mc_mfaRequirements :: "mfa_requirements option"
  mc_createdAt :: int

type_synonym mfa_contexts = "mfa_context obj"

definition DEFAULT_TTL_MS :: int where
  "DEFAULT_TTL_MS = 10 * 60 * 1000"

definition mfa_expired :: "int \<Rightarrow> mfa_context \<Rightarrow> bool" where
  "mfa_expired now context \<longleftrightarrow> now - mc_createdAt context > DEFAULT_TTL_MS"

definition mfa_cleanup :: "int \<Rightarrow> mfa_contexts \<Rightarrow> mfa_contexts" where
  "mfa_cleanup now contexts = filter (\<lambda>(_, c). \<not> mfa_expired now c) contexts"

definition mfa_set ::
  "int \<Rightarrow> string \<Rightarrow> string option \<Rightarrow> string option \<Rightarrow> mfa_requirements option \<Rightarrow> mfa_contexts \<Rightarrow> mfa_contexts" where
  "mfa_set now mfaToken scope audience requirements contexts =
     AList.update mfaToken \<lparr>mc_scope = scope, mc_audience = audience, mc_mfaRequirements = requirements,
       mc_createdAt = now\<rparr> (mfa_cleanup now contexts)"

definition mfa_get :: "int \<Rightarrow> string \<Rightarrow> mfa_contexts \<Rightarrow> mfa_context option \<times> mfa_contexts" where
  "mfa_get now mfaToken contexts = (case map_of contexts mfaToken of
     None \<Rightarrow> (None, contexts)
   | Some c \<Rightarrow> if mfa_expired now c then (None, AList.delete mfaToken contexts) else (Some c, contexts))"

definition mfa_remove :: "string \<Rightarrow> mfa_contexts \<Rightarrow> mfa_contexts" where
  "mfa_remove mfaToken contexts = AList.delete mfaToken contexts"

definition mfa_size :: "mfa_contexts \<Rightarrow> nat" where
  "mfa_size contexts = length contexts"

section \<open>Parameters\<close>

datatype factor_type = FOtp | FSms | FEmail | FPush | FVoice

record factor_mapping =
  fm_authenticatorTypes :: "string list"
  fm_oobChannels :: "string list option"

fun FACTOR_MAPPING :: "factor_type \<Rightarrow> factor_mapping" where
  "FACTOR_MAPPING FOtp = \<lparr>fm_authenticatorTypes = [''otp''], fm_oobChannels = None\<rparr>"
| "FACTOR_MAPPING FSms = \<lparr>fm_authenticatorTypes = [''oob''], fm_oobChannels = Some [''sms'']\<rparr>"
| "FACTOR_MAPPING FEmail = \<lparr>fm_authenticatorTypes = [''oob''], fm_oobChannels = Some [''email'']\<rparr>"
| "FACTOR_MAPPING FPush = \<lparr>fm_authenticatorTypes = [''oob''], fm_oobChannels = Some [''auth0'']\<rparr>"
| "FACTOR_MAPPING FVoice = \<lparr>fm_authenticatorTypes = [''oob''], fm_oobChannels = Some [''voice'']\<rparr>"

definition MFA_OTP :: string where "MFA_OTP = ''http://auth0.com/oauth/grant-type/mfa-otp''"
definition MFA_OOB :: string where "MFA_OOB = ''http://auth0.com/oauth/grant-type/mfa-oob''"
definition MFA_RECOVERY_CODE :: string where
  "MFA_RECOVERY_CODE = ''http://auth0.com/oauth/grant-type/mfa-recovery-code''"

record enroll_params =
  en_mfaToken :: string
  en_factorType :: factor_type
  en_phoneNumber :: "string option"
  en_email :: "string option"

definition getAuthJsEnrollParams :: "enroll_params \<Rightarrow> json" where
  "getAuthJsEnrollParams ps =
     (let mapping = FACTOR_MAPPING (en_factorType ps)
      in JObj ([(''mfaToken'', JStr (en_mfaToken ps)),
                (''authenticatorTypes'', JArr (map JStr (fm_authenticatorTypes mapping)))] @
               opt_prop ''oobChannels'' (map_option (\<lambda>cs. JArr (map JStr cs)) (fm_oobChannels mapping)) @
               opt_prop ''phoneNumber'' (map_option JStr (en_phoneNumber ps)) @
               opt_prop ''email'' (map_option JStr (en_email ps))))"

record verify_params =
  vp_mfaToken :: string
  vp_otp :: "string option"
  vp_oobCode :: "string option"
  vp_bindingCode :: "string option"
  vp_recoveryCode :: "string option"

definition getGrantType :: "verify_params \<Rightarrow> string option" where
  "getGrantType ps =
     (if truthy (vp_otp ps) then Some MFA_OTP
      else if truthy (vp_oobCode ps) then Some MFA_OOB
      else if truthy (vp_recoveryCode ps) then Some MFA_RECOVERY_CODE
      else None)"

section \<open>Lemmas\<close>

lemma map_of_mfa_cleanup:
  "obj_wf contexts \<Longrightarrow> map_of (mfa_cleanup now contexts) k =
     (case map_of contexts k of Some c \<Rightarrow> if mfa_expired now c then None else Some c | None \<Rightarrow> None)"
  unfolding obj_wf_def
proof (induction contexts)
  case (Cons p ps)
  have "map_of (mfa_cleanup now ps) (fst p) = None"
    using Cons.prems by (auto simp: map_of_eq_None_iff mfa_cleanup_def)
  with Cons show ?case
    by (cases p) (auto simp: mfa_cleanup_def split: option.splits)
qed (simp add: mfa_cleanup_def)

lemma obj_wf_mfa_set: "obj_wf contexts \<Longrightarrow> obj_wf (mfa_set now t sc a r contexts)"
proof -
  assume "obj_wf contexts"
  then have "obj_wf (mfa_cleanup now contexts)"
    unfolding obj_wf_def mfa_cleanup_def by (induction contexts) auto
  then show ?thesis by (simp add: mfa_set_def)
qed

text \<open>
  the context of an MFA token is found until ten minutes after it was stored and at no later
  time; storing another token's context in between loses none that is still valid, and keeps
  none that is not.
\<close>

theorem mfa_context_lifetime:
  assumes "obj_wf contexts" and "stored \<le> later" and "later \<le> now" and "t \<noteq> u"
  shows "fst (mfa_get now t (mfa_set later u sc' a' r' (mfa_set stored t sc a r contexts))) =
     (if now - stored > DEFAULT_TTL_MS then None
      else Some \<lparr>mc_scope = sc, mc_audience = a, mc_mfaRequirements = r, mc_createdAt = stored\<rparr>) \<and>
   (\<forall>k. k \<noteq> u \<longrightarrow> pred_option (\<lambda>c. \<not> mfa_expired later c) (map_of (mfa_set later u sc' a' r' contexts) k))"
proof
  let ?m = "mfa_set stored t sc a r contexts"
  let ?c = "\<lparr>mc_scope = sc, mc_audience = a, mc_mfaRequirements = r, mc_createdAt = stored\<rparr>"
  have "map_of (mfa_set later u sc' a' r' ?m) t = (if mfa_expired later ?c then None else Some ?c)"
    using assms(4) map_of_mfa_cleanup [OF obj_wf_mfa_set [OF assms(1)], of later stored t sc a r t]
    by (simp add: mfa_set_def [of later])  (simp add: mfa_set_def)
  with assms(2,3) show "fst (mfa_get now t (mfa_set later u sc' a' r' ?m)) =
     (if now - stored > DEFAULT_TTL_MS then None else Some ?c)"
    by (auto simp: mfa_get_def mfa_expired_def)
  show "\<forall>k. k \<noteq> u \<longrightarrow> pred_option (\<lambda>c. \<not> mfa_expired later c) (map_of (mfa_set later u sc' a' r' contexts) k)"
    using map_of_mfa_cleanup [OF assms(1), of later] by (auto simp: mfa_set_def split: option.splits)
qed

theorem mfa_context_lifetime_witness:
  "fst (mfa_get 600001 ''t'' (mfa_set 5 ''u'' None None None (mfa_set 1 ''t'' (Some ''s'') None None []))) =
     Some \<lparr>mc_scope = Some ''s'', mc_audience = None, mc_mfaRequirements = None, mc_createdAt = 1\<rparr>"
  using mfa_context_lifetime [of "[]" 1 5 600001 "''t''" "''u''" None None None "Some ''s''" None None]
  by (simp add: DEFAULT_TTL_MS_def)

end
