(* ===== verification/Client.thy ===== *)
theory Client
  imports ClientConfig MfaContext
begin

text \<open>
  The state of a client and the part of \<open>src/Auth0Client.ts\<close> everything else is built on: the
  session (id token, ceiling, clearing), the entries of the cache, and \<open>_requestToken\<close>, the one
  place where a session is established.

  The record \<open>client_state\<close> holds what the methods change, \<open>browser\<close> what the code calls but
  does not contain: the network, the clock, the generator of random bytes, windows and iframes,
  the locks, cryptography, the URL parser, and the package's client of anonymous sessions. Each
  of them is a function of a component of type \<open>'w\<close>. The log records every request, worker
  message, iframe, popup and navigation, so that a theorem can say that there was none.
\<close>

section \<open>State and environment\<close>

datatype client_event =
    Fetched string
  | Messaged worker_message
  | Framed string
  | PopupOpened
  | PopupNavigated string
  | Assigned string
  | is_Called: Called request

record ('c, 'k, 'w) client_state =
  st_cache :: 'c
  st_user :: "id_token_entry option"
  st_web :: "'w web_state"
  st_dpop :: "('k, 'w) dpop_state"
  st_worker :: worker_state
  st_mfa :: mfa_contexts
  st_anon :: anon_store
  st_active :: "string list"
  st_listener :: bool
  st_lockWorld :: 'w
  st_search :: string
  st_world :: 'w
  st_log :: "client_event list"

record ('k, 'w) browser =
  br_parse_url :: url_parser
  br_network :: "'w network"
  br_fetch :: "request \<Rightarrow> 'w \<Rightarrow> (js_error + raw_response) \<times> 'w"
  br_url_with_param :: "string \<Rightarrow> string \<Rightarrow> string \<Rightarrow> string option"
  br_now :: "'w \<Rightarrow> int"
  br_show_date :: "int option \<Rightarrow> string"
  br_getRandomValues :: "nat \<Rightarrow> 'w \<Rightarrow> nat list \<times> 'w"
  br_sha256 :: "string \<Rightarrow> nat list"
  br_dpop :: "('k, 'w) dpop_lib"
  br_strip_url :: "string \<Rightarrow> string option"
  br_locks :: "'w lock_lib"
  br_lock_request :: "string \<Rightarrow> int \<Rightarrow> 'w \<Rightarrow> lock_grant \<times> 'w"
  br_lock_release :: "string \<Rightarrow> 'w \<Rightarrow> 'w"
  br_open :: "'w \<Rightarrow> bool \<times> 'w"
  br_popup :: "string \<Rightarrow> int \<Rightarrow> 'w \<Rightarrow> web_event list \<times> 'w"
  br_iframe :: "string \<Rightarrow> int \<Rightarrow> 'w \<Rightarrow> web_event list \<times> 'w"
  br_origin :: string
  br_crossOriginIsolated :: bool
  br_anon_create :: "anon_options \<Rightarrow> 'w \<Rightarrow> (js_error + anon_session) \<times> 'w"
  br_anon_token :: "anon_options \<Rightarrow> string option \<Rightarrow> 'w \<Rightarrow> (js_error + anon_session) \<times> 'w"
  br_anon_mint :: "string \<Rightarrow> 'w \<Rightarrow> (js_error + string) \<times> 'w"
  br_anon_logout :: "'w \<Rightarrow> (js_error + unit) \<times> 'w"

text \<open>An operation of the browser on the client's world, and an entry of the log.\<close>

definition world ::
  "('w \<Rightarrow> 'a \<times> 'w) \<Rightarrow> (('c, 'k, 'w) client_state, js_error, 'a) act" where
  "world f s = (case f (st_world s) of (x, w) \<Rightarrow> (Inr x, s\<lparr>st_world := w\<rparr>))"

definition world_try ::
  "('w \<Rightarrow> (js_error + 'a) \<times> 'w) \<Rightarrow> (('c, 'k, 'w) client_state, js_error, 'a) act" where
  "world_try f s = (case f (st_world s) of (x, w) \<Rightarrow> (x, s\<lparr>st_world := w\<rparr>))"

definition logged :: "client_event \<Rightarrow> (('c, 'k, 'w) client_state, js_error, unit) act" where
  "logged e = modify (\<lambda>s. s\<lparr>st_log := st_log s @ [e]\<rparr>)"

definition client_now :: "('k, 'w) browser \<Rightarrow> ('c, 'k, 'w) client_state \<Rightarrow> int" where
  "client_now br s = br_now br (st_world s)"

definition on_cache :: "('c \<Rightarrow> 'a \<times> 'c) \<Rightarrow> (('c, 'k, 'w) client_state, js_error, 'a) act" where
  "on_cache f s = (case f (st_cache s) of (x, c) \<Rightarrow> (Inr x, s\<lparr>st_cache := c\<rparr>))"

definition on_web :: "('w web_state \<Rightarrow> 'w web_state) \<Rightarrow> (('c, 'k, 'w) client_state, js_error, unit) act" where
  "on_web f = modify (\<lambda>s. s\<lparr>st_web := f (st_web s)\<rparr>)"

definition on_dpop :: "(('k, 'w) dpop_state, js_error, 'a) act \<Rightarrow> (('c, 'k, 'w) client_state, js_error, 'a) act" where
  "on_dpop m = zoom st_dpop (\<lambda>d s. s\<lparr>st_dpop := d\<rparr>) m"

section \<open>Locks\<close>

text \<open>The two lock managers run on the whole state; the library sees its own component of it.\<close>

definition lock_part :: "('c, 'k, 'w) client_state \<Rightarrow> ('c, 'k, 'w) client_state lock_state" where
  "lock_part s = \<lparr>lk_active = st_active s, lk_listener = st_listener s, lk_world = s\<rparr>"

definition unlock_part :: "('c, 'k, 'w) client_state lock_state \<Rightarrow> ('c, 'k, 'w) client_state" where
  "unlock_part l = (lk_world l)\<lparr>st_active := lk_active l, st_listener := lk_listener l\<rparr>"

definition lift_lib :: "'w lock_lib \<Rightarrow> ('c, 'k, 'w) client_state lock_lib" where
  "lift_lib lib =
     \<lparr>lib_acquire = (\<lambda>key timeout s. case lib_acquire lib key timeout (st_lockWorld s) of
         (b, w) \<Rightarrow> (b, s\<lparr>st_lockWorld := w\<rparr>)),
      lib_release = (\<lambda>key s. s\<lparr>st_lockWorld := lib_release lib key (st_lockWorld s)\<rparr>)\<rparr>"

definition with_lock ::
  "('k, 'w) browser \<Rightarrow> ('c, 'w) client_config \<Rightarrow> string \<Rightarrow> int \<Rightarrow> (('c, 'k, 'w) client_state, js_error, 'a) act
     \<Rightarrow> (('c, 'k, 'w) client_state, js_error, 'a) act" where
  "with_lock br cfg key timeout callback s = (case cc_lockManager cfg of
     LegacyLocks \<Rightarrow>
       (case runWithLock (lift_lib (br_locks br)) key timeout
               (\<lambda>l. case callback (unlock_part l) of (r, t) \<Rightarrow> (r, lock_part t)) (lock_part s) of
          (r, l) \<Rightarrow> (r, unlock_part l))
   | WebLocks \<Rightarrow>
       webRunWithLock
         (\<lambda>k t u. case br_lock_request br k t (st_lockWorld u) of (g, w) \<Rightarrow> (g, u\<lparr>st_lockWorld := w\<rparr>))
         (\<lambda>k u. u\<lparr>st_lockWorld := br_lock_release br k (st_lockWorld u)\<rparr>)
         key timeout callback s)"

section \<open>The network of the client\<close>

definition client_send ::
  "('k, 'w) browser \<Rightarrow> worker_message \<Rightarrow> (('c, 'k, 'w) client_state, js_error, worker_reply) act" where
  "client_send br msg s =
     (case handle_message (br_parse_url br) (br_network br) msg (st_worker s) (st_world s) of
        (reply, wk, w) \<Rightarrow>
          (sendMessage_result reply,
           s\<lparr>st_worker := wk, st_world := w, st_log := st_log s @ [Messaged msg]\<rparr>))"

definition client_http ::
  "('k, 'w) browser \<Rightarrow> ('c, 'w) client_config \<Rightarrow> ('c, 'k, 'w) client_state http_ops" where
  "client_http br cfg =
     \<lparr>ho_fetch = (\<lambda>url opts timeout. andNext (logged (Fetched url)) (world (br_network br url opts timeout))),
      ho_worker = (if cc_worker cfg then Some (client_send br) else None)\<rparr>"

definition client_dpop ::
  "('k, 'w) browser \<Rightarrow> ('c, 'w) client_config \<Rightarrow> ('c, 'k, 'w) client_state dpop_ops option" where
  "client_dpop br cfg =
     (if cc_dpop cfg then Some
        \<lparr>do_generateProof = (\<lambda>url method nonce.
           on_dpop (dp_generateProof (br_dpop br) (br_strip_url br) (cc_clientId cfg) url method nonce None)),
         do_getNonce = on_dpop (dp_findNonce (cc_clientId cfg) None),
         do_setNonce = (\<lambda>nonce. on_dpop (dp_setNonce (cc_clientId cfg) nonce None))\<rparr>
      else None)"

section \<open>The session\<close>

text \<open>The number a value stands for in arithmetic and comparisons (\<open>Number(v)\<close>); a text that is no
  integer, an object and an array count as \<open>NaN\<close>, which no comparison holds of.\<close>

definition number_of_text :: "string \<Rightarrow> int option" where
  "number_of_text s =
     (let t = trim s
      in case t of
           [] \<Rightarrow> Some 0
         | c # u \<Rightarrow>
             if list_all is_digit t then Some (int (read_nat 0 t))
             else if (c = CHR ''-'' \<or> c = CHR ''+'') \<and> u \<noteq> [] \<and> list_all is_digit u
             then Some (if c = CHR ''-'' then - int (read_nat 0 u) else int (read_nat 0 u))
             else None)"

definition as_number :: "json \<Rightarrow> int option" where
  "as_number v = (case v of
     JNum n \<Rightarrow> Some n | JNull \<Rightarrow> Some 0 | JBool b \<Rightarrow> Some (if b then 1 else 0)
   | JStr s \<Rightarrow> number_of_text s | _ \<Rightarrow> None)"

definition entry_claim :: "id_token_entry option \<Rightarrow> string \<Rightarrow> json option" where
  "entry_claim e k = Option.bind e (\<lambda>i. Option.bind (ide_decodedToken i) (\<lambda>d. map_of (dt_claims d) k))"

definition getIdTokenFromCache ::
  "('k, 'w) browser \<Rightarrow> ('c, 'w) client_config \<Rightarrow> (('c, 'k, 'w) client_state, js_error, id_token_entry option) act" where
  "getIdTokenFromCache br cfg s =
     (let audience = or_default (opt_str (cc_params cfg) ''audience'') DEFAULT_AUDIENCE;
          scope = map_of (cc_scope cfg) audience
      in case cm_getIdToken (cc_manager cfg) (client_now br s)
               (new_CacheKey (Some (cc_clientId cfg)) scope (Some audience)) (st_cache s) of
           (cache, c) \<Rightarrow>
             (let s1 = s\<lparr>st_cache := c\<rparr>;
                  currentCache = st_user s1
              in if cache \<noteq> None \<and> ide_id_token (the cache) = Option.bind currentCache ide_id_token
                 then (Inr currentCache, s1)
                 else (Inr cache, s1\<lparr>st_user := cache\<rparr>)))"

definition clearLocalSession ::
  "('k, 'w) browser \<Rightarrow> ('c, 'w) client_config \<Rightarrow> logout_client \<Rightarrow> (('c, 'k, 'w) client_state, js_error, unit) act" where
  "clearLocalSession br cfg clientId =
     andNext (on_cache (\<lambda>c. ((), cm_clear (cc_manager cfg)
        (case clientId of ClientNull \<Rightarrow> None | ClientDefault \<Rightarrow> Some (cc_clientId cfg) | ClientGiven i \<Rightarrow> Some i) c)))
     (andNext (on_web (cs_remove (cc_cookieStorage cfg) (cc_orgHintCookieName cfg)
        \<lparr>so_daysUntilExpire = None, so_cookieDomain = co_cookieDomain (cc_options cfg)\<rparr>))
     (andNext (on_web (cs_remove (cc_cookieStorage cfg) (cc_isAuthenticatedCookieName cfg)
        \<lparr>so_daysUntilExpire = None, so_cookieDomain = co_cookieDomain (cc_options cfg)\<rparr>))
     (andNext (modify (\<lambda>s. s\<lparr>st_user := None\<rparr>))
     (andNext (if cc_dpop cfg then catching (on_dpop (dp_clear (cc_clientId cfg))) (\<lambda>_. ret ()) else ret ())
       (if cc_worker cfg then catching (andNext (client_send br ClearMsg) (ret ())) (\<lambda>_. ret ()) else ret ())))))"

definition isSessionCeilingReached ::
  "('k, 'w) browser \<Rightarrow> ('c, 'w) client_config \<Rightarrow> (('c, 'k, 'w) client_state, js_error, bool) act" where
  "isSessionCeilingReached br cfg =
     andThen (\<lambda>s. case st_user s of
         Some i \<Rightarrow> (Inr (Some i), s)
       | None \<Rightarrow> on_cache (cm_getIdToken (cc_manager cfg) (client_now br s)
                   (new_CacheKey (Some (cc_clientId cfg)) None None)) s) (\<lambda>idTokenEntry.
     case entry_claim idTokenEntry ''session_expiry'' of
       None \<Rightarrow> ret False
     | Some sessionExpiresAt \<Rightarrow>
         andThen (gets (client_now br)) (\<lambda>now.
           let nowSeconds = now div 1000
           in if (case as_number sessionExpiresAt of None \<Rightarrow> False
                  | Some x \<Rightarrow> nowSeconds \<ge> x - SESSION_EXPIRY_LEEWAY_SECONDS)
              then andNext (clearLocalSession br cfg ClientDefault) (ret True)
              else ret False))"

definition getUser ::
  "('k, 'w) browser \<Rightarrow> ('c, 'w) client_config \<Rightarrow> (('c, 'k, 'w) client_state, js_error, json obj option) act" where
  "getUser br cfg =
     andThen (isSessionCeilingReached br cfg) (\<lambda>reached.
       if reached then ret None
       else andThen (getIdTokenFromCache br cfg) (\<lambda>cache.
              ret (Option.bind cache (\<lambda>i. map_option dt_user (ide_decodedToken i)))))"

definition getIdTokenClaims ::
  "('k, 'w) browser \<Rightarrow> ('c, 'w) client_config \<Rightarrow> (('c, 'k, 'w) client_state, js_error, json obj option) act" where
  "getIdTokenClaims br cfg =
     andThen (isSessionCeilingReached br cfg) (\<lambda>reached.
       if reached then ret None
       else andThen (getIdTokenFromCache br cfg) (\<lambda>cache.
              ret (Option.bind cache (\<lambda>i. map_option dt_claims (ide_decodedToken i)))))"

definition isAuthenticated ::
  "('k, 'w) browser \<Rightarrow> ('c, 'w) client_config \<Rightarrow> (('c, 'k, 'w) client_state, js_error, bool) act" where
  "isAuthenticated br cfg = andThen (getUser br cfg) (\<lambda>user. ret (user \<noteq> None))"

definition processOrgHint ::
  "('c, 'w) client_config \<Rightarrow> json option \<Rightarrow> (('c, 'k, 'w) client_state, js_error, unit) act" where
  "processOrgHint cfg organization =
     (if json_truthy organization
      then on_web (cs_save (cc_cookieStorage cfg) (cc_orgHintCookieName cfg) (the organization)
             \<lparr>so_daysUntilExpire = Some (cc_sessionCheckExpiryDays cfg),
              so_cookieDomain = co_cookieDomain (cc_options cfg)\<rparr>)
      else on_web (cs_remove (cc_cookieStorage cfg) (cc_orgHintCookieName cfg)
             \<lparr>so_daysUntilExpire = None, so_cookieDomain = co_cookieDomain (cc_options cfg)\<rparr>))"

section \<open>The cache\<close>

definition client_get ::
  "('k, 'w) browser \<Rightarrow> ('c, 'w) client_config \<Rightarrow> string option \<Rightarrow> string \<Rightarrow> int \<Rightarrow> string option
     \<Rightarrow> (('c, 'k, 'w) client_state, js_error, cache_entry option) act" where
  "client_get br cfg scope audience adjustment cacheMode s =
     on_cache (cm_get (cc_manager cfg) (client_now br s)
       (new_CacheKey (Some (cc_clientId cfg)) scope (Some audience)) adjustment
       (co_useMrrt (cc_options cfg)) cacheMode) s"

definition getEntryFromCache ::
  "('k, 'w) browser \<Rightarrow> ('c, 'w) client_config \<Rightarrow> string option \<Rightarrow> string \<Rightarrow> string option
     \<Rightarrow> (('c, 'k, 'w) client_state, js_error, token_response option) act" where
  "getEntryFromCache br cfg scope audience cacheMode =
     andThen (client_get br cfg scope audience 60 cacheMode) (\<lambda>entry. case entry of
       None \<Rightarrow> ret None
     | Some e \<Rightarrow>
         if \<not> truthy (ce_access_token e) then ret None
         else andThen (getIdTokenFromCache br cfg) (\<lambda>cache. ret (case cache of
                None \<Rightarrow> None
              | Some i \<Rightarrow> Some \<lparr>tr_id_token = ide_id_token i,
                  tr_token_type = Some (or_default (ce_token_type e) ''Bearer''),
                  tr_access_token = ce_access_token e, tr_scope = or_undefined (ce_oauthTokenScope e),
                  tr_expires_in = ce_expires_in e\<rparr>)))"

text \<open>The checks of \<open>session_expiry\<close> before an entry is saved.\<close>

definition session_expiry_error :: "json obj \<Rightarrow> js_error option" where
  "session_expiry_error claims = (case map_of claims ''session_expiry'' of
     None \<Rightarrow> None
   | Some v \<Rightarrow> (case v of
       JNum x \<Rightarrow>
         if x \<ge> 10000000000 then Some (GenericError ''invalid_token''
           ''Invalid session_expiry: value appears to be in milliseconds; expected a Unix timestamp in seconds.'' None)
         else (case Option.bind (map_of claims ''iat'') as_number of
             None \<Rightarrow> if map_of claims ''iat'' = None then Some (GenericError ''invalid_token''
                ''Invalid session_expiry: session ceiling is before or at the token issue time.'' None) else None
           | Some iat \<Rightarrow> if x \<le> iat then Some (GenericError ''invalid_token''
                ''Invalid session_expiry: session ceiling is before or at the token issue time.'' None) else None)
     | _ \<Rightarrow> Some (GenericError ''invalid_token'' ''Invalid session_expiry: value must be a number.'' None)))"

definition saveEntryInCache ::
  "('k, 'w) browser \<Rightarrow> ('c, 'w) client_config \<Rightarrow> cache_entry \<Rightarrow> string \<Rightarrow> decoded_token
     \<Rightarrow> (('c, 'k, 'w) client_state, js_error, unit) act" where
  "saveEntryInCache br cfg entryWithoutIdToken id_token decodedToken =
     (case session_expiry_error (dt_claims decodedToken) of
        Some e \<Rightarrow> throw e
      | None \<Rightarrow>
          andNext (modify (\<lambda>s. s\<lparr>st_user := Some \<lparr>ide_id_token = Some id_token, ide_decodedToken = Some decodedToken\<rparr>\<rparr>))
          (andNext (on_cache (\<lambda>c. ((), cm_setIdToken (cc_manager cfg) (cc_clientId cfg) id_token decodedToken c)))
            (\<lambda>s. on_cache (\<lambda>c. ((), cm_set (cc_manager cfg) (client_now br s) entryWithoutIdToken c)) s)))"

section \<open>Requesting a token\<close>

text \<open>A context under the key \<open>undefined\<close> can never be asked for, so an error without a token
  stores nothing.\<close>

definition storeMfaContext ::
  "('k, 'w) browser \<Rightarrow> js_error \<Rightarrow> string option \<Rightarrow> string option \<Rightarrow> (('c, 'k, 'w) client_state, js_error, unit) act" where
  "storeMfaContext br e scope audience = (case e of
     MfaRequiredError _ _ (Some mfaToken) requirements \<Rightarrow>
       modify (\<lambda>s. s\<lparr>st_mfa := mfa_set (client_now br s) mfaToken scope audience requirements (st_mfa s)\<rparr>)
   | _ \<Rightarrow> ret ())"

definition verifyIdToken ::
  "('k, 'w) browser \<Rightarrow> ('c, 'w) client_config \<Rightarrow> string option \<Rightarrow> string option \<Rightarrow> string option \<Rightarrow> json option
     \<Rightarrow> (('c, 'k, 'w) client_state, js_error, jwt_decoded) act" where
  "verifyIdToken br cfg id_token nonce organization max_age s =
     (let now = client_now br s
      in (verify (br_show_date br) now
            \<lparr>jo_iss = cc_tokenIssuer cfg, jo_aud = cc_clientId cfg, jo_id_token = id_token, jo_nonce = nonce,
             jo_leeway = co_leeway (cc_options cfg),
             jo_max_age = parseNumber (if json_nullish max_age
                then Option.bind (map_of (cc_params cfg) ''max_age'') id else max_age),
             jo_organization = organization, jo_now = Some now\<rparr>, s))"

record request_extra =
  rx_nonceIn :: "string option"
  rx_organization :: "string option"
  rx_scopesToRequest :: "string option"
  rx_max_age :: "json option"

definition no_extra :: request_extra where
  "no_extra = \<lparr>rx_nonceIn = None, rx_organization = None, rx_scopesToRequest = None, rx_max_age = None\<rparr>"

text \<open>
  The spread of the options over the settings of the client, as \<open>oauthToken\<close> takes it apart: what is
  not a setting is sent. The options may come with parameters of the application, so they may
  override a setting; a \<open>dpop\<close> among them, which would have to be an object with methods, is left
  aside.
\<close>

definition SETTINGS :: "string list" where
  "SETTINGS = [''baseUrl'', ''timeout'', ''audience'', ''scope'', ''auth0Client'', ''useFormData'', ''useMrrt'', ''dpop'',
     ''preserveRefreshToken'']"

definition rest_options :: "params \<Rightarrow> params" where
  "rest_options options = filter (\<lambda>(k, v). k \<notin> set SETTINGS) options"

definition flag_option :: "params \<Rightarrow> string \<Rightarrow> bool \<Rightarrow> bool" where
  "flag_option options k d = (case map_of options k of None \<Rightarrow> d | Some v \<Rightarrow> json_truthy v)"

definition endpoint_options ::
  "('c, 'w) client_config \<Rightarrow> params \<Rightarrow> string option \<Rightarrow> bool \<Rightarrow> bool \<Rightarrow> token_endpoint_options" where
  "endpoint_options cfg options scope useMrrt preserve =
     \<lparr>te_baseUrl = (case map_of options ''baseUrl'' of
         None \<Rightarrow> cc_domainUrl cfg | Some v \<Rightarrow> tmpl (map_option js_to_string v)),
      te_timeout = (case map_of options ''timeout'' of
         None \<Rightarrow> Some (cc_httpTimeoutMs cfg) | Some v \<Rightarrow> json_num v),
      te_audience = opt_str options ''audience'', te_scope = scope,
      te_auth0Client = (case map_of options ''auth0Client'' of
         None \<Rightarrow> co_auth0Client (cc_options cfg) | Some (Some (JObj m)) \<Rightarrow> Some m | _ \<Rightarrow> None),
      te_useFormData = flag_option options ''useFormData'' (co_useFormData (cc_options cfg) = Some True),
      te_useMrrt = flag_option options ''useMrrt'' useMrrt,
      te_preserveRefreshToken = flag_option options ''preserveRefreshToken'' preserve,
      te_options = obj_spread [(''client_id'', Some (JStr (cc_clientId cfg)))] (rest_options options)\<rparr>"

definition is_code_grant :: "params \<Rightarrow> bool" where
  "is_code_grant options \<longleftrightarrow> opt_str options ''grant_type'' = Some ''authorization_code''"

text \<open>A different user logs in: the cached tokens of the previous one are dropped.\<close>

definition check_user ::
  "('k, 'w) browser \<Rightarrow> ('c, 'w) client_config \<Rightarrow> jwt_decoded \<Rightarrow> (('c, 'k, 'w) client_state, js_error, unit) act" where
  "check_user br cfg decodedToken =
     andThen (getIdTokenFromCache br cfg) (\<lambda>existing.
       let sub = entry_claim existing ''sub''
       in if json_truthy sub \<and> sub \<noteq> map_of (jd_claims decodedToken) ''sub''
          then andNext (on_cache (\<lambda>c. ((), cm_clear (cc_manager cfg) (Some (cc_clientId cfg)) c)))
                 (modify (\<lambda>s. s\<lparr>st_user := None\<rparr>))
          else ret ())"

text \<open>A silent refresh keeps the ceiling of the login.\<close>

definition pin_ceiling ::
  "('k, 'w) browser \<Rightarrow> ('c, 'w) client_config \<Rightarrow> jwt_decoded \<Rightarrow> (('c, 'k, 'w) client_state, js_error, jwt_decoded) act" where
  "pin_ceiling br cfg decodedToken =
     andThen (getIdTokenFromCache br cfg) (\<lambda>existing. ret (case entry_claim existing ''session_expiry'' of
       None \<Rightarrow> decodedToken
     | Some ceiling \<Rightarrow>
         decodedToken\<lparr>jd_claims := AList.update ''session_expiry'' ceiling (jd_claims decodedToken)\<rparr>))"

definition carry_refresh_token ::
  "('k, 'w) browser \<Rightarrow> ('c, 'w) client_config \<Rightarrow> params \<Rightarrow> string option \<Rightarrow> json obj
     \<Rightarrow> (('c, 'k, 'w) client_state, js_error, json obj) act" where
  "carry_refresh_token br cfg options scope authResult =
     (if \<not> json_truthy (map_of authResult ''refresh_token'') \<and> cc_onlineAccess cfg then
        andThen (case opt_str options ''refresh_token'' of
            Some t \<Rightarrow> ret (Some t)
          | None \<Rightarrow>
              andThen (client_get br cfg scope (or_default (opt_str options ''audience'') DEFAULT_AUDIENCE) 0 None)
                (\<lambda>e. ret (Option.bind e ce_refresh_token)))
          (\<lambda>t. ret (case t of None \<Rightarrow> AList.delete ''refresh_token'' authResult
                    | Some v \<Rightarrow> AList.update ''refresh_token'' (JStr v) authResult))
      else ret authResult)"

definition entry_of_result :: "('c, 'w) client_config \<Rightarrow> params \<Rightarrow> json obj \<Rightarrow> cache_entry" where
  "entry_of_result cfg options authResult =
     \<lparr>ce_id_token = None, ce_token_type = json_str (map_of authResult ''token_type''),
      ce_access_token = json_str (map_of authResult ''access_token''),
      ce_expires_in = json_num (map_of authResult ''expires_in''), ce_decodedToken = None,
      ce_audience = Some (or_default (opt_str options ''audience'') DEFAULT_AUDIENCE),
      ce_scope = opt_str options ''scope'', ce_client_id = Some (cc_clientId cfg),
      ce_refresh_token = json_str (map_of authResult ''refresh_token''),
      ce_oauthTokenScope = or_undefined (json_str (map_of authResult ''scope''))\<rparr>"

definition establish_session ::
  "('k, 'w) browser \<Rightarrow> ('c, 'w) client_config \<Rightarrow> params \<Rightarrow> request_extra \<Rightarrow> json obj \<Rightarrow> jwt_decoded
     \<Rightarrow> (('c, 'k, 'w) client_state, js_error, json obj \<times> jwt_decoded) act" where
  "establish_session br cfg options extra authResult decodedToken =
     andNext (saveEntryInCache br cfg (entry_of_result cfg options authResult)
        (tmpl (json_str (map_of authResult ''id_token'')))
        \<lparr>dt_claims = jd_claims decodedToken, dt_user = jd_user decodedToken\<rparr>)
     (andNext (on_web (cs_save (cc_cookieStorage cfg) (cc_isAuthenticatedCookieName cfg) (JBool True)
        \<lparr>so_daysUntilExpire = Some (cc_sessionCheckExpiryDays cfg),
         so_cookieDomain = co_cookieDomain (cc_options cfg)\<rparr>))
     (andNext (processOrgHint cfg (if truthy (rx_organization extra) then str_param (rx_organization extra)
                                   else map_of (jd_claims decodedToken) ''org_id''))
       (ret (authResult, decodedToken))))"

definition requestToken ::
  "('k, 'w) browser \<Rightarrow> ('c, 'w) client_config \<Rightarrow> params \<Rightarrow> request_extra
     \<Rightarrow> (('c, 'k, 'w) client_state, js_error, json obj \<times> jwt_decoded) act" where
  "requestToken br cfg options extra =
     (let scope = or_else (rx_scopesToRequest extra) (opt_str options ''scope'')
      in catching
        (andThen (oauthToken (client_http br cfg) (client_dpop br cfg)
            (endpoint_options cfg options scope (co_useMrrt (cc_options cfg)) (cc_onlineAccess cfg)) False) (\<lambda>authResult.
         andThen (verifyIdToken br cfg (json_str (map_of authResult ''id_token'')) (rx_nonceIn extra)
            (rx_organization extra) (rx_max_age extra)) (\<lambda>decodedToken.
         andThen (if is_code_grant options then andNext (check_user br cfg decodedToken) (ret decodedToken)
                  else pin_ceiling br cfg decodedToken) (\<lambda>decodedToken1.
         andThen (carry_refresh_token br cfg options scope authResult) (\<lambda>authResult1.
           establish_session br cfg options extra authResult1 decodedToken1)))))
        (\<lambda>e. andNext (if is_code_grant options then ret ()
                       else storeMfaContext br e scope (opt_str options ''audience'')) (throw e)))"

end
