(* ===== verification/ClientFlows.thy ===== *)
theory ClientFlows
  imports Client
begin

text \<open>
  The login flows and the token methods of \<open>src/Auth0Client.ts\<close>, over the session functions of
  \<open>Client\<close>. A method runs to its end without another call of the client in between; calls that
  are in flight together are the subject of \<open>Promise\<close>, \<open>Lock\<close> and \<open>Worker\<close>.
\<close>

section \<open>Anonymous sessions of the client\<close>

definition client_anon ::
  "('k, 'w) browser \<Rightarrow> ('c, 'w) client_config \<Rightarrow> ('c, 'k, 'w) client_state anon_ops" where
  "client_anon br cfg =
     \<lparr>an_read = st_anon, an_write = (\<lambda>a s. s\<lparr>st_anon := a\<rparr>), an_now = client_now br,
      an_lock = with_lock br cfg,
      an_createSession = (\<lambda>options. world_try (br_anon_create br options)),
      an_getAccessToken = (\<lambda>options t. world_try (br_anon_token br options t)),
      an_mintTransferToken = (\<lambda>t. world_try (br_anon_mint br t)),
      an_logout = world_try (br_anon_logout br)\<rparr>"

definition client_mint ::
  "('k, 'w) browser \<Rightarrow> ('c, 'w) client_config \<Rightarrow> (('c, 'k, 'w) client_state, js_error, string option) act" where
  "client_mint br cfg = anon_mintTransferToken (client_anon br cfg) (cc_anonymous cfg)"

definition maybeCreateAnonymousSession ::
  "('k, 'w) browser \<Rightarrow> ('c, 'w) client_config \<Rightarrow> (('c, 'k, 'w) client_state, js_error, unit) act" where
  "maybeCreateAnonymousSession br cfg =
     (if \<not> co_createAnonymousSession (cc_options cfg) then ret ()
      else
        andThen (gets (anon_hasSession (client_anon br cfg) (cc_anonymous cfg))) (\<lambda>has.
        if has then ret ()
        else catching (andNext (anon_getTokenSilently (client_anon br cfg) (cc_anonymous cfg) (cc_clientId cfg)
               \<lparr>ao_audience = None, ao_scope = None\<rparr>) (ret ())) (\<lambda>_. ret ())))"

section \<open>Preparing a request to /authorize\<close>

definition apply_session_transfer ::
  "('c, 'w) client_config \<Rightarrow> params \<Rightarrow> (('c, 'k, 'w) client_state, js_error, params) act" where
  "apply_session_transfer cfg authorizationParams s =
     (case applySessionTransferToken cfg (st_search s) authorizationParams of
        (ps, search) \<Rightarrow> (Inr ps, s\<lparr>st_search := search\<rparr>))"

definition applyAnonTransferToken ::
  "('k, 'w) browser \<Rightarrow> ('c, 'w) client_config \<Rightarrow> params \<Rightarrow> (('c, 'k, 'w) client_state, js_error, params) act" where
  "applyAnonTransferToken br cfg authorizationParams =
     andThen (client_mint br cfg) (\<lambda>token. ret (if truthy token
        then obj_spread authorizationParams [(''anon_transfer_token'', str_param token)] else authorizationParams))"

text \<open>A generator that never yields a usable byte would keep \<open>createRandomString\<close> running; nothing
  is said of the string in that case.\<close>

definition random_string :: "('k, 'w) browser \<Rightarrow> (('c, 'k, 'w) client_state, js_error, string) act" where
  "random_string br = world (\<lambda>w. the (createRandomString (br_getRandomValues br) w))"

record prepared =
  pp_scope :: string
  pp_audience :: string
  pp_redirect_uri :: "string option"
  pp_nonce :: string
  pp_code_verifier :: string
  pp_state :: string
  pp_url :: string
  pp_max_age :: "json option"

definition prepareAuthorizeUrl ::
  "('k, 'w) browser \<Rightarrow> ('c, 'w) client_config \<Rightarrow> params \<Rightarrow> string option \<Rightarrow> string option
     \<Rightarrow> (('c, 'k, 'w) client_state, js_error, prepared) act" where
  "prepareAuthorizeUrl br cfg authorizationParams response_mode fallbackRedirectUri =
     andThen (random_string br) (\<lambda>state0.
     andThen (random_string br) (\<lambda>nonce0.
     andThen (random_string br) (\<lambda>code_verifier.
     andThen (if cc_dpop cfg then andThen (on_dpop (dp_calculateThumbprint (br_dpop br) (cc_clientId cfg))) (\<lambda>t. ret (Some t))
              else ret None) (\<lambda>thumbprint.
       let state = js_encode state0;
           nonce = js_encode nonce0;
           code_challenge = bufferToBase64UrlEncoded (br_sha256 br code_verifier);
           ps = getAuthorizeParams cfg authorizationParams state nonce code_challenge
                  (or_else (or_else (opt_str authorizationParams ''redirect_uri'') (opt_str (cc_params cfg) ''redirect_uri''))
                     fallbackRedirectUri)
                  response_mode thumbprint
       in ret \<lparr>pp_scope = or_default (opt_str ps ''scope'') [],
               pp_audience = or_default (opt_str ps ''audience'') DEFAULT_AUDIENCE,
               pp_redirect_uri = opt_str ps ''redirect_uri'', pp_nonce = nonce,
               pp_code_verifier = code_verifier, pp_state = state, pp_url = authorizeUrl cfg ps,
               pp_max_age = Option.bind (map_of ps ''max_age'') id\<rparr>))))"

section \<open>Opening URLs\<close>

text \<open>\<open>openUrl\<close>: absent, \<open>false\<close>, or a function of the application; \<open>onRedirect\<close> is its
  deprecated form.\<close>

datatype 's open_url = OpenAbsent | OpenFalse | OpenWith "string \<Rightarrow> ('s, js_error, unit) act"

definition patchOpenUrlWithOnRedirect ::
  "'s open_url \<Rightarrow> (string \<Rightarrow> ('s, js_error, unit) act) option \<Rightarrow> 's open_url" where
  "patchOpenUrlWithOnRedirect openUrl onRedirect = (case openUrl of
     OpenAbsent \<Rightarrow> (case onRedirect of None \<Rightarrow> OpenAbsent | Some f \<Rightarrow> OpenWith f)
   | u \<Rightarrow> u)"

section \<open>Popup login\<close>

record popup_config =
  po_popup :: bool
  po_timeoutInSeconds :: "int option"
  po_closePopup :: "bool option"

definition no_popup_config :: popup_config where
  "no_popup_config = \<lparr>po_popup = False, po_timeoutInSeconds = None, po_closePopup = None\<rparr>"

text \<open>\<open>a || b || DEFAULT\<close> for the timeouts of the windows.\<close>

definition window_timeout :: "('c, 'w) client_config \<Rightarrow> int option \<Rightarrow> int" where
  "window_timeout cfg t =
     or_number t (or_number (co_authorizeTimeoutInSeconds (cc_options cfg)) DEFAULT_AUTHORIZE_TIMEOUT_IN_SECONDS)"

text \<open>The promise of a wait; the timer is always among the events, so that there is an outcome.\<close>

definition awaited :: "waiting \<Rightarrow> (('c, 'k, 'w) client_state, js_error, authentication_result) act" where
  "awaited wt = (case the (wt_result wt) of Inl e \<Rightarrow> throw e | Inr r \<Rightarrow> ret r)"

definition code_request :: "prepared \<Rightarrow> authentication_result \<Rightarrow> params" where
  "code_request prep codeResult =
     [(''audience'', Some (JStr (pp_audience prep))), (''scope'', Some (JStr (pp_scope prep))),
      (''code_verifier'', Some (JStr (pp_code_verifier prep))),
      (''grant_type'', Some (JStr ''authorization_code'')),
      (''code'', str_param (ar_code codeResult)), (''redirect_uri'', str_param (pp_redirect_uri prep))]"

definition open_popup ::
  "('k, 'w) browser \<Rightarrow> popup_config \<Rightarrow> (('c, 'k, 'w) client_state, js_error, unit) act" where
  "open_popup br config =
     (if po_popup config then ret ()
      else andNext (logged PopupOpened)
             (andThen (world (br_open br)) (\<lambda>opened. if opened then ret () else throw PopupOpenError)))"

definition loginWithPopup ::
  "('k, 'w) browser \<Rightarrow> ('c, 'w) client_config \<Rightarrow> params \<Rightarrow> popup_config
     \<Rightarrow> (('c, 'k, 'w) client_state, js_error, unit) act" where
  "loginWithPopup br cfg optionParams config =
     andNext (open_popup br config)
     (andThen (apply_session_transfer cfg optionParams) (\<lambda>ps.
      andThen (applyAnonTransferToken br cfg ps) (\<lambda>authorizationParams.
      andThen (prepareAuthorizeUrl br cfg authorizationParams (Some ''web_message'') (Some (br_origin br))) (\<lambda>prep.
      andNext (logged (PopupNavigated (pp_url prep)))
      (case br_parse_url br (pp_url prep) of
         None \<Rightarrow> throw (TypeErr ''Invalid URL'')
       | Some u \<Rightarrow>
           andThen (world (br_popup br (pp_url prep) (window_timeout cfg (po_timeoutInSeconds config)))) (\<lambda>events.
           andThen (awaited (runPopup (url_origin u) (po_closePopup config) events)) (\<lambda>codeResult.
             if Some (pp_state prep) \<noteq> ar_state codeResult
             then throw (GenericError ''state_mismatch'' ''Invalid state'' None)
             else andNext (requestToken br cfg (code_request prep codeResult)
                    \<lparr>rx_nonceIn = Some (pp_nonce prep),
                     rx_organization = or_param cfg (opt_str optionParams ''organization'') ''organization'',
                     rx_scopesToRequest = None, rx_max_age = pp_max_age prep\<rparr>) (ret ()))))))))"

section \<open>Redirect login\<close>

record 's redirect_options =
  rd_authorizationParams :: params
  rd_appState :: "json option"
  rd_fragment :: "string option"
  rd_openUrl :: "'s open_url"
  rd_onRedirect :: "(string \<Rightarrow> ('s, js_error, unit) act) option"

definition loginWithRedirect ::
  "('k, 'w) browser \<Rightarrow> ('c, 'w) client_config \<Rightarrow> ('c, 'k, 'w) client_state redirect_options
     \<Rightarrow> (('c, 'k, 'w) client_state, js_error, unit) act" where
  "loginWithRedirect br cfg options =
     (let openUrl = patchOpenUrlWithOnRedirect (rd_openUrl options) (rd_onRedirect options);
          organization = or_param cfg (opt_str (rd_authorizationParams options) ''organization'') ''organization''
      in andThen (apply_session_transfer cfg (rd_authorizationParams options)) (\<lambda>ps.
         andThen (applyAnonTransferToken br cfg ps) (\<lambda>authorizationParams.
         andThen (prepareAuthorizeUrl br cfg authorizationParams None None) (\<lambda>prep.
         andNext (on_web (tm_create (cc_transactions cfg) (LoginTx
            \<lparr>lt_nonce = Some (pp_nonce prep), lt_scope = Some (pp_scope prep), lt_audience = Some (pp_audience prep),
             lt_appState = rd_appState options, lt_code_verifier = Some (pp_code_verifier prep),
             lt_redirect_uri = pp_redirect_uri prep, lt_organization = or_undefined organization,
             lt_state = Some (pp_state prep), lt_max_age = pp_max_age prep\<rparr>)))
         (let urlWithFragment = (if truthy (rd_fragment options) then pp_url prep @ ''#'' @ the (rd_fragment options)
                                 else pp_url prep)
          in case openUrl of
               OpenWith f \<Rightarrow> f urlWithFragment
             | _ \<Rightarrow> logged (Assigned urlWithFragment))))))"

definition handleLoginRedirectCallback ::
  "('k, 'w) browser \<Rightarrow> ('c, 'w) client_config \<Rightarrow> authentication_result \<Rightarrow> login_transaction
     \<Rightarrow> (('c, 'k, 'w) client_state, js_error, json option) act" where
  "handleLoginRedirectCallback br cfg r t =
     (if truthy (ar_error r) then
        throw (AuthenticationError (the (ar_error r)) (or_default (ar_error_description r) (the (ar_error r)))
          (ar_state r) (lt_appState t))
      else if \<not> truthy (lt_code_verifier t) \<or> (truthy (lt_state t) \<and> lt_state t \<noteq> ar_state r) then
        throw (GenericError ''state_mismatch'' ''Invalid state'' None)
      else
        andNext (requestToken br cfg
            ([(''audience'', str_param (lt_audience t)), (''scope'', str_param (lt_scope t)),
              (''code_verifier'', str_param (lt_code_verifier t)),
              (''grant_type'', Some (JStr ''authorization_code'')), (''code'', str_param (ar_code r))] @
             (if truthy (lt_redirect_uri t) then [(''redirect_uri'', str_param (lt_redirect_uri t))] else []))
            \<lparr>rx_nonceIn = lt_nonce t, rx_organization = lt_organization t, rx_scopesToRequest = None,
             rx_max_age = lt_max_age t\<rparr>)
          (ret (lt_appState t)))"

section \<open>Logout\<close>

record 's logout_options =
  lo_clientId :: logout_client
  lo_logoutParams :: params
  lo_openUrl :: "'s open_url"
  lo_onRedirect :: "(string \<Rightarrow> ('s, js_error, unit) act) option"

definition logout_silently :: "'s logout_options" where
  "logout_silently = \<lparr>lo_clientId = ClientDefault, lo_logoutParams = [], lo_openUrl = OpenFalse, lo_onRedirect = None\<rparr>"

definition logout ::
  "('k, 'w) browser \<Rightarrow> ('c, 'w) client_config \<Rightarrow> ('c, 'k, 'w) client_state logout_options
     \<Rightarrow> (('c, 'k, 'w) client_state, js_error, unit) act" where
  "logout br cfg options =
     (let openUrl = patchOpenUrlWithOnRedirect (lo_openUrl options) (lo_onRedirect options)
      in andNext (clearLocalSession br cfg (lo_clientId options))
           (let url = buildLogoutUrl cfg (lo_clientId options) (lo_logoutParams options)
            in case openUrl of
                 OpenWith f \<Rightarrow> f url
               | OpenFalse \<Rightarrow> ret ()
               | OpenAbsent \<Rightarrow> logged (Assigned url)))"

definition revokeRefreshToken ::
  "('k, 'w) browser \<Rightarrow> ('c, 'w) client_config \<Rightarrow> string option \<Rightarrow> (('c, 'k, 'w) client_state, js_error, unit) act" where
  "revokeRefreshToken br cfg optionAudience =
     (if \<not> co_useRefreshTokens (cc_options cfg) then ret ()
      else
        (let resolvedAudience = or_default (or_param cfg optionAudience ''audience'') DEFAULT_AUDIENCE
         in andThen (gets (\<lambda>s. getRefreshTokensByAudience (cc_manager cfg) resolvedAudience (cc_clientId cfg) (st_cache s)))
              (\<lambda>refreshTokens.
            andNext (revokeToken (client_http br cfg)
                \<lparr>ro_baseUrl = cc_domainUrl cfg, ro_client_id = cc_clientId cfg, ro_refreshTokens = refreshTokens,
                 ro_audience = Some resolvedAudience, ro_timeout = Some (cc_httpTimeoutMs cfg),
                 ro_auth0Client = co_auth0Client (cc_options cfg),
                 ro_useFormData = (co_useFormData (cc_options cfg) = Some True)\<rparr>
                (\<lambda>refreshToken. on_cache (\<lambda>c. ((), stripRefreshToken (cc_manager cfg) refreshToken c))))
              (if cc_onlineAccess cfg then clearLocalSession br cfg ClientDefault else ret ()))))"

section \<open>Silent tokens\<close>

text \<open>The options of a call, after the defaults were merged in: \<open>gt_params\<close> has the scope of the
  request; \<open>gt_cacheMode\<close> is \<open>on\<close>, \<open>off\<close> or \<open>cache-only\<close>.\<close>

record silent_options =
  gt_cacheMode :: string
  gt_params :: params
  gt_timeoutInSeconds :: "int option"

definition gt_audience :: "silent_options \<Rightarrow> string" where
  "gt_audience o1 = or_default (opt_str (gt_params o1) ''audience'') DEFAULT_AUDIENCE"

definition gt_scope :: "silent_options \<Rightarrow> string option" where
  "gt_scope o1 = opt_str (gt_params o1) ''scope''"

definition merged_params :: "('c, 'w) client_config \<Rightarrow> params \<Rightarrow> params" where
  "merged_params cfg ps =
     obj_spread (obj_spread (cc_params cfg) ps)
       [(''scope'', Some (JStr (scopesToRequest (cc_scope cfg) (opt_str ps ''scope'')
           (or_param cfg (opt_str ps ''audience'') ''audience''))))]"

text \<open>The result of a grant as \<open>GetTokenSilentlyResult\<close>; \<open>tr_scope\<close> is its \<open>oauthTokenScope\<close>, the
  scope the server answered with.\<close>

definition silent_result :: "json obj \<Rightarrow> token_response" where
  "silent_result authResult =
     \<lparr>tr_id_token = json_str (map_of authResult ''id_token''), tr_token_type = json_str (map_of authResult ''token_type''),
      tr_access_token = json_str (map_of authResult ''access_token''), tr_scope = json_str (map_of authResult ''scope''),
      tr_expires_in = json_num (map_of authResult ''expires_in'')\<rparr>"

definition isIframeMfaError :: "js_error \<Rightarrow> bool" where
  "isIframeMfaError e \<longleftrightarrow>
     err_code e = Some ''login_required'' \<and> err_message e = MFA_STEP_UP_ERROR_DESCRIPTION"

definition isInteractiveError :: "js_error \<Rightarrow> bool" where
  "isInteractiveError e \<longleftrightarrow> is_MfaRequiredError e \<or> (is_GenericError e \<and> isIframeMfaError e)"

definition popup_handler :: "('c, 'w) client_config \<Rightarrow> bool" where
  "popup_handler cfg \<longleftrightarrow> co_interactiveErrorHandler (cc_options cfg) = Some ''popup''"

definition event_origin :: "('k, 'w) browser \<Rightarrow> ('c, 'w) client_config \<Rightarrow> string" where
  "event_origin br cfg =
     (case br_parse_url br (cc_domainUrl cfg) of Some u \<Rightarrow> url_origin u | None \<Rightarrow> cc_domainUrl cfg)"

text \<open>The request of the iframe: \<open>prompt=none\<close>, and the organization of the last login unless one
  is given.\<close>

definition iframe_params ::
  "('c, 'w) client_config \<Rightarrow> silent_options \<Rightarrow> (('c, 'k, 'w) client_state, js_error, params) act" where
  "iframe_params cfg options s =
     (let ps = obj_spread (gt_params options) [(''prompt'', Some (JStr ''none''))]
      in case cs_get (cc_cookieStorage cfg) (cc_orgHintCookieName cfg) (st_web s) of
           Inl e \<Rightarrow> (Inl e, s)
         | Inr orgHint \<Rightarrow>
             (Inr (if json_truthy orgHint \<and> \<not> truthy (opt_str ps ''organization'')
                   then obj_spread ps [(''organization'', orgHint)] else ps), s))"

definition iframe_callback ::
  "('k, 'w) browser \<Rightarrow> ('c, 'w) client_config \<Rightarrow> silent_options
     \<Rightarrow> (('c, 'k, 'w) client_state, js_error, json obj) act" where
  "iframe_callback br cfg options =
     andThen (iframe_params cfg options) (\<lambda>ps.
     andThen (prepareAuthorizeUrl br cfg ps (Some ''web_message'') (Some (br_origin br))) (\<lambda>prep.
       if br_crossOriginIsolated br then throw (GenericError ''login_required''
         ''The application is running in a Cross-Origin Isolated context, silently retrieving a token without refresh token is not possible.'' None)
       else
         andNext (logged (Framed (pp_url prep)))
         (andThen (world (br_iframe br (pp_url prep) (window_timeout cfg (gt_timeoutInSeconds options)))) (\<lambda>events.
          andThen (awaited (runIframe (event_origin br cfg) events)) (\<lambda>codeResult.
            if Some (pp_state prep) \<noteq> ar_state codeResult
            then throw (GenericError ''state_mismatch'' ''Invalid state'' None)
            else
              andThen (requestToken br cfg
                  (obj_spread (gt_params options)
                    [(''code_verifier'', Some (JStr (pp_code_verifier prep))), (''code'', str_param (ar_code codeResult)),
                     (''grant_type'', Some (JStr ''authorization_code'')), (''redirect_uri'', str_param (pp_redirect_uri prep)),
                     (''timeout'', Some (JNum (case json_num (Option.bind (map_of (gt_params options) ''timeout'') id) of
                         Some n \<Rightarrow> if n \<noteq> 0 then n else cc_httpTimeoutMs cfg | None \<Rightarrow> cc_httpTimeoutMs cfg)))])
                  \<lparr>rx_nonceIn = Some (pp_nonce prep), rx_organization = opt_str ps ''organization'',
                   rx_scopesToRequest = None, rx_max_age = pp_max_age prep\<rparr>)
                (\<lambda>r. ret (fst r)))))))"

text \<open>The logout after \<open>login_required\<close> is started without waiting for it; here it is complete
  before the error reaches the caller.\<close>

definition getTokenFromIFrame ::
  "('k, 'w) browser \<Rightarrow> ('c, 'w) client_config \<Rightarrow> silent_options
     \<Rightarrow> (('c, 'k, 'w) client_state, js_error, json obj) act" where
  "getTokenFromIFrame br cfg options =
     catching (with_lock br cfg (buildIframeLockKey (cc_clientId cfg)) 5000 (iframe_callback br cfg options))
       (\<lambda>e. andNext
          (if err_code e = Some ''login_required'' \<and>
              \<not> (is_GenericError e \<and> isIframeMfaError e \<and> popup_handler cfg)
           then catching (logout br cfg logout_silently) (\<lambda>_. ret ()) else ret ())
          (throw e))"

definition propagateRotatedRefreshToken ::
  "('c, 'w) client_config \<Rightarrow> string option \<Rightarrow> string option \<Rightarrow> (('c, 'k, 'w) client_state, js_error, unit) act" where
  "propagateRotatedRefreshToken cfg previous new =
     (if cc_onlineAccess cfg \<or> \<not> truthy new \<or> \<not> truthy previous then ret ()
      else on_cache (\<lambda>c. ((), updateEntry (cc_manager cfg) (the previous) (the new) (cc_clientId cfg)
             (co_useMrrt (cc_options cfg)) c)))"

text \<open>What the refresh asks for, and what it does after the answer.\<close>

definition refresh_params :: "('k, 'w) browser \<Rightarrow> ('c, 'w) client_config \<Rightarrow> silent_options \<Rightarrow> cache_entry option \<Rightarrow> params" where
  "refresh_params br cfg options cache =
     obj_spread (gt_params options)
       ([(''grant_type'', Some (JStr ''refresh_token'')),
         (''refresh_token'', str_param (Option.bind cache ce_refresh_token)),
         (''redirect_uri'', Some (JStr (or_default (or_param cfg (opt_str (gt_params options) ''redirect_uri'') ''redirect_uri'')
            (br_origin br))))] @
        (case gt_timeoutInSeconds options of
           Some t \<Rightarrow> if t \<noteq> 0 then [(''timeout'', Some (JNum (t * 1000)))] else [] | None \<Rightarrow> []))"

definition scope_to_request :: "('c, 'w) client_config \<Rightarrow> silent_options \<Rightarrow> cache_entry option \<Rightarrow> string" where
  "scope_to_request cfg options cache =
     getScopeToRequest (co_useMrrt (cc_options cfg)) (opt_str (gt_params options) ''audience'')
       (or_default (gt_scope options) []) (Option.bind cache ce_audience) (Option.bind cache ce_scope)"

definition refresh_exchange ::
  "('k, 'w) browser \<Rightarrow> ('c, 'w) client_config \<Rightarrow> silent_options \<Rightarrow> cache_entry option
     \<Rightarrow> (('c, 'k, 'w) client_state, js_error, json obj) act" where
  "refresh_exchange br cfg options cache =
     (let scopesToRequest = Some (scope_to_request cfg options cache)
      in andThen (requestToken br cfg (refresh_params br cfg options cache)
             (no_extra\<lparr>rx_scopesToRequest := scopesToRequest\<rparr>)) (\<lambda>r.
         let tokenResult = fst r in
         andNext (propagateRotatedRefreshToken cfg (Option.bind cache ce_refresh_token)
             (json_str (map_of tokenResult ''refresh_token'')))
         (if co_useMrrt (cc_options cfg) \<and>
             isRefreshWithMrrt (Option.bind cache ce_audience) (Option.bind cache ce_scope)
               (opt_str (gt_params options) ''audience'') (or_default (gt_scope options) []) \<and>
             getMissingScopes scopesToRequest (json_str (map_of tokenResult ''scope'')) (cc_onlineAccess cfg) \<noteq> []
          then
            (if co_useRefreshTokensFallback (cc_options cfg) = Some True
             then getTokenFromIFrame br cfg options
             else andNext (on_cache (\<lambda>c. ((), cm_remove (cc_manager cfg) (Some (cc_clientId cfg))
                      (Some (gt_audience options)) (gt_scope options) c)))
                    (throw (MissingScopesError (Some (gt_audience options))
                       (Some (getMissingScopes scopesToRequest (json_str (map_of tokenResult ''scope'')) (cc_onlineAccess cfg))))))
          else ret tokenResult)))"

definition refresh_failed ::
  "('k, 'w) browser \<Rightarrow> ('c, 'w) client_config \<Rightarrow> silent_options \<Rightarrow> js_error
     \<Rightarrow> (('c, 'k, 'w) client_state, js_error, json obj) act" where
  "refresh_failed br cfg options e =
     (if str_includes (err_message e) USER_BLOCKED_ERROR_MESSAGE
      then andNext (logout br cfg logout_silently) (throw e)
      else if (str_includes (err_message e) MISSING_REFRESH_TOKEN_ERROR_MESSAGE \<or>
               str_includes (err_message e) INVALID_REFRESH_TOKEN_ERROR_MESSAGE) \<and>
              co_useRefreshTokensFallback (cc_options cfg) = Some True
      then getTokenFromIFrame br cfg options
      else throw e)"

definition getTokenUsingRefreshToken ::
  "('k, 'w) browser \<Rightarrow> ('c, 'w) client_config \<Rightarrow> silent_options
     \<Rightarrow> (('c, 'k, 'w) client_state, js_error, json obj) act" where
  "getTokenUsingRefreshToken br cfg options =
     andThen (client_get br cfg (gt_scope options) (gt_audience options) 0 None) (\<lambda>cache.
       if \<not> truthy (Option.bind cache ce_refresh_token) \<and> \<not> cc_worker cfg
       then (if co_useRefreshTokensFallback (cc_options cfg) = Some True
             then getTokenFromIFrame br cfg options
             else throw (MissingRefreshTokenError (Some (gt_audience options)) (gt_scope options)))
       else catching (refresh_exchange br cfg options cache) (refresh_failed br cfg options))"

section \<open>getTokenSilently\<close>

definition handleInteractiveErrorWithPopup ::
  "('k, 'w) browser \<Rightarrow> ('c, 'w) client_config \<Rightarrow> silent_options
     \<Rightarrow> (('c, 'k, 'w) client_state, js_error, token_response option) act" where
  "handleInteractiveErrorWithPopup br cfg options =
     andNext (loginWithPopup br cfg (gt_params options) no_popup_config)
     (andThen (getEntryFromCache br cfg (gt_scope options) (gt_audience options) None) (\<lambda>entry. case entry of
        None \<Rightarrow> throw (GenericError ''interactive_handler_cache_miss''
          ''Token not found in cache after interactive authentication'' None)
      | Some e \<Rightarrow> ret (Some e)))"

definition locked_request ::
  "('k, 'w) browser \<Rightarrow> ('c, 'w) client_config \<Rightarrow> silent_options
     \<Rightarrow> (('c, 'k, 'w) client_state, js_error, token_response option) act" where
  "locked_request br cfg options =
     andThen (if gt_cacheMode options \<noteq> ''off''
              then getEntryFromCache br cfg (gt_scope options) (gt_audience options) None else ret None) (\<lambda>entry.
     case entry of
       Some e \<Rightarrow> ret (Some e)
     | None \<Rightarrow>
         andThen (if co_useRefreshTokens (cc_options cfg) then getTokenUsingRefreshToken br cfg options
                  else getTokenFromIFrame br cfg options) (\<lambda>authResult.
           let r = silent_result authResult in ret (Some (r\<lparr>tr_scope := or_undefined (tr_scope r)\<rparr>))))"

definition getTokenSilently_inner ::
  "('k, 'w) browser \<Rightarrow> ('c, 'w) client_config \<Rightarrow> silent_options
     \<Rightarrow> (('c, 'k, 'w) client_state, js_error, token_response option) act" where
  "getTokenSilently_inner br cfg options =
     andThen (isSessionCeilingReached br cfg) (\<lambda>reached.
       if reached then ret None
       else
         andThen (if gt_cacheMode options \<noteq> ''off''
                  then getEntryFromCache br cfg (gt_scope options) (gt_audience options) (Some (gt_cacheMode options))
                  else ret None) (\<lambda>entry.
         case entry of
           Some e \<Rightarrow> ret (Some e)
         | None \<Rightarrow>
             if gt_cacheMode options = ''cache-only'' then ret None
             else
               catching (with_lock br cfg (buildGetTokenSilentlyLockKey (cc_clientId cfg) (gt_audience options)) 5000
                    (locked_request br cfg options))
                 (\<lambda>e. if isInteractiveError e \<and> popup_handler cfg
                      then handleInteractiveErrorWithPopup br cfg options else throw e)))"

definition silent_options_of ::
  "('c, 'w) client_config \<Rightarrow> string option \<Rightarrow> params \<Rightarrow> int option \<Rightarrow> silent_options" where
  "silent_options_of cfg cacheMode ps timeoutInSeconds =
     \<lparr>gt_cacheMode = (case cacheMode of None \<Rightarrow> ''on'' | Some m \<Rightarrow> m), gt_params = merged_params cfg ps,
      gt_timeoutInSeconds = timeoutInSeconds\<rparr>"

text \<open>The key under which concurrent calls share one request (\<open>Promise\<close>).\<close>

definition silent_promise_key :: "('c, 'w) client_config \<Rightarrow> silent_options \<Rightarrow> string" where
  "silent_promise_key cfg options =
     cc_clientId cfg @ ''::'' @ tmpl (opt_str (gt_params options) ''audience'') @ ''::'' @
     tmpl (gt_scope options) @ ''::'' @ gt_cacheMode options"

definition getTokenSilently ::
  "('k, 'w) browser \<Rightarrow> ('c, 'w) client_config \<Rightarrow> string option \<Rightarrow> params \<Rightarrow> int option
     \<Rightarrow> (('c, 'k, 'w) client_state, js_error, token_response option) act" where
  "getTokenSilently br cfg cacheMode ps timeoutInSeconds =
     getTokenSilently_inner br cfg (silent_options_of cfg cacheMode ps timeoutInSeconds)"

definition checkSession ::
  "('k, 'w) browser \<Rightarrow> ('c, 'w) client_config \<Rightarrow> string option \<Rightarrow> params \<Rightarrow> int option
     \<Rightarrow> (('c, 'k, 'w) client_state, js_error, unit) act" where
  "checkSession br cfg cacheMode ps timeoutInSeconds s =
     (let st = cc_cookieStorage cfg;
          days = \<lparr>so_daysUntilExpire = Some (cc_sessionCheckExpiryDays cfg), so_cookieDomain = co_cookieDomain (cc_options cfg)\<rparr>;
          check = catching (andNext (getTokenSilently br cfg cacheMode ps timeoutInSeconds) (ret ()))
             (\<lambda>e. if is_GenericError e \<and> err_code e = Some ''login_required'' \<and>
                     err_message e \<noteq> MFA_STEP_UP_ERROR_DESCRIPTION
                  then maybeCreateAnonymousSession br cfg else ret ())
      in case cs_get st (cc_isAuthenticatedCookieName cfg) (st_web s) of
           Inl e \<Rightarrow> (Inl e, s)
         | Inr v \<Rightarrow>
             if json_truthy v then check s
             else (case cs_get st OLD_IS_AUTHENTICATED_COOKIE_NAME (st_web s) of
                Inl e \<Rightarrow> (Inl e, s)
              | Inr old \<Rightarrow>
                  if \<not> json_truthy old then maybeCreateAnonymousSession br cfg s
                  else
                    andNext (on_web (cs_save st (cc_isAuthenticatedCookieName cfg) (JBool True) days))
                    (andNext (on_web (cs_remove st OLD_IS_AUTHENTICATED_COOKIE_NAME
                        \<lparr>so_daysUntilExpire = None, so_cookieDomain = None\<rparr>)) check) s))"

definition getTokenWithPopup ::
  "('k, 'w) browser \<Rightarrow> ('c, 'w) client_config \<Rightarrow> params \<Rightarrow> popup_config
     \<Rightarrow> (('c, 'k, 'w) client_state, js_error, string option) act" where
  "getTokenWithPopup br cfg ps config =
     (let local = merged_params cfg ps;
          config1 = config\<lparr>po_timeoutInSeconds := or_option (po_timeoutInSeconds config) DEFAULT_AUTHORIZE_TIMEOUT_IN_SECONDS\<rparr>
      in andNext (loginWithPopup br cfg local config1)
           (andThen (client_get br cfg (opt_str local ''scope'') (or_default (opt_str local ''audience'') DEFAULT_AUDIENCE) 0 None)
             (\<lambda>cache. case cache of
                None \<Rightarrow> throw (TypeErr ''Cannot read properties of undefined'')
              | Some e \<Rightarrow> ret (ce_access_token e))))"

end
