(* ===== verification/ClientExchange.thy ===== *)
theory ClientExchange
  imports ClientFlows
begin

text \<open>
  The rest of \<open>src/Auth0Client.ts\<close>: token exchange, DPoP, fetchers, connected accounts, the
  redirect callback, the grants of the MFA and passkey clients; and \<open>src/mfa/MfaApiClient.ts\<close> over
  them.
\<close>

section \<open>Token exchange\<close>

definition TOKEN_EXCHANGE_GRANT :: string where
  "TOKEN_EXCHANGE_GRANT = ''urn:ietf:params:oauth:grant-type:token-exchange''"

definition given :: "params \<Rightarrow> string \<Rightarrow> params" where
  "given options k = (if truthy (opt_str options k) then [(k, str_param (opt_str options k))] else [])"

definition buildTokenExchangeParams :: "('c, 'w) client_config \<Rightarrow> params \<Rightarrow> params" where
  "buildTokenExchangeParams cfg options =
     (let audience = or_param cfg (opt_str options ''audience'') ''audience''
      in obj_spread options
       ([(''grant_type'', Some (JStr TOKEN_EXCHANGE_GRANT)),
         (''subject_token'', str_param (opt_str options ''subject_token'')),
         (''subject_token_type'', str_param (opt_str options ''subject_token_type''))] @
        given options ''actor_token'' @ given options ''actor_token_type'' @
        [(''scope'', Some (JStr (scopesToRequest (cc_scope cfg) (opt_str options ''scope'') audience))),
         (''audience'', str_param audience),
         (''organization'', str_param (or_param cfg (opt_str options ''organization'') ''organization''))]))"

definition loginWithCustomTokenExchange ::
  "('k, 'w) browser \<Rightarrow> ('c, 'w) client_config \<Rightarrow> params \<Rightarrow> (('c, 'k, 'w) client_state, js_error, json obj) act" where
  "loginWithCustomTokenExchange br cfg options =
     (let ps = buildTokenExchangeParams cfg options
      in andThen (requestToken br cfg ps (no_extra\<lparr>rx_organization := opt_str ps ''organization''\<rparr>)) (\<lambda>r. ret (fst r)))"

text \<open>\<open>exchangeToken\<close> is its deprecated name.\<close>

definition exchangeToken ::
  "('k, 'w) browser \<Rightarrow> ('c, 'w) client_config \<Rightarrow> params \<Rightarrow> (('c, 'k, 'w) client_state, js_error, json obj) act" where
  "exchangeToken br cfg options = loginWithCustomTokenExchange br cfg options"

definition exchange_options :: "('c, 'w) client_config \<Rightarrow> params \<Rightarrow> token_endpoint_options" where
  "exchange_options cfg ps =
     \<lparr>te_baseUrl = cc_domainUrl cfg, te_timeout = Some (cc_httpTimeoutMs cfg),
      te_audience = opt_str ps ''audience'', te_scope = opt_str ps ''scope'',
      te_auth0Client = co_auth0Client (cc_options cfg),
      te_useFormData = (co_useFormData (cc_options cfg) = Some True),
      te_useMrrt = flag_option ps ''useMrrt'' False,
      te_preserveRefreshToken = flag_option ps ''preserveRefreshToken'' False,
      te_options = AList.update ''client_id'' (Some (JStr (cc_clientId cfg))) (rest_options ps)\<rparr>"

definition customTokenExchange ::
  "('k, 'w) browser \<Rightarrow> ('c, 'w) client_config \<Rightarrow> params \<Rightarrow> (('c, 'k, 'w) client_state, js_error, json obj) act" where
  "customTokenExchange br cfg options =
     (let ps = buildTokenExchangeParams cfg options
      in catching
        (andThen (oauthToken (client_http br cfg) (client_dpop br cfg) (exchange_options cfg ps) True) (\<lambda>result.
           if json_truthy (map_of result ''id_token'')
           then andNext (verifyIdToken br cfg (json_str (map_of result ''id_token'')) None
                    (opt_str options ''organization'') None) (ret result)
           else ret result))
        (\<lambda>e. andNext (storeMfaContext br e (opt_str ps ''scope'') (opt_str ps ''audience'')) (throw e)))"

section \<open>DPoP\<close>

definition assertDpop :: "('c, 'w) client_config \<Rightarrow> ('s, js_error, 'a) act \<Rightarrow> ('s, js_error, 'a) act" where
  "assertDpop cfg m =
     (if cc_dpop cfg then m else throw (PlainError ''`useDpop` option must be enabled before using DPoP.''))"

definition getDpopNonce ::
  "('c, 'w) client_config \<Rightarrow> string option \<Rightarrow> (('c, 'k, 'w) client_state, js_error, string option) act" where
  "getDpopNonce cfg nonceId = assertDpop cfg (on_dpop (dp_findNonce (cc_clientId cfg) nonceId))"

definition setDpopNonce ::
  "('c, 'w) client_config \<Rightarrow> string \<Rightarrow> string option \<Rightarrow> (('c, 'k, 'w) client_state, js_error, unit) act" where
  "setDpopNonce cfg nonce nonceId = assertDpop cfg (on_dpop (dp_setNonce (cc_clientId cfg) nonce nonceId))"

definition generateDpopProof ::
  "('k, 'w) browser \<Rightarrow> ('c, 'w) client_config \<Rightarrow> string \<Rightarrow> string \<Rightarrow> string option \<Rightarrow> string
     \<Rightarrow> (('c, 'k, 'w) client_state, js_error, string) act" where
  "generateDpopProof br cfg url method nonce accessToken =
     assertDpop cfg (on_dpop (dp_generateProof (br_dpop br) (br_strip_url br) (cc_clientId cfg) url method nonce
       (Some accessToken)))"

section \<open>Fetchers\<close>

definition token_of :: "token_response option \<Rightarrow> token_result option" where
  "token_of r = map_option VerboseToken r"

text \<open>The call of \<open>getTokenSilently\<close> with an audience that may be \<open>undefined\<close>, and the property is
  there all the same.\<close>

definition fetcher_params :: "auth_params option \<Rightarrow> string option \<Rightarrow> params" where
  "fetcher_params authParams audience =
     [(''scope'', str_param (Option.bind authParams (\<lambda>a. map_option (join '' '') (ap_scope a)))),
      (''audience'', str_param audience)]"

definition createFetcher_hooks ::
  "('k, 'w) browser \<Rightarrow> ('c, 'w) client_config \<Rightarrow> string option \<Rightarrow> ('c, 'k, 'w) client_state fetcher_hooks" where
  "createFetcher_hooks br cfg dpopNonceId =
     \<lparr>fh_getAccessToken = (\<lambda>authParams. andThen (getTokenSilently br cfg None
         (fetcher_params authParams (Option.bind authParams ap_audience)) None) (\<lambda>r. ret (token_of r))),
      fh_getDpopNonce = getDpopNonce cfg dpopNonceId,
      fh_setDpopNonce = (\<lambda>nonce. setDpopNonce cfg nonce dpopNonceId),
      fh_generateDpopProof = generateDpopProof br cfg\<rparr>"

definition window_fetch ::
  "('k, 'w) browser \<Rightarrow> request \<Rightarrow> (('c, 'k, 'w) client_state, js_error, raw_response fetched) act" where
  "window_fetch br request =
     andNext (logged (Called request))
     (andThen (world_try (br_fetch br request)) (\<lambda>res.
        ret \<lparr>ft_status = rr_status res, ft_headers = HeaderGetter (map_of (rr_headers res)), ft_output = res\<rparr>))"

definition createFetcher ::
  "('k, 'w) browser \<Rightarrow> ('c, 'w) client_config \<Rightarrow> string option \<Rightarrow> string option \<Rightarrow> request_info \<Rightarrow> request_init
     \<Rightarrow> auth_params option \<Rightarrow> (('c, 'k, 'w) client_state, js_error, raw_response fetched) act" where
  "createFetcher br cfg baseUrl dpopNonceId =
     fetchWithAuth (\<lambda>u. if br_parse_url br u = None then None else Some u)
       \<lparr>fc_getAccessToken = None, fc_baseUrl = baseUrl, fc_fetch = window_fetch br, fc_dpopNonceId = dpopNonceId\<rparr>
       (createFetcher_hooks br cfg dpopNonceId)"

text \<open>The fetcher of the My Account API asks for the audience of that API.\<close>

definition myAccountApiIdentifier :: "('c, 'w) client_config \<Rightarrow> string" where
  "myAccountApiIdentifier cfg = cc_domainUrl cfg @ ''/me/''"

definition my_account_fetch ::
  "('k, 'w) browser \<Rightarrow> ('c, 'w) client_config \<Rightarrow> ('c, 'k, 'w) client_state api_fetch" where
  "my_account_fetch br cfg url init authParams =
     (let dpopNonceId = (if cc_dpop cfg then Some ''__auth0_my_account_api__'' else None)
      in andThen (fetchWithAuth (\<lambda>u. if br_parse_url br u = None then None else Some u)
           \<lparr>fc_getAccessToken = Some (\<lambda>a. andThen (getTokenSilently br cfg None
                (fetcher_params a (Some (myAccountApiIdentifier cfg))) None) (\<lambda>r. ret (token_of r))),
            fc_baseUrl = None, fc_fetch = window_fetch br, fc_dpopNonceId = dpopNonceId\<rparr>
           (createFetcher_hooks br cfg dpopNonceId) (InfoString url) init authParams)
         (\<lambda>res. ret (ft_output res)))"

section \<open>Connected accounts\<close>

record 's connect_options =
  cn_openUrl :: "(string \<Rightarrow> ('s, js_error, unit) act) option"
  cn_appState :: "json option"
  cn_connection :: string
  cn_scopes :: "string list option"
  cn_authorization_params :: "json option"
  cn_redirectUri :: "string option"

definition connectAccountWithRedirect ::
  "('k, 'w) browser \<Rightarrow> ('c, 'w) client_config \<Rightarrow> ('c, 'k, 'w) client_state connect_options
     \<Rightarrow> (('c, 'k, 'w) client_state, js_error, unit) act" where
  "connectAccountWithRedirect br cfg options =
     (let redirectUri = (case cn_redirectUri options of
            Some u \<Rightarrow> u | None \<Rightarrow> or_default (opt_str (cc_params cfg) ''redirect_uri'') (br_origin br))
      in if cn_connection options = [] then throw (PlainError ''connection is required'')
      else
        andThen (random_string br) (\<lambda>state0.
        andThen (random_string br) (\<lambda>code_verifier.
          let state = js_encode state0;
              code_challenge = bufferToBase64UrlEncoded (br_sha256 br code_verifier)
          in andThen (connectAccount (my_account_fetch br cfg) (myAccountApiIdentifier cfg)
               [(''connection'', Some (JStr (cn_connection options))),
                (''scopes'', map_option (\<lambda>ss. JArr (map JStr ss)) (cn_scopes options)),
                (''redirect_uri'', Some (JStr redirectUri)), (''state'', Some (JStr state)),
                (''code_challenge'', Some (JStr code_challenge)), (''code_challenge_method'', Some (JStr ''S256'')),
                (''authorization_params'', cn_authorization_params options)]) (\<lambda>body.
             if body = JNull then throw (TypeErr ''Cannot destructure null'')
             else
               andNext (on_web (tm_create (cc_transactions cfg) (ConnectTx
                  \<lparr>ct_appState = cn_appState options, ct_audience = None,
                   ct_auth_session = json_str (json_get body ''auth_session''), ct_code_verifier = Some code_verifier,
                   ct_redirect_uri = Some redirectUri, ct_scope = None, ct_state = Some state,
                   ct_connection = Some (cn_connection options)\<rparr>)))
               (case (json_get body ''connect_params'', br_url_with_param br (tmpl (json_str (json_get body ''connect_uri''))) ''ticket''
                       (case json_get body ''connect_params'' of None \<Rightarrow> [] | Some p \<Rightarrow> tmpl (json_str (json_get p ''ticket'')))) of
                  (_, None) \<Rightarrow> throw (TypeErr ''Invalid URL'')
                | (None, _) \<Rightarrow> throw (TypeErr ''Cannot read properties of undefined'')
                | (Some _, Some url) \<Rightarrow>
                    (case cn_openUrl options of Some f \<Rightarrow> f url | None \<Rightarrow> logged (Assigned url)))))))"

definition handleConnectAccountRedirectCallback ::
  "('k, 'w) browser \<Rightarrow> ('c, 'w) client_config \<Rightarrow> authentication_result \<Rightarrow> connect_transaction
     \<Rightarrow> (('c, 'k, 'w) client_state, js_error, json) act" where
  "handleConnectAccountRedirectCallback br cfg r t =
     (if truthy (ar_error r) then
        throw (ConnectError (the (ar_error r)) (or_default (ar_error_description r) (the (ar_error r)))
          (tmpl (ct_connection t)) (ar_state r) (ct_appState t))
      else if \<not> truthy (ar_connect_code r) then
        throw (GenericError ''missing_connect_code'' ''Missing connect code'' None)
      else if \<not> truthy (ct_code_verifier t) \<or> \<not> truthy (ct_state t) \<or> \<not> truthy (ct_auth_session t) \<or>
              \<not> truthy (ct_redirect_uri t) \<or> ct_state t \<noteq> ar_state r then
        throw (GenericError ''state_mismatch'' ''Invalid state'' None)
      else
        completeAccount (my_account_fetch br cfg) (myAccountApiIdentifier cfg)
          [(''auth_session'', str_param (ct_auth_session t)), (''connect_code'', str_param (ar_connect_code r)),
           (''redirect_uri'', str_param (ct_redirect_uri t)), (''code_verifier'', str_param (ct_code_verifier t))])"

datatype redirect_result = LoginResult "json option" | ConnectResult json "json option"

definition handleRedirectCallback ::
  "('k, 'w) browser \<Rightarrow> ('c, 'w) client_config \<Rightarrow> string \<Rightarrow> (('c, 'k, 'w) client_state, js_error, redirect_result) act" where
  "handleRedirectCallback br cfg url =
     (let queryStringFragments = drop 1 (split_str ''?'' url)
      in if queryStringFragments = [] then throw (PlainError ''There are no query params available for parsing.'')
      else
        andThen (\<lambda>s. (tm_get (cc_transactions cfg) (st_web s), s)) (\<lambda>transaction. case transaction of
          None \<Rightarrow> throw (GenericError ''missing_transaction'' ''Invalid state'' None)
        | Some tx \<Rightarrow>
            andNext (on_web (tm_remove (cc_transactions cfg)))
            (let authenticationResult = parseAuthenticationResult (concat queryStringFragments)
             in case tx of
                  ConnectTx t \<Rightarrow>
                    andThen (handleConnectAccountRedirectCallback br cfg authenticationResult t)
                      (\<lambda>data. ret (ConnectResult data (ct_appState t)))
                | LoginTx t \<Rightarrow>
                    andThen (handleLoginRedirectCallback br cfg authenticationResult t) (\<lambda>a. ret (LoginResult a)))))"

section \<open>Grants of the sub-clients\<close>

record passkey_grant =
  pg_authSession :: string
  pg_credential :: json
  pg_realm :: "string option"
  pg_scope :: "string option"
  pg_audience :: "string option"
  pg_organization :: "string option"
  pg_verification :: "json obj option"

definition passkey_error :: "js_error \<Rightarrow> js_error" where
  "passkey_error e =
     (case e of
        GenericError code description (Some data) \<Rightarrow>
          if json_truthy (json_get data ''auth_session'') \<and> json_truthy (json_get data ''verification_required'')
          then PasskeyGetToken code description (json_str (json_get data ''auth_session''))
                 (case json_get data ''verification_required'' of Some (JArr vs) \<Rightarrow> Some (strings_of vs) | _ \<Rightarrow> None)
          else e
      | _ \<Rightarrow> e)"

definition requestTokenForPasskey ::
  "('k, 'w) browser \<Rightarrow> ('c, 'w) client_config \<Rightarrow> passkey_grant
     \<Rightarrow> (('c, 'k, 'w) client_state, js_error, json obj) act" where
  "requestTokenForPasskey br cfg o1 =
     (let audience = or_param cfg (pg_audience o1) ''audience'';
          organization = or_param cfg (pg_organization o1) ''organization'';
          hasVerification = (pg_verification o1 \<noteq> None \<and> pg_verification o1 \<noteq> Some [])
      in catching
        (andThen (requestToken br cfg
           ([(''grant_type'', Some (JStr ''urn:okta:params:oauth:grant-type:webauthn'')),
             (''auth_session'', Some (JStr (pg_authSession o1))), (''authn_response'', Some (pg_credential o1))] @
            (if truthy (pg_realm o1) then [(''realm'', str_param (pg_realm o1))] else []) @
            (if truthy organization then [(''organization'', str_param organization)] else []) @
            (if hasVerification then [(''verification'', Some (JObj (the (pg_verification o1))))] else []) @
            [(''scope'', Some (JStr (scopesToRequest (cc_scope cfg) (pg_scope o1) audience))),
             (''audience'', str_param audience)]) no_extra) (\<lambda>r. ret (fst r)))
        (\<lambda>e. throw (passkey_error e)))"

definition requestTokenForMfa ::
  "('k, 'w) browser \<Rightarrow> ('c, 'w) client_config \<Rightarrow> string \<Rightarrow> params
     \<Rightarrow> (('c, 'k, 'w) client_state, js_error, json obj) act" where
  "requestTokenForMfa br cfg mfaToken restOptions =
     andThen (client_get br cfg (opt_str restOptions ''scope'')
         (or_default (opt_str restOptions ''audience'') DEFAULT_AUDIENCE) 0 None) (\<lambda>previous.
     andThen (requestToken br cfg (obj_spread restOptions [(''mfa_token'', Some (JStr mfaToken))]) no_extra) (\<lambda>r.
     andNext (propagateRotatedRefreshToken cfg (Option.bind previous ce_refresh_token)
         (json_str (map_of (fst r) ''refresh_token'')))
       (ret (fst r))))"

section \<open>Creating a client\<close>

text \<open>\<open>createAuth0Client\<close>: the constructor, then the first look for a session.\<close>

definition createAuth0Client ::
  "('k, 'w) browser \<Rightarrow> 'w page_facts \<Rightarrow> lock_manager option \<Rightarrow> 'u page_caches client_options
     \<Rightarrow> (('u page_caches, 'k, 'w) client_state, js_error, ('u page_caches, 'w) client_config) act" where
  "createAuth0Client br page managers options = (case new_Auth0Client page managers options of
     Inl e \<Rightarrow> throw e
   | Inr (cfg, _) \<Rightarrow> andNext (checkSession br cfg None [] None) (ret cfg))"

section \<open>MfaApiClient\<close>

text \<open>The MFA client of the package: each operation answers, throws its own error class (with
  the code of its cause), or throws something else.\<close>

datatype mfa_outcome = MfaAnswer json | MfaLibError "string option" string | MfaOther js_error

record 'w mfa_lib =
  ml_list :: "string \<Rightarrow> 'w \<Rightarrow> mfa_outcome \<times> 'w"
  ml_enroll :: "json \<Rightarrow> 'w \<Rightarrow> mfa_outcome \<times> 'w"
  ml_challenge :: "json \<Rightarrow> 'w \<Rightarrow> mfa_outcome \<times> 'w"

definition mfa_call ::
  "('w \<Rightarrow> mfa_outcome \<times> 'w) \<Rightarrow> (string option \<Rightarrow> string \<Rightarrow> js_error) \<Rightarrow> (('c, 'k, 'w) client_state, js_error, json) act" where
  "mfa_call f wrap = andThen (world f) (\<lambda>outcome. case outcome of
     MfaAnswer v \<Rightarrow> ret v
   | MfaLibError code message \<Rightarrow> throw (wrap code message)
   | MfaOther e \<Rightarrow> throw e)"

definition setMFAAuthDetails ::
  "('k, 'w) browser \<Rightarrow> string \<Rightarrow> string option \<Rightarrow> string option \<Rightarrow> mfa_requirements option
     \<Rightarrow> (('c, 'k, 'w) client_state, js_error, unit) act" where
  "setMFAAuthDetails br mfaToken scope audience requirements =
     modify (\<lambda>s. s\<lparr>st_mfa := mfa_set (client_now br s) mfaToken scope audience requirements (st_mfa s)\<rparr>)"

definition mfa_context_of ::
  "('k, 'w) browser \<Rightarrow> string \<Rightarrow> (('c, 'k, 'w) client_state, js_error, mfa_context option) act" where
  "mfa_context_of br mfaToken s =
     (case mfa_get (client_now br s) mfaToken (st_mfa s) of (c, m) \<Rightarrow> (Inr c, s\<lparr>st_mfa := m\<rparr>))"

definition accepted_type :: "string list \<Rightarrow> json \<Rightarrow> bool" where
  "accepted_type challengeTypes auth =
     (case json_str (json_get auth ''type'') of None \<Rightarrow> False | Some t \<Rightarrow> t \<noteq> [] \<and> t \<in> set challengeTypes)"

definition getAuthenticators ::
  "('k, 'w) browser \<Rightarrow> 'w mfa_lib \<Rightarrow> string \<Rightarrow> (('c, 'k, 'w) client_state, js_error, json) act" where
  "getAuthenticators br lib mfaToken =
     andThen (mfa_context_of br mfaToken) (\<lambda>context. case context of
       None \<Rightarrow> throw (MfaListAuthenticatorsError (Some ''invalid_request'') ''MFA context not found for this MFA token'')
     | Some c \<Rightarrow>
         andThen (mfa_call (ml_list lib mfaToken) MfaListAuthenticatorsError) (\<lambda>allAuthenticators.
           ret (case (Option.bind (mc_mfaRequirements c) req_challenge, allAuthenticators) of
              (Some (t # ts), JArr vs) \<Rightarrow> JArr (filter (accepted_type (t # ts)) vs)
            | _ \<Rightarrow> allAuthenticators)))"

definition mfa_enroll :: "'w mfa_lib \<Rightarrow> enroll_params \<Rightarrow> (('c, 'k, 'w) client_state, js_error, json) act" where
  "mfa_enroll lib ps = mfa_call (ml_enroll lib (getAuthJsEnrollParams ps)) MfaEnrollmentError"

record challenge_params =
  cp_mfaToken :: string
  cp_challengeType :: string
  cp_authenticatorId :: "string option"

definition mfa_challenge :: "'w mfa_lib \<Rightarrow> challenge_params \<Rightarrow> (('c, 'k, 'w) client_state, js_error, json) act" where
  "mfa_challenge lib ps =
     mfa_call (ml_challenge lib (JObj ([(''challengeType'', JStr (cp_challengeType ps)), (''mfaToken'', JStr (cp_mfaToken ps))] @
        (if truthy (cp_authenticatorId ps) then [(''authenticatorId'', JStr (the (cp_authenticatorId ps)))] else []))))
       MfaChallengeError"

definition getEnrollmentFactors ::
  "('k, 'w) browser \<Rightarrow> string \<Rightarrow> (('c, 'k, 'w) client_state, js_error, string list) act" where
  "getEnrollmentFactors br mfaToken =
     andThen (mfa_context_of br mfaToken) (\<lambda>context. case Option.bind context mc_mfaRequirements of
       None \<Rightarrow> throw (MfaEnrollmentFactorsError (Some ''mfa_context_not_found'')
         ''MFA context not found for this MFA token. Please retry the original request to get a new MFA token.'')
     | Some r \<Rightarrow> ret (case req_enroll r of None \<Rightarrow> [] | Some fs \<Rightarrow> fs))"

definition mfa_verify ::
  "('k, 'w) browser \<Rightarrow> ('c, 'w) client_config \<Rightarrow> verify_params \<Rightarrow> (('c, 'k, 'w) client_state, js_error, json obj) act" where
  "mfa_verify br cfg ps =
     andThen (mfa_context_of br (vp_mfaToken ps)) (\<lambda>context. case context of
       None \<Rightarrow> throw (MfaVerifyError (Some ''mfa_context_not_found'')
         ''MFA context not found for this MFA token. Please retry the original request to get a new MFA token.'')
     | Some c \<Rightarrow>
         (case getGrantType ps of
            None \<Rightarrow> throw (MfaVerifyError (Some ''invalid_request'')
              ''Unable to determine grant type. Provide one of: otp, oobCode, or recoveryCode.'')
          | Some grantType \<Rightarrow>
              andThen (requestTokenForMfa br cfg (vp_mfaToken ps)
                 [(''grant_type'', Some (JStr grantType)), (''scope'', str_param (mc_scope c)),
                  (''audience'', str_param (mc_audience c)), (''otp'', str_param (vp_otp ps)),
                  (''oob_code'', str_param (vp_oobCode ps)), (''binding_code'', str_param (vp_bindingCode ps)),
                  (''recovery_code'', str_param (vp_recoveryCode ps))]) (\<lambda>result.
              andNext (modify (\<lambda>s. s\<lparr>st_mfa := mfa_remove (vp_mfaToken ps) (st_mfa s)\<rparr>)) (ret result))))"

end
