(* ===== verification/Passkey.thy ===== *)
theory Passkey
  imports ClientExchange
begin

text \<open>
  \<open>src/passkey/PasskeyApiClient.ts\<close>: signing up and logging in with a passkey. The package's client,
  \<open>navigator.credentials\<close> and the token request are operations on the caller's state \<open>'s\<close>
  (\<open>passkey_ops\<close>); the client's own state is the signup that waits for its verification codes.
  Byte buffers are lists of bytes.
\<close>

section \<open>Buffers\<close>

definition bufferToBase64url :: "nat list \<Rightarrow> string" where
  "bufferToBase64url buffer =
     rev (dropWhile (\<lambda>c. c = CHR ''='')
       (rev (replace_char (CHR ''/'') (CHR ''_'') (replace_char (CHR ''+'') (CHR ''-'') (btoa (map char_of buffer))))))"

definition base64urlToBuffer :: "string \<Rightarrow> nat list option" where
  "base64urlToBuffer base64url =
     (let base64 = replace_char (CHR ''_'') (CHR ''/'') (replace_char (CHR ''-'') (CHR ''+'') base64url);
          padded = base64 @ replicate ((4 - length base64 mod 4) mod 4) (CHR ''='')
      in map_option (map of_char) (atob padded))"

lemma drop_padding_padded:
  assumes "CHR ''='' \<notin> set t" and "length t mod 4 \<noteq> 1"
  shows "drop_padding (t @ replicate ((4 - length t mod 4) mod 4) (CHR ''='')) = t"
proof -
  have one: "drop_padding (t @ [CHR ''='']) = t" if "length t mod 4 = 3"
  proof -
    from that obtain u c where t: "t = u @ [c]" by (cases t rule: rev_cases) auto
    with assms(1) have "c \<noteq> CHR ''=''" by auto
    moreover from that have "(length t + 1) mod 4 = 0" by presburger
    ultimately show ?thesis unfolding t by (simp add: drop_padding_def)
  qed
  have two: "drop_padding (t @ [CHR ''='', CHR ''='']) = t" if "length t mod 4 = 2"
  proof -
    from that have "(length t + 2) mod 4 = 0" by presburger
    then show ?thesis by (simp add: drop_padding_def)
  qed
  have "length t mod 4 < 4" by simp
  with assms(2) consider "length t mod 4 = 0" | "length t mod 4 = 2" | "length t mod 4 = 3" by linarith
  then show ?thesis
  proof cases
    case 1
    then show ?thesis using drop_padding_none [OF assms(1)] by simp
  next
    case 2
    then have "(4 - length t mod 4) mod 4 = Suc (Suc 0)" by simp
    then show ?thesis using two [OF 2] by simp
  next
    case 3
    then have "(4 - length t mod 4) mod 4 = Suc 0" by simp
    then show ?thesis using one [OF 3] by simp
  qed
qed

lemma strip_equals:
  assumes "CHR ''='' \<notin> set t"
  shows "rev (dropWhile (\<lambda>c. c = CHR ''='') (rev (t @ b64_padding n))) = t"
proof -
  have "dropWhile (\<lambda>c. c = CHR ''='') (rev t) = rev t"
    using assms by (cases t rule: rev_cases) auto
  then show ?thesis by (simp add: b64_padding_def)
qed

lemma bufferToBase64url_text:
  assumes "\<forall>b \<in> set bs. b < 256"
  shows "bufferToBase64url bs = map url_char (map b64_char (to_sextets bs))"
proof -
  let ?t = "map b64_char (to_sextets bs)"
  have t: "CHR ''='' \<notin> set ?t" by (rule sextet_chars(1) [OF assms])
  have r: "replace_char (CHR ''/'') (CHR ''_'') (replace_char (CHR ''+'') (CHR ''-'') s) = map url_char s" for s
    by (induction s) (auto simp: replace_char_def url_char_def)
  have "url_char c = CHR ''='' \<longleftrightarrow> c = CHR ''=''" for c by (simp add: url_char_def)
  with t have u: "CHR ''='' \<notin> set (map url_char ?t)" by (metis (no_types, lifting) imageE list.set_map)
  have p: "map url_char (b64_padding n) = b64_padding n" for n
    by (simp add: b64_padding_def url_char_def)
  have "map of_char (map char_of bs :: string) = bs" using map_of_char_of [OF assms] by simp
  then show ?thesis
    unfolding bufferToBase64url_def r btoa_def bytes_to_b64_def map_append p by (simp only: strip_equals [OF u])
qed

lemma buffer_roundtrip:
  assumes "\<forall>b \<in> set bs. b < 256"
  shows "base64urlToBuffer (bufferToBase64url bs) = Some bs"
proof -
  let ?t = "map b64_char (to_sextets bs)"
  have "replace_char (CHR ''_'') (CHR ''/'') (replace_char (CHR ''-'') (CHR ''+'') (map url_char s)) = s"
    if "CHR ''-'' \<notin> set s" "CHR ''_'' \<notin> set s" for s
    using that by (induction s) (auto simp: replace_char_def url_char_def)
  then have decoded: "replace_char (CHR ''_'') (CHR ''/'') (replace_char (CHR ''-'') (CHR ''+'') (map url_char ?t)) = ?t"
    using sextet_chars [OF assms] by blast
  have len: "length ?t mod 4 \<noteq> 1"
  proof -
    have "((4 * n + 2) div 3) mod 4 \<noteq> (1::nat)" for n :: nat by presburger
    then show ?thesis by (simp only: length_map length_to_sextets not_False_eq_True)
  qed
  let ?p = "?t @ replicate ((4 - length ?t mod 4) mod 4) (CHR ''='')"
  have "filter (\<lambda>c. \<not> is_ws c) ?t = ?t"
    using to_sextets_bound [OF assms] by (simp add: filter_map comp_def)
  moreover have "\<not> is_ws (CHR ''='')" by (simp add: is_ws_def)
  ultimately have "filter (\<lambda>c. \<not> is_ws c) ?p = ?p"
    by (simp only: filter_append) (simp add: filter_replicate)
  moreover have "b64_to_bytes ?p = Some bs"
    unfolding b64_to_bytes_def drop_padding_padded [OF sextet_chars(1) [OF assms] len]
    using sextet_texts [OF assms] of_to_sextets [OF assms] by simp
  ultimately have "atob ?p = Some (map char_of bs)" by (simp only: atob_def option.map)
  with map_of_char_of [OF assms] show ?thesis
    unfolding base64urlToBuffer_def bufferToBase64url_text [OF assms] decoded Let_def by simp
qed

section \<open>Options and credentials\<close>

text \<open>The options of \<open>navigator.credentials\<close>: the fields the source converts, and the others as
  they came (\<open>kept\<close>).\<close>

record public_key =
  pk_challenge :: "nat list"
  pk_userId :: "nat list option"
  pk_kept :: json

definition invalid_base64 :: js_error where
  "invalid_base64 = Foreign None ''InvalidCharacterError''"

definition prepareRequestOptions :: "json \<Rightarrow> js_error + public_key" where
  "prepareRequestOptions publicKey =
     (case base64urlToBuffer (tmpl (json_str (json_get publicKey ''challenge''))) of
        None \<Rightarrow> Inl invalid_base64
      | Some challenge \<Rightarrow> Inr \<lparr>pk_challenge = challenge, pk_userId = None, pk_kept = publicKey\<rparr>)"

definition prepareCreationOptions :: "json \<Rightarrow> js_error + public_key" where
  "prepareCreationOptions publicKey =
     (case prepareRequestOptions publicKey of
        Inl e \<Rightarrow> Inl e
      | Inr p \<Rightarrow>
          (case json_get publicKey ''user'' of
             None \<Rightarrow> Inl (TypeErr ''Cannot read properties of undefined'')
           | Some user \<Rightarrow>
               (case base64urlToBuffer (tmpl (json_str (json_get user ''id''))) of
                  None \<Rightarrow> Inl invalid_base64
                | Some i \<Rightarrow> Inr (p\<lparr>pk_userId := Some i\<rparr>))))"

datatype credential_response =
    Attestation "nat list" "nat list"
  | Assertion "nat list" "nat list" "nat list" "nat list option"
  | OtherResponse

record credential =
  cr_id :: string
  cr_rawId :: "nat list"
  cr_type :: string
  cr_attachment :: "string option"
  cr_response :: credential_response
  cr_extensions :: json

definition serialize_credential :: "credential \<Rightarrow> json obj \<Rightarrow> json" where
  "serialize_credential c response = JObj (
     [(''id'', JStr (cr_id c)), (''rawId'', JStr (bufferToBase64url (cr_rawId c))), (''type'', JStr (cr_type c))] @
     opt_prop ''authenticatorAttachment'' (map_option JStr (cr_attachment c)) @
     [(''response'', JObj response), (''clientExtensionResults'', cr_extensions c)])"

text \<open>A buffer the response does not have counts as empty, as \<open>new Uint8Array(undefined)\<close> is.\<close>

definition serializeCreationCredential :: "credential \<Rightarrow> json" where
  "serializeCreationCredential c =
     (let (clientData, attestation) = (case cr_response c of
            Attestation d a \<Rightarrow> (d, a) | Assertion d _ _ _ \<Rightarrow> (d, []) | OtherResponse \<Rightarrow> ([], []))
      in serialize_credential c [(''clientDataJSON'', JStr (bufferToBase64url clientData)),
           (''attestationObject'', JStr (bufferToBase64url attestation))])"

definition serializeAssertionCredential :: "credential \<Rightarrow> json" where
  "serializeAssertionCredential c =
     (let (clientData, authData, signature, userHandle) = (case cr_response c of
            Attestation d _ \<Rightarrow> (d, [], [], None) | Assertion d a g u \<Rightarrow> (d, a, g, u) | OtherResponse \<Rightarrow> ([], [], [], None))
      in serialize_credential c ([(''clientDataJSON'', JStr (bufferToBase64url clientData)),
           (''authenticatorData'', JStr (bufferToBase64url authData)), (''signature'', JStr (bufferToBase64url signature))] @
           opt_prop ''userHandle'' (map_option (\<lambda>u. JStr (bufferToBase64url u)) userHandle)))"

section \<open>The client\<close>

record passkey_challenge =
  ch_authSession :: string
  ch_publicKey :: json
  ch_verificationRequired :: "string list option"

record pending_signup =
  ps_authSession :: string
  ps_publicKey :: public_key
  ps_verificationRequired :: "string list"
  ps_credential :: "json option"
  ps_realm :: "string option"
  ps_organization :: "string option"
  ps_scope :: "string option"
  ps_audience :: "string option"

record 's passkey_ops =
  px_supported :: bool
  px_register :: "params \<Rightarrow> ('s, js_error, passkey_challenge) act"
  px_challenge :: "params option \<Rightarrow> ('s, js_error, passkey_challenge) act"
  px_create :: "public_key \<Rightarrow> ('s, js_error, credential option) act"
  px_get :: "public_key \<Rightarrow> ('s, js_error, credential option) act"
  px_isRetryable :: "js_error \<Rightarrow> bool"
  px_requestToken :: "passkey_grant \<Rightarrow> ('s, js_error, json obj) act"

type_synonym 's passkey_state = "'s \<times> pending_signup option"

definition host :: "('s, js_error, 'a) act \<Rightarrow> ('s passkey_state, js_error, 'a) act" where
  "host m = zoom fst (\<lambda>t s. (t, snd s)) m"

definition set_pending :: "pending_signup option \<Rightarrow> ('s passkey_state, js_error, unit) act" where
  "set_pending p = modify (\<lambda>s. (fst s, p))"

definition lift_sum :: "'e + 'a \<Rightarrow> ('s, 'e, 'a) act" where
  "lift_sum r = (case r of Inl e \<Rightarrow> throw e | Inr x \<Rightarrow> ret x)"

definition not_supported :: js_error where
  "not_supported = PasskeyError ''passkey_not_supported'' ''WebAuthn is not supported in this browser.''"

definition creation_cancelled :: js_error where
  "creation_cancelled = PasskeyError ''passkey_cancelled'' ''Passkey creation was cancelled or no credential was returned.''"

definition grant_of ::
  "string \<Rightarrow> json \<Rightarrow> params \<Rightarrow> string option \<Rightarrow> string option \<Rightarrow> json obj option \<Rightarrow> passkey_grant" where
  "grant_of authSession credential challengeOptions scope audience verification =
     \<lparr>pg_authSession = authSession, pg_credential = credential, pg_realm = opt_str challengeOptions ''realm'',
      pg_scope = scope, pg_audience = audience, pg_organization = opt_str challengeOptions ''organization'',
      pg_verification = verification\<rparr>"

definition without_token_options :: "params \<Rightarrow> params" where
  "without_token_options options = AList.delete ''scope'' (AList.delete ''audience'' options)"

definition signup :: "'s passkey_ops \<Rightarrow> params \<Rightarrow> ('s passkey_state, js_error, json obj) act" where
  "signup ops options =
     (if \<not> px_supported ops then throw not_supported
      else
        (let challengeOptions = without_token_options options;
             scope = opt_str options ''scope'';
             audience = opt_str options ''audience''
         in andNext (set_pending None)
            (andThen (host (px_register ops challengeOptions)) (\<lambda>challenge.
             andThen (lift_sum (prepareCreationOptions (ch_publicKey challenge))) (\<lambda>publicKey.
               case ch_verificationRequired challenge of
                 Some (v # vs) \<Rightarrow>
                   andNext (set_pending (Some
                     \<lparr>ps_authSession = ch_authSession challenge, ps_publicKey = publicKey,
                      ps_verificationRequired = v # vs, ps_credential = None,
                      ps_realm = opt_str challengeOptions ''realm'',
                      ps_organization = opt_str challengeOptions ''organization'',
                      ps_scope = scope, ps_audience = audience\<rparr>))
                    (throw (PasskeyVerificationRequiredError (v # vs)))
               | _ \<Rightarrow>
                   andThen (host (px_create ops publicKey)) (\<lambda>credential. case credential of
                     None \<Rightarrow> throw creation_cancelled
                   | Some c \<Rightarrow>
                       host (px_requestToken ops (grant_of (ch_authSession challenge)
                          (serializeCreationCredential c) challengeOptions scope audience None))))))))"

definition passkey_login :: "'s passkey_ops \<Rightarrow> params \<Rightarrow> ('s passkey_state, js_error, json obj) act" where
  "passkey_login ops options =
     (if \<not> px_supported ops then throw not_supported
      else
        (let challengeOptions = without_token_options options
         in andThen (host (px_challenge ops (if challengeOptions \<noteq> [] then Some challengeOptions else None))) (\<lambda>challenge.
            andThen (lift_sum (prepareRequestOptions (ch_publicKey challenge))) (\<lambda>publicKey.
            andThen (host (px_get ops publicKey)) (\<lambda>credential. case credential of
              None \<Rightarrow> throw (PasskeyError ''passkey_cancelled''
                ''Passkey authentication was cancelled or no credential was returned.'')
            | Some c \<Rightarrow>
                host (px_requestToken ops (grant_of (ch_authSession challenge) (serializeAssertionCredential c)
                   challengeOptions (opt_str options ''scope'') (opt_str options ''audience'') None)))))))"

definition getSignupChallenge ::
  "'s passkey_ops \<Rightarrow> params \<Rightarrow> ('s passkey_state, js_error, string \<times> public_key \<times> string list option) act" where
  "getSignupChallenge ops options =
     (if \<not> px_supported ops then throw not_supported
      else
        andThen (host (px_register ops options)) (\<lambda>challenge.
        andThen (lift_sum (prepareCreationOptions (ch_publicKey challenge))) (\<lambda>publicKey.
          ret (ch_authSession challenge, publicKey, ch_verificationRequired challenge))))"

definition getLoginChallenge ::
  "'s passkey_ops \<Rightarrow> params option \<Rightarrow> ('s passkey_state, js_error, string \<times> public_key) act" where
  "getLoginChallenge ops options =
     (if \<not> px_supported ops then throw not_supported
      else
        andThen (host (px_challenge ops options)) (\<lambda>challenge.
        andThen (lift_sum (prepareRequestOptions (ch_publicKey challenge))) (\<lambda>publicKey.
          ret (ch_authSession challenge, publicKey))))"

definition getTokenWithPasskey ::
  "'s passkey_ops \<Rightarrow> string \<Rightarrow> credential \<Rightarrow> params \<Rightarrow> string obj option
     \<Rightarrow> ('s passkey_state, js_error, json obj) act" where
  "getTokenWithPasskey ops authSession credential options verification =
     (if \<not> px_supported ops then throw not_supported
      else if list_ex (\<lambda>(_, code). code = []) (case verification of None \<Rightarrow> [] | Some v \<Rightarrow> v) then
        throw (PasskeyError ''missing_verification_code'' ''OTP codes in verification must not be empty.'')
      else (case (case cr_response credential of
                    Attestation _ _ \<Rightarrow> Some (serializeCreationCredential credential)
                  | Assertion _ _ _ _ \<Rightarrow> Some (serializeAssertionCredential credential)
                  | OtherResponse \<Rightarrow> None) of
          None \<Rightarrow> throw (PasskeyError ''passkey_invalid_credential''
            ''The provided credential is not a valid attestation or assertion response.'')
        | Some serialized \<Rightarrow>
            host (px_requestToken ops (grant_of authSession serialized options (opt_str options ''scope'')
              (opt_str options ''audience'')
              (map_option (map (\<lambda>(k, v). (k, JStr v))) verification)))))"

section \<open>continueSignup\<close>

definition missing_codes :: "pending_signup \<Rightarrow> string obj \<Rightarrow> string list" where
  "missing_codes pending verification =
     filter (\<lambda>i. \<not> truthy (map_of verification i)) (ps_verificationRequired pending)"

definition missing_codes_error :: "string list \<Rightarrow> js_error" where
  "missing_codes_error missing = PasskeyError ''missing_verification_code''
     (''Missing OTP code for: '' @ join '', '' missing @
      ''. Pass a code for each identifier in verificationRequired.'')"

definition pending_params :: "pending_signup \<Rightarrow> params" where
  "pending_params pending = [(''realm'', str_param (ps_realm pending)), (''organization'', str_param (ps_organization pending))]"

definition pending_credential ::
  "'s passkey_ops \<Rightarrow> pending_signup \<Rightarrow> ('s passkey_state, js_error, json) act" where
  "pending_credential ops pending = (case ps_credential pending of
     Some serialized \<Rightarrow> ret serialized
   | None \<Rightarrow>
       andThen (catching (host (px_create ops (ps_publicKey pending)))
           (\<lambda>e. andNext (set_pending (Some pending)) (throw e))) (\<lambda>credential.
         case credential of
           None \<Rightarrow> andNext (set_pending (Some pending)) (throw creation_cancelled)
         | Some c \<Rightarrow> ret (serializeCreationCredential c)))"

definition retry_pending :: "'s passkey_ops \<Rightarrow> pending_signup \<Rightarrow> json \<Rightarrow> js_error \<Rightarrow> pending_signup option" where
  "retry_pending ops pending serialized e = (case e of
     PasskeyGetToken _ _ authSession verificationRequired \<Rightarrow>
       if px_isRetryable ops e then
         Some (pending\<lparr>ps_authSession := tmpl authSession,
           ps_verificationRequired := (case verificationRequired of None \<Rightarrow> [] | Some vs \<Rightarrow> vs),
           ps_credential := Some serialized\<rparr>)
       else None
   | _ \<Rightarrow> None)"

definition continueSignup ::
  "'s passkey_ops \<Rightarrow> string obj \<Rightarrow> ('s passkey_state, js_error, json obj) act" where
  "continueSignup ops verification s = (case snd s of
     None \<Rightarrow> (Inl (PasskeyError ''no_pending_signup''
        ''No pending signup found. Call signup() first and catch PasskeyVerificationRequiredError.''), s)
   | Some pending \<Rightarrow>
       if missing_codes pending verification \<noteq> []
       then (Inl (missing_codes_error (missing_codes pending verification)), s)
       else
         andNext (set_pending None)
         (andThen (pending_credential ops pending) (\<lambda>serialized.
            catching (host (px_requestToken ops (grant_of (ps_authSession pending) serialized (pending_params pending)
                (ps_scope pending) (ps_audience pending) (Some (map (\<lambda>(k, v). (k, JStr v)) verification)))))
              (\<lambda>e. andNext (case retry_pending ops pending serialized e of
                       None \<Rightarrow> ret () | Some p \<Rightarrow> set_pending (Some p)) (throw e)))) s)"

section \<open>The signup that is pending\<close>

lemma pending_credential_cases:
  assumes "pending_credential ops p (u, None) = (r, (t, q))"
  shows "case r of
      Inr c \<Rightarrow> q = None \<and> (\<forall>d. ps_credential p = Some d \<longrightarrow> c = d)
    | Inl e \<Rightarrow> q = Some p \<and> ps_credential p = None"
  using assms
  by (auto simp: pending_credential_def host_def zoom_def set_pending_def act_simps
      split: option.splits prod.splits sum.splits)

text \<open>The operations with a counter of the credentials the authenticator has made.\<close>

definition counted_passkeys :: "'s passkey_ops \<Rightarrow> ('s \<times> nat) passkey_ops" where
  "counted_passkeys ops =
     \<lparr>px_supported = px_supported ops,
      px_register = (\<lambda>ps. zoom fst (\<lambda>t s. (t, snd s)) (px_register ops ps)),
      px_challenge = (\<lambda>ps. zoom fst (\<lambda>t s. (t, snd s)) (px_challenge ops ps)),
      px_create = (\<lambda>pk (s, n). case px_create ops pk s of
         (r, t) \<Rightarrow> (r, (t, case r of Inr (Some _) \<Rightarrow> Suc n | _ \<Rightarrow> n))),
      px_get = (\<lambda>pk. zoom fst (\<lambda>t s. (t, snd s)) (px_get ops pk)),
      px_isRetryable = px_isRetryable ops,
      px_requestToken = (\<lambda>g. zoom fst (\<lambda>t s. (t, snd s)) (px_requestToken ops g))\<rparr>"

text \<open>The attempts of the application to continue a signup, with the codes it passes.\<close>

fun signup_run :: "'s passkey_ops \<Rightarrow> string obj list \<Rightarrow> 's passkey_state \<Rightarrow> 's passkey_state" where
  "signup_run ops [] s = s"
| "signup_run ops (v # vs) s = signup_run ops vs (snd (continueSignup ops v s))"

text \<open>An error after which the code may be entered again.\<close>

definition wrong_code :: "'s passkey_ops \<Rightarrow> js_error \<Rightarrow> bool" where
  "wrong_code ops e = (case e of PasskeyGetToken _ _ _ _ \<Rightarrow> px_isRetryable ops e | _ \<Rightarrow> False)"

lemma retry_pending_credential:
  "case retry_pending ops p c e of
     None \<Rightarrow> \<not> wrong_code ops e | Some p' \<Rightarrow> wrong_code ops e \<and> ps_credential p' = Some c"
  by (auto simp: retry_pending_def wrong_code_def split: js_error.splits)

text \<open>The credential that is passed on: the one at hand, or the one that is made.\<close>

lemma pending_credential_counted:
  assumes "pending_credential (counted_passkeys ops) p ((u, n), None) = (r, ((t, m), q))"
  shows "case r of
      Inr c \<Rightarrow> q = None \<and> (case ps_credential p of None \<Rightarrow> m = Suc n | Some d \<Rightarrow> m = n \<and> c = d)
    | Inl e \<Rightarrow> q = Some p \<and> ps_credential p = None \<and> m = n"
  using assms
  by (auto simp: pending_credential_def counted_passkeys_def host_def zoom_def set_pending_def act_simps
      split: option.splits prod.splits sum.splits)

lemma continueSignup_counted:
  assumes run: "continueSignup (counted_passkeys ops) v ((u, n), Some p) = (r, ((t, m), q))"
  shows "if missing_codes p v \<noteq> [] then ((t, m), q) = ((u, n), Some p) \<and> r = Inl (missing_codes_error (missing_codes p v))
    else if ps_credential p = None \<and> m = n then isl r \<and> q = Some p
    else m = (if ps_credential p = None then Suc n else n) \<and>
      (case r of
         Inr _ \<Rightarrow> q = None
       | Inl e \<Rightarrow> (case q of
            None \<Rightarrow> \<not> wrong_code ops e
          | Some p' \<Rightarrow> wrong_code ops e \<and> ps_credential p' \<noteq> None \<and>
              (ps_credential p \<noteq> None \<longrightarrow> ps_credential p' = ps_credential p)))"
proof (cases "missing_codes p v = []")
  case False
  with run show ?thesis by (auto simp: continueSignup_def)
next
  case codes: True
  let ?ops = "counted_passkeys ops"
  have same: "wrong_code ?ops = wrong_code ops"
    by (auto simp: fun_eq_iff wrong_code_def counted_passkeys_def split: js_error.split)
  obtain r1 t1 m1 q1 where cred: "pending_credential ?ops p ((u, n), None) = (r1, ((t1, m1), q1))" by (metis prod.exhaust)
  note C = pending_credential_counted [OF cred]
  show ?thesis
  proof (cases r1)
    case (Inl e)
    with run codes cred C show ?thesis
      by (auto simp: continueSignup_def set_pending_def act_simps)
  next
    case (Inr c)
    let ?g = "grant_of (ps_authSession p) c (pending_params p) (ps_scope p) (ps_audience p)
        (Some (map (\<lambda>(k, v). (k, JStr v)) v))"
    obtain r2 t2 where token: "px_requestToken ops ?g t1 = (r2, t2)" by force
    then have token': "px_requestToken ?ops ?g (t1, m1) = (r2, (t2, m1))"
      by (simp add: counted_passkeys_def zoom_def)
    have done1: "m = m1 \<and> r = r2 \<and> q = (case r2 of Inr _ \<Rightarrow> None | Inl e \<Rightarrow> retry_pending ?ops p c e)"
      using run codes cred C Inr token'
      by (cases r2) (auto simp: continueSignup_def set_pending_def host_def zoom_def act_simps split: option.splits)
    show ?thesis
    proof (cases r2)
      case (Inl e)
      with done1 codes C Inr retry_pending_credential [where ops = ?ops and p = p and c = c and e = e] show ?thesis
        by (auto simp: same split: option.splits)
    qed (use done1 codes C Inr in \<open>auto split: option.splits\<close>)
  qed
qed

text \<open>Over a whole signup at most one credential is made.\<close>

lemma signup_run_counted:
  "signup_run (counted_passkeys ops) vs ((u, n), q) = ((t, m), q') \<Longrightarrow>
     m + (case q' of Some p \<Rightarrow> if ps_credential p = None then 1 else 0 | None \<Rightarrow> 0)
       \<le> n + (case q of Some p \<Rightarrow> if ps_credential p = None then 1 else 0 | None \<Rightarrow> 0)"
proof (induction vs arbitrary: u n q)
  case (Cons v vs)
  obtain r t1 m1 q1 where step: "continueSignup (counted_passkeys ops) v ((u, n), q) = (r, ((t1, m1), q1))" by (metis prod.exhaust)
  have "m1 + (case q1 of Some p \<Rightarrow> if ps_credential p = None then 1 else 0 | None \<Rightarrow> 0)
      \<le> n + (case q of Some p \<Rightarrow> if ps_credential p = None then 1 else 0 | None \<Rightarrow> 0)"
  proof (cases q)
    case None
    with step show ?thesis by (simp add: continueSignup_def)
  next
    case (Some p)
    from continueSignup_counted [OF step [unfolded Some]] Some show ?thesis
      by (auto split: if_splits sum.splits option.splits)
  qed
  moreover from Cons.prems step have "signup_run (counted_passkeys ops) vs ((t1, m1), q1) = ((t, m), q')" by simp
  ultimately show ?case using Cons.IH order_trans by blast
qed simp

section \<open>Properties\<close>

text \<open>
  the URL-safe text of a buffer decodes to the buffer, so the challenge and the user id the
  authenticator signs are the bytes the server sent.
\<close>

theorem passkey_buffer_roundtrip:
  assumes "\<forall>b \<in> set bs. b < 256" and "\<forall>b \<in> set cs. b < 256"
  shows "prepareCreationOptions (JObj [(''challenge'', JStr (bufferToBase64url bs)),
      (''user'', JObj [(''id'', JStr (bufferToBase64url cs))])]) =
    Inr \<lparr>pk_challenge = bs, pk_userId = Some cs, pk_kept = JObj [(''challenge'', JStr (bufferToBase64url bs)),
      (''user'', JObj [(''id'', JStr (bufferToBase64url cs))])]\<rparr>"
  by (simp add: prepareCreationOptions_def prepareRequestOptions_def json_get_def buffer_roundtrip [OF assms(1)]
      buffer_roundtrip [OF assms(2)])

theorem passkey_buffer_roundtrip_witness:
  "prepareCreationOptions (JObj [(''challenge'', JStr (bufferToBase64url [251, 0])),
      (''user'', JObj [(''id'', JStr (bufferToBase64url [7]))])]) =
    Inr \<lparr>pk_challenge = [251, 0], pk_userId = Some [7], pk_kept = JObj [(''challenge'', JStr (bufferToBase64url [251, 0])),
      (''user'', JObj [(''id'', JStr (bufferToBase64url [7]))])]\<rparr>"
  by (rule passkey_buffer_roundtrip) simp_all


text \<open>Code \<open>1\<close> is wrong, any other is right.\<close>

definition sample_pending :: pending_signup where
  "sample_pending = \<lparr>ps_authSession = ''session'', ps_publicKey = \<lparr>pk_challenge = [1], pk_userId = None, pk_kept = JObj []\<rparr>,
     ps_verificationRequired = [''email''], ps_credential = None, ps_realm = None, ps_organization = None,
     ps_scope = None, ps_audience = None\<rparr>"

definition offline_signup :: js_error where
  "offline_signup = PasskeyError ''passkey_error'' ''offline''"

definition sample_passkeys :: "nat passkey_ops" where
  "sample_passkeys = \<lparr>px_supported = True, px_register = (\<lambda>_. throw offline_signup), px_challenge = (\<lambda>_. throw offline_signup),
     px_create = (\<lambda>_ n. (Inr (Some \<lparr>cr_id = ''c'', cr_rawId = [1], cr_type = ''public-key'', cr_attachment = None,
        cr_response = Attestation [1] [2], cr_extensions = JObj []\<rparr>), Suc n)),
     px_get = (\<lambda>_. throw offline_signup), px_isRetryable = (\<lambda>_. True),
     px_requestToken = (\<lambda>g. if pg_verification g = Some [(''email'', JStr ''1'')]
        then throw (PasskeyGetToken ''invalid_code'' ''wrong'' (Some ''session'') (Some [''email'']))
        else ret [(''access_token'', JStr ''at'')])\<rparr>"


end
