(* ===== verification/MyAccountTypes.thy ===== *)
theory MyAccountTypes
  imports MyAccount
begin

text \<open>
  The requests of \<open>src/myaccount/types.ts\<close>: the interfaces as records and datatypes, the object a
  value of each is, and what of it the client of \<open>MyAccount\<close> sends.
\<close>

section \<open>Kinds of authentication methods\<close>

datatype AuthenticationMethodType =
  TPasskey | TPassword | TPhone | TTotp | TEmail | TPushNotification | TRecoveryCode
| TWebauthnPlatform | TWebauthnRoaming

fun method_name :: "AuthenticationMethodType \<Rightarrow> string" where
  "method_name TPasskey = ''passkey''"
| "method_name TPassword = ''password''"
| "method_name TPhone = ''phone''"
| "method_name TTotp = ''totp''"
| "method_name TEmail = ''email''"
| "method_name TPushNotification = ''push-notification''"
| "method_name TRecoveryCode = ''recovery-code''"
| "method_name TWebauthnPlatform = ''webauthn-platform''"
| "method_name TWebauthnRoaming = ''webauthn-roaming''"

instantiation AuthenticationMethodType :: enum
begin

definition enum_AuthenticationMethodType :: "AuthenticationMethodType list" where
  "enum_AuthenticationMethodType =
     [TPasskey, TPassword, TPhone, TTotp, TEmail, TPushNotification, TRecoveryCode, TWebauthnPlatform, TWebauthnRoaming]"

definition enum_all_AuthenticationMethodType :: "(AuthenticationMethodType \<Rightarrow> bool) \<Rightarrow> bool" where
  "enum_all_AuthenticationMethodType P = list_all P enum_class.enum"

definition enum_ex_AuthenticationMethodType :: "(AuthenticationMethodType \<Rightarrow> bool) \<Rightarrow> bool" where
  "enum_ex_AuthenticationMethodType P = list_ex P enum_class.enum"

instance
proof
  show univ: "(UNIV :: AuthenticationMethodType set) = set enum_class.enum"
  proof -
    have "x \<in> set enum_class.enum" for x :: AuthenticationMethodType
      by (cases x) (simp_all add: enum_AuthenticationMethodType_def)
    then show ?thesis by blast
  qed
  show "distinct (enum_class.enum :: AuthenticationMethodType list)" by (simp add: enum_AuthenticationMethodType_def)
  show "enum_class.enum_all P \<longleftrightarrow> Ball UNIV P" for P :: "AuthenticationMethodType \<Rightarrow> bool"
    unfolding univ enum_all_AuthenticationMethodType_def list_all_iff by simp
  show "enum_class.enum_ex P \<longleftrightarrow> Bex UNIV P" for P :: "AuthenticationMethodType \<Rightarrow> bool"
    unfolding univ enum_ex_AuthenticationMethodType_def list_ex_iff by simp
qed

end

lemma method_name_inject: "method_name a = method_name b \<longleftrightarrow> a = b"
proof -
  have "\<forall>a b. method_name a = method_name b \<longrightarrow> a = b" by code_simp
  then show ?thesis by blast
qed

datatype phone_channel = Sms | Voice

fun channel_name :: "phone_channel \<Rightarrow> string" where
  "channel_name Sms = ''sms''"
| "channel_name Voice = ''voice''"

lemma channel_name_inject [simp]: "channel_name a = channel_name b \<longleftrightarrow> a = b"
  by (cases a; cases b) simp_all

section \<open>Connected accounts\<close>

definition opt_field :: "string \<Rightarrow> string option \<Rightarrow> params" where
  "opt_field k v = [(k, map_option JStr v)]"

record ConnectRequest =
  cr_connection :: string
  cr_scopes :: "string list option"
  cr_redirect_uri :: string
  cr_state :: "string option"
  cr_code_challenge :: "string option"
  cr_code_challenge_method :: "string option"
  cr_authorization_params :: "json obj option"

definition connect_object :: "ConnectRequest \<Rightarrow> params" where
  "connect_object r =
     [(''connection'', Some (JStr (cr_connection r))),
      (''scopes'', map_option (\<lambda>ss. JArr (map JStr ss)) (cr_scopes r)),
      (''redirect_uri'', Some (JStr (cr_redirect_uri r)))] @
     opt_field ''state'' (cr_state r) @
     opt_field ''code_challenge'' (cr_code_challenge r) @
     opt_field ''code_challenge_method'' (cr_code_challenge_method r) @
     [(''authorization_params'', map_option JObj (cr_authorization_params r))]"

record CompleteRequest =
  cp_auth_session :: string
  cp_connect_code :: string
  cp_redirect_uri :: string
  cp_code_verifier :: "string option"

definition complete_object :: "CompleteRequest \<Rightarrow> params" where
  "complete_object r =
     [(''auth_session'', Some (JStr (cp_auth_session r))), (''connect_code'', Some (JStr (cp_connect_code r))),
      (''redirect_uri'', Some (JStr (cp_redirect_uri r)))] @ opt_field ''code_verifier'' (cp_code_verifier r)"

section \<open>Enrollment\<close>

datatype EnrollmentChallengeOptions =
  ChallengePasskey "string option" "string option"
| ChallengePhone string "phone_channel option"
| ChallengeEmail string
| ChallengeTotp
| ChallengePushNotification
| ChallengeRecoveryCode
| ChallengePassword "string option" "string option"

fun challenge_type :: "EnrollmentChallengeOptions \<Rightarrow> AuthenticationMethodType" where
  "challenge_type (ChallengePasskey _ _) = TPasskey"
| "challenge_type (ChallengePhone _ _) = TPhone"
| "challenge_type (ChallengeEmail _) = TEmail"
| "challenge_type ChallengeTotp = TTotp"
| "challenge_type ChallengePushNotification = TPushNotification"
| "challenge_type ChallengeRecoveryCode = TRecoveryCode"
| "challenge_type (ChallengePassword _ _) = TPassword"

fun challenge_fields :: "EnrollmentChallengeOptions \<Rightarrow> params" where
  "challenge_fields (ChallengePasskey connection user) = opt_field ''connection'' connection @ opt_field ''identity_user_id'' user"
| "challenge_fields (ChallengePhone number channel) = (''phone_number'', Some (JStr number)) #
     opt_field ''preferred_authentication_method'' (map_option channel_name channel)"
| "challenge_fields (ChallengeEmail email) = [(''email'', Some (JStr email))]"
| "challenge_fields (ChallengePassword connection user) = opt_field ''connection'' connection @ opt_field ''identity_user_id'' user"
| "challenge_fields _ = []"

definition challenge_object :: "EnrollmentChallengeOptions \<Rightarrow> params" where
  "challenge_object options = (''type'', Some (JStr (method_name (challenge_type options)))) # challenge_fields options"

datatype EnrollmentVerifyOptions =
  VerifyPasskey json
| VerifyPhone string
| VerifyEmail string
| VerifyTotp string
| VerifyPushNotification
| VerifyRecoveryCode
| VerifyPassword string

record enrollment =
  en_location :: string
  en_auth_session :: string

fun verify_type :: "EnrollmentVerifyOptions \<Rightarrow> AuthenticationMethodType" where
  "verify_type (VerifyPasskey _) = TPasskey"
| "verify_type (VerifyPhone _) = TPhone"
| "verify_type (VerifyEmail _) = TEmail"
| "verify_type (VerifyTotp _) = TTotp"
| "verify_type VerifyPushNotification = TPushNotification"
| "verify_type VerifyRecoveryCode = TRecoveryCode"
| "verify_type (VerifyPassword _) = TPassword"

fun verify_fields :: "EnrollmentVerifyOptions \<Rightarrow> json obj" where
  "verify_fields (VerifyPasskey authn_response) = [(''authn_response'', authn_response)]"
| "verify_fields (VerifyPhone otp_code) = [(''otp_code'', JStr otp_code)]"
| "verify_fields (VerifyEmail otp_code) = [(''otp_code'', JStr otp_code)]"
| "verify_fields (VerifyTotp otp_code) = [(''otp_code'', JStr otp_code)]"
| "verify_fields (VerifyPassword new_password) = [(''new_password'', JStr new_password)]"
| "verify_fields _ = []"

definition verify_object :: "enrollment \<Rightarrow> EnrollmentVerifyOptions \<Rightarrow> params" where
  "verify_object e options =
     [(''location'', Some (JStr (en_location e))), (''auth_session'', Some (JStr (en_auth_session e))),
      (''type'', Some (JStr (method_name (verify_type options))))] @ map (\<lambda>(k, v). (k, Some v)) (verify_fields options)"

section \<open>Updates and the profile\<close>

record UpdateAuthenticationMethodRequest =
  um_name :: "string option"
  um_preferred_authentication_method :: "phone_channel option"

definition update_method_object :: "UpdateAuthenticationMethodRequest \<Rightarrow> params" where
  "update_method_object r = opt_field ''name'' (um_name r) @
     opt_field ''preferred_authentication_method'' (map_option channel_name (um_preferred_authentication_method r))"

record UpdateUserProfileRequest =
  up_given_name :: "string option"
  up_family_name :: "string option"
  up_name :: "string option"
  up_nickname :: "string option"
  up_picture :: "string option"

definition update_profile_object :: "UpdateUserProfileRequest \<Rightarrow> params" where
  "update_profile_object r = opt_field ''given_name'' (up_given_name r) @ opt_field ''family_name'' (up_family_name r) @
     opt_field ''name'' (up_name r) @ opt_field ''nickname'' (up_nickname r) @ opt_field ''picture'' (up_picture r)"

section \<open>What is sent\<close>

lemma strip_opt_field: "stripUndefined (opt_field k v) = (case v of None \<Rightarrow> [] | Some s \<Rightarrow> [(k, JStr s)])"
  by (cases v) (simp_all add: opt_field_def stripUndefined_def)

lemma strip_append: "stripUndefined (a @ b) = stripUndefined a @ stripUndefined b"
  by (simp add: stripUndefined_def)

lemma strip_given: "stripUndefined ((k, Some v) # ps) = (k, v) # stripUndefined ps" "stripUndefined [] = []"
  by (simp_all add: stripUndefined_def)

lemmas strip_simps = strip_opt_field strip_append strip_given

text \<open>A challenge is determined by the body that is sent for it, whatever was left out.\<close>

lemma challenge_body_inject:
  "stripUndefined (challenge_object a) = stripUndefined (challenge_object b) \<longleftrightarrow> a = b"
proof
  assume eq: "stripUndefined (challenge_object a) = stripUndefined (challenge_object b)"
  then have ty: "challenge_type a = challenge_type b"
    and f: "stripUndefined (challenge_fields a) = stripUndefined (challenge_fields b)"
    by (simp_all add: challenge_object_def strip_simps method_name_inject)
  from ty f show "a = b"
    by (cases a; cases b) (auto simp: strip_simps split: option.splits)
qed simp

text \<open>
  The body of a verification is the session and the proof of its type; neither the type nor the
  location is part of it, so the proofs by a code are told apart by the location alone.
\<close>

lemma enrollmentVerify_sends:
  "enrollmentVerify fetch (verify_object e options) =
     ma_call fetch (en_location e @ ''/verify'')
       (json_init ''POST'' (JObj ((''auth_session'', JStr (en_auth_session e)) # verify_fields options)))
       ''create:me:authentication_methods''"
proof -
  have "stripUndefined (map (\<lambda>(k, v). (k, Some v)) fs) = fs" for fs :: "json obj"
    by (induction fs) (auto simp: stripUndefined_def)
  moreover have "AList.delete ''type'' (AList.delete ''location'' (map (\<lambda>(k, v). (k, Some v)) (verify_fields options))) =
      map (\<lambda>(k, v). (k, Some v)) (verify_fields options)"
    by (cases options) simp_all
  ultimately show ?thesis
    by (simp add: enrollmentVerify_def verify_object_def strip_simps Let_def tmpl_def json_str_def)
qed

lemma enrollmentVerify_by_code:
  "enrollmentVerify fetch (verify_object e (VerifyPhone code)) = enrollmentVerify fetch (verify_object e (VerifyEmail code))"
  by (simp add: enrollmentVerify_sends)

text \<open>An update names exactly the fields that were given, with their values.\<close>

lemma update_profile_sends:
  "map_of (stripUndefined (update_profile_object r)) k = map_option JStr (Option.bind (map_of
     [(''given_name'', up_given_name r), (''family_name'', up_family_name r), (''name'', up_name r),
      (''nickname'', up_nickname r), (''picture'', up_picture r)] k) (\<lambda>v. v))"
  by (auto simp: update_profile_object_def strip_simps split: option.splits)

end
