(* ===== verification/DomainDiscovery.thy ===== *)
theory DomainDiscovery
  imports Http
begin

text \<open>
  \<open>src/domain-discovery.ts\<close>: the question whether an email domain is managed by the tenant. The
  question itself is asked by the package \<open>@auth0/auth0-auth-js\<close>, an operation on the caller's
  state here; the SDK puts the two domains into their canonical form and adds its telemetry.
\<close>

type_synonym 's domain_lookup = "string \<Rightarrow> string \<Rightarrow> json obj \<Rightarrow> ('s, js_error, bool) act"

text \<open>\<open>replace(/^https?:\/\//i, '')\<close>\<close>

definition drop_scheme :: "string \<Rightarrow> string" where
  "drop_scheme s =
     (if to_lower (take 8 s) = ''https://'' then drop 8 s
      else if to_lower (take 7 s) = ''http://'' then drop 7 s
      else s)"

text \<open>\<open>telemetry: options?.telemetry ?? DEFAULT_AUTH0_CLIENT\<close> after the spread of the options.\<close>

definition discovery_options :: "json obj \<Rightarrow> json obj" where
  "discovery_options options = obj_spread options [(''telemetry'',
     (case map_of options ''telemetry'' of
        None \<Rightarrow> JObj DEFAULT_AUTH0_CLIENT | Some JNull \<Rightarrow> JObj DEFAULT_AUTH0_CLIENT | Some t \<Rightarrow> t))]"

definition isFederatedDomain :: "'s domain_lookup \<Rightarrow> string \<Rightarrow> string \<Rightarrow> json obj \<Rightarrow> ('s, js_error, bool) act" where
  "isFederatedDomain lookup auth0Domain emailDomain options =
     lookup (to_lower (drop_scheme auth0Domain)) (to_lower emailDomain) (discovery_options options)"

section \<open>Canonical domains\<close>

lemma to_lower_char_idem [simp]: "to_lower_char (to_lower_char c) = to_lower_char c"
proof -
  define n :: nat where "n = of_char c"
  then have c: "c = char_of n" by simp
  show ?thesis unfolding c to_lower_char_def Let_def by auto
qed

lemma to_lower_idem [simp]: "to_lower (to_lower s) = to_lower s"
  by (simp add: to_lower_def)

lemma take_to_lower: "take n (to_lower s) = to_lower (take n s)" "drop n (to_lower s) = to_lower (drop n s)"
  by (simp_all add: to_lower_def take_map drop_map)

lemma drop_scheme_lower: "to_lower (drop_scheme s) = drop_scheme (to_lower s)"
  by (simp add: drop_scheme_def take_to_lower)

text \<open>
  How the tenant's domain is written makes no difference: with either scheme or without one, in
  any case, the same question is asked, as long as the host itself does not start with a scheme.
\<close>

lemma isFederatedDomain_canonical:
  assumes "drop_scheme host = host"
    and "auth0Domain \<in> {host, ''https://'' @ host, ''http://'' @ host, ''HTTPS://'' @ host}"
    and "to_lower emailDomain = to_lower emailDomain'"
  shows "isFederatedDomain lookup auth0Domain emailDomain options = isFederatedDomain lookup host emailDomain' options"
proof -
  have lower: "to_lower ''HTTPS://'' = ''https://''" "to_lower ''https://'' = ''https://''" "to_lower ''http://'' = ''http://''"
    by code_simp+
  have "drop_scheme (''https://'' @ host) = host" "drop_scheme (''http://'' @ host) = host"
    "drop_scheme (''HTTPS://'' @ host) = host"
    using lower by (auto simp: drop_scheme_def to_lower_def)
  with assms show ?thesis by (auto simp: isFederatedDomain_def)
qed

lemma discovery_telemetry:
  "map_of (discovery_options options) ''telemetry'' \<notin> {None, Some JNull} \<and>
   (k \<noteq> ''telemetry'' \<longrightarrow> map_of (discovery_options options) k = map_of options k)"
  by (auto simp: discovery_options_def map_of_obj_spread split: option.splits json.splits)

end
