(* ===== verification/TokenExchange.thy ===== *)
theory TokenExchange
  imports ClientExchange
begin

text \<open>
  \<open>src/TokenExchange.ts\<close>: the options of a custom token exchange, with whatever parameters the
  application adds, and what becomes of them in the request.
\<close>

section \<open>CustomTokenExchangeOptions\<close>

record token_exchange_options =
  tx_subject_token_type :: string
  tx_subject_token :: string
  tx_audience :: "string option"
  tx_scope :: "string option"
  tx_organization :: "string option"
  tx_actor_token :: "string option"
  tx_actor_token_type :: "string option"
  tx_parameters :: params

text \<open>The object; a further parameter cannot have the name of a declared one.\<close>

definition EXCHANGE_FIELDS :: "string list" where
  "EXCHANGE_FIELDS = [''subject_token_type'', ''subject_token'', ''audience'', ''scope'', ''organization'', ''actor_token'',
     ''actor_token_type'']"

definition exchange_params :: "token_exchange_options \<Rightarrow> params" where
  "exchange_params t =
     filter (\<lambda>(k, v). v \<noteq> None)
       [(''subject_token_type'', Some (JStr (tx_subject_token_type t))), (''subject_token'', Some (JStr (tx_subject_token t))),
        (''audience'', str_param (tx_audience t)), (''scope'', str_param (tx_scope t)),
        (''organization'', str_param (tx_organization t)), (''actor_token'', str_param (tx_actor_token t)),
        (''actor_token_type'', str_param (tx_actor_token_type t))] @
     filter (\<lambda>(k, v). k \<notin> set EXCHANGE_FIELDS) (tx_parameters t)"

lemma map_of_filter_fst: "map_of (filter (\<lambda>(k, v). P k) m) k = (if P k then map_of m k else None)"
  by (induction m) auto

lemma exchange_fields:
  "opt_str (exchange_params t) ''subject_token_type'' = Some (tx_subject_token_type t)"
  "opt_str (exchange_params t) ''subject_token'' = Some (tx_subject_token t)"
  "opt_str (exchange_params t) ''audience'' = tx_audience t"
  "opt_str (exchange_params t) ''scope'' = tx_scope t"
  "opt_str (exchange_params t) ''organization'' = tx_organization t"
  "opt_str (exchange_params t) ''actor_token'' = tx_actor_token t"
  "opt_str (exchange_params t) ''actor_token_type'' = tx_actor_token_type t"
  by (simp_all add: opt_str_def exchange_params_def map_of_append map_add_def map_of_filter_fst EXCHANGE_FIELDS_def str_param_def
      json_str_def split: option.split)

lemma rest_lookup: "map_of (rest_options ps) k = (if k \<in> set SETTINGS then None else map_of ps k)"
  by (simp add: rest_options_def map_of_filter_fst)

lemma exchange_lookup:
  "map_of (buildTokenExchangeParams cfg ps) ''grant_type'' = Some (Some (JStr TOKEN_EXCHANGE_GRANT))"
  "map_of (buildTokenExchangeParams cfg ps) ''subject_token'' = Some (str_param (opt_str ps ''subject_token''))"
  "map_of (buildTokenExchangeParams cfg ps) ''subject_token_type'' = Some (str_param (opt_str ps ''subject_token_type''))"
  "map_of (buildTokenExchangeParams cfg ps) ''audience'' = Some (str_param (or_param cfg (opt_str ps ''audience'') ''audience''))"
  "map_of (buildTokenExchangeParams cfg ps) ''organization'' = Some (str_param (or_param cfg (opt_str ps ''organization'') ''organization''))"
  "map_of (buildTokenExchangeParams cfg ps) ''scope'' = Some (Some (JStr (scopesToRequest (cc_scope cfg) (opt_str ps ''scope'')
     (or_param cfg (opt_str ps ''audience'') ''audience''))))"
  by (simp_all add: buildTokenExchangeParams_def map_of_obj_spread given_def map_add_def Let_def)

section \<open>Properties\<close>

text \<open>
  C27: No parameter an application adds to a custom token exchange changes where the request goes, for
  which client it is made or what it exchanges: the tenant, the client id, the grant, the
  subject token and its type, the audience and the scope are those of the client and of the
  declared options.
\<close>

theorem exchange_request_fixed:
  "let o1 = exchange_options cfg (buildTokenExchangeParams cfg (exchange_params t));
       audience = or_param cfg (tx_audience t) ''audience'';
       scope = scopesToRequest (cc_scope cfg) (tx_scope t) audience
   in te_baseUrl o1 = cc_domainUrl cfg \<and>
      opt_str (token_params o1) ''client_id'' = Some (cc_clientId cfg) \<and>
      opt_str (token_params o1) ''grant_type'' = Some TOKEN_EXCHANGE_GRANT \<and>
      opt_str (token_params o1) ''subject_token'' = Some (tx_subject_token t) \<and>
      opt_str (token_params o1) ''subject_token_type'' = Some (tx_subject_token_type t) \<and>
      opt_str (token_params o1) ''organization'' = or_param cfg (tx_organization t) ''organization'' \<and>
      opt_str (token_params o1) ''audience'' = (if truthy audience then audience else None) \<and>
      opt_str (token_params o1) ''scope'' = (if scope \<noteq> [] then Some scope else None)"
proof -
  let ?ps = "buildTokenExchangeParams cfg (exchange_params t)"
  let ?o = "exchange_options cfg ?ps"
  have sent: "map_of (te_options ?o) k = (if k = ''client_id'' then Some (Some (JStr (cc_clientId cfg)))
      else if k \<in> set SETTINGS then None else map_of ?ps k)" for k
    by (simp add: exchange_options_def update_conv' rest_lookup)
  have "opt_str (te_options ?o) ''grant_type'' = Some ''urn:ietf:params:oauth:grant-type:token-exchange''"
    by (simp add: opt_str_def sent SETTINGS_def exchange_lookup TOKEN_EXCHANGE_GRANT_def json_str_def)
  then have params: "map_of (token_params ?o) k =
      (if k = ''scope'' \<and> truthy (te_scope ?o) then Some (map_option JStr (te_scope ?o))
       else if k = ''audience'' \<and> truthy (te_audience ?o) then Some (map_option JStr (te_audience ?o))
       else map_of (te_options ?o) k)" for k
    by (simp add: token_params_def map_of_obj_spread)
  have str: "json_str (str_param v) = v" for v by (simp add: str_param_def)
  have "json_str (Some (JStr x)) = Some x" for x by (simp add: json_str_def)
  then have opts: "te_audience ?o = or_param cfg (tx_audience t) ''audience''"
    "te_scope ?o = Some (scopesToRequest (cc_scope cfg) (tx_scope t) (or_param cfg (tx_audience t) ''audience''))"
    by (simp_all add: exchange_options_def opt_str_def [of ?ps] exchange_lookup exchange_fields str)
  show ?thesis
    unfolding Let_def opt_str_def [of "token_params ?o"] params sent
    by (simp add: opts SETTINGS_def exchange_lookup exchange_fields str TOKEN_EXCHANGE_GRANT_def)
       (simp add: exchange_options_def json_str_def)
qed

text \<open>
  \<open>loginWithCustomTokenExchange\<close> has no such protection: there the settings come first, and a
  parameter named \<open>baseUrl\<close> sends the subject token to another origin.
\<close>

lemma exchange_login_redirected:
  assumes "tx_parameters t = [(''baseUrl'', Some (JStr u))]"
  shows "te_baseUrl (endpoint_options cfg (buildTokenExchangeParams cfg (exchange_params t)) scope useMrrt preserve) = u"
proof -
  have "map_of (exchange_params t) ''baseUrl'' = Some (Some (JStr u))"
    using assms by (simp add: exchange_params_def map_add_def map_of_filter_fst EXCHANGE_FIELDS_def str_param_def split: option.split)
  then have "map_of (buildTokenExchangeParams cfg (exchange_params t)) ''baseUrl'' = Some (Some (JStr u))"
    by (simp add: buildTokenExchangeParams_def map_of_obj_spread given_def map_add_def Let_def)
  then show ?thesis by (simp add: endpoint_options_def js_to_string.simps tmpl_def)
qed

end
