(* ===== verification/OfflinePage.thy ===== *)
theory OfflinePage
  imports ClientExchange
begin

text \<open>
  A page without network, for the witnesses: every request fails, the clock stands, the generator
  of random bytes repeats itself, windows answer nothing but their timeout, and locks are kept
  in the same association list as the cookies.
\<close>

definition jar_locks :: "string obj lock_lib" where
  "jar_locks = \<lparr>lib_acquire = (\<lambda>key _ w. if key \<in> fst ` set w then (False, w) else (True, (key, []) # w)),
     lib_release = AList.delete\<rparr>"

lemma jar_keys: "fst ` set (AList.delete key w) = fst ` set w - {key}"
  by (auto simp: AList.delete_eq image_iff)

lemma jar_locks_exclusive: "exclusive_lock jar_locks (\<lambda>w. fst ` set w)"
  by unfold_locales (auto simp: jar_locks_def jar_keys split: if_splits)

definition no_dpop :: "(unit, string obj) dpop_lib" where
  "no_dpop = \<lparr>dl_generateKeyPair = (\<lambda>w. ((), w)), dl_calculateThumbprint = (\<lambda>_. ''thumbprint''),
     dl_generateProof = (\<lambda>_ _ _ _ _ w. (''proof'', w))\<rparr>"

definition offline_error :: js_error where
  "offline_error = Foreign None ''Failed to fetch''"

definition offline :: "int \<Rightarrow> (unit, string obj) browser" where
  "offline now =
     \<lparr>br_parse_url = (\<lambda>u. Some \<lparr>url_origin = u, url_pathname = []\<rparr>),
      br_network = (\<lambda>_ _ _ w. (NetworkError ''Failed to fetch'', w)),
      br_fetch = (\<lambda>_ w. (Inl offline_error, w)),
      br_url_with_param = (\<lambda>u k v. Some (u @ ''?'' @ k @ ''='' @ v)),
      br_now = (\<lambda>_. now), br_show_date = (\<lambda>_. ''date''),
      br_getRandomValues = (\<lambda>n w. (replicate n 7, w)), br_sha256 = (\<lambda>_. [1, 2, 3]),
      br_dpop = no_dpop, br_strip_url = Some, br_locks = jar_locks,
      br_lock_request = (\<lambda>key _ w. if key \<in> fst ` set w then (Aborted, w) else (Granted True, (key, []) # w)),
      br_lock_release = AList.delete,
      br_open = (\<lambda>w. (True, w)), br_popup = (\<lambda>_ _ w. ([EvTimeout], w)), br_iframe = (\<lambda>_ _ w. ([EvTimeout], w)),
      br_origin = ''https://app.example'', br_crossOriginIsolated = False,
      br_anon_create = (\<lambda>_ w. (Inl offline_error, w)), br_anon_token = (\<lambda>_ _ w. (Inl offline_error, w)),
      br_anon_mint = (\<lambda>_ w. (Inl offline_error, w)), br_anon_logout = (\<lambda>w. (Inl offline_error, w))\<rparr>"

definition page_options :: "'c client_options" where
  "page_options =
     \<lparr>co_domain = ''tenant.example'', co_issuer = None, co_clientId = ''client'', co_leeway = None,
      co_cacheLocation = None, co_cache = None, co_useRefreshTokens = False, co_useRefreshTokensFallback = None,
      co_authorizeTimeoutInSeconds = None, co_httpTimeoutInSeconds = None, co_auth0Client = None,
      co_legacySameSiteCookie = Some False, co_useCookiesForTransactions = False, co_sessionCheckExpiryDays = None,
      co_cookieDomain = None, co_useFormData = None, co_workerUrl = None, co_useMrrt = False, co_useDpop = False,
      co_refreshTokenMode = None, co_interactiveErrorHandler = None, co_authorizationParams = [],
      co_anonymousSessionsCacheMode = None, co_createAnonymousSession = False,
      co_sessionTransferTokenQueryParamName = None, co_enterpriseConnect = False\<rparr>"

definition offline_page :: "string obj page_facts" where
  "offline_page = \<lparr>pf_window = True, pf_crypto = FullCrypto, pf_webLocks = False, pf_https = True,
     pf_workers = False, pf_localStorage = True, pf_cookies = cookie_jar\<rparr>"

definition offline_client :: "unit page_caches client_options \<Rightarrow> (unit page_caches, string obj) client_config" where
  "offline_client options = build_config offline_page LegacyLocks options False
     (on_part pc_memory (\<lambda>c p. p\<lparr>pc_memory := c\<rparr>) InMemoryCache) (Some ''memory'')"

definition fresh_state :: "(unit page_caches, unit, string obj) client_state" where
  "fresh_state =
     \<lparr>st_cache = \<lparr>pc_memory = [], pc_local = [], pc_custom = ()\<rparr>, st_user = None,
      st_web = \<lparr>ws_cookies = [], ws_session = []\<rparr>,
      st_dpop = \<lparr>dp_available = True, dp_nonces = [], dp_keypairs = [], dp_world = []\<rparr>,
      st_worker = worker_init, st_mfa = [], st_anon = \<lparr>an_local = [], an_memory = [], an_slots = []\<rparr>,
      st_active = [], st_listener = False, st_lockWorld = [], st_search = [], st_world = [], st_log = []\<rparr>"

end
