(* ===== verification/SharedCalls.thy ===== *)
theory SharedCalls
  imports OfflinePage Promise
begin

text \<open>
  Calls of \<open>getTokenSilently\<close> that are in flight together: \<open>singlePromise\<close> around
  \<open>_getTokenSilently\<close>. A call joins the promise of its key or starts one; the callback of a promise
  runs with the options of the call that started it, while anything else may happen to the client
  in between; every call of a promise gets what its callback returned.
\<close>

section \<open>The system\<close>

type_synonym silent_answer = "js_error + token_response option"

text \<open>
  \<open>sh_tasks\<close> holds the options each promise was started with, \<open>sh_calls\<close> the calls made with the
  promise each got, and \<open>sh_runs\<close> the callbacks that ran, with their results; the latest is first.
\<close>

record ('c, 'k, 'w) shared =
  sh_client :: "('c, 'k, 'w) client_state"
  sh_promises :: sp_state
  sh_tasks :: "(nat \<times> silent_options) list"
  sh_calls :: "(silent_options \<times> nat) list"
  sh_runs :: "(nat \<times> silent_answer) list"

definition shared_init :: "('c, 'k, 'w) client_state \<Rightarrow> ('c, 'k, 'w) shared" where
  "shared_init s = \<lparr>sh_client = s, sh_promises = sp_init, sh_tasks = [], sh_calls = [], sh_runs = []\<rparr>"

definition shared_call ::
  "('c, 'w) client_config \<Rightarrow> silent_options \<Rightarrow> ('c, 'k, 'w) shared \<Rightarrow> ('c, 'k, 'w) shared" where
  "shared_call cfg options s =
     (let key = silent_promise_key cfg options;
          (p, st) = singlePromise key (sh_promises s)
      in s\<lparr>sh_promises := st, sh_calls := (options, p) # sh_calls s,
           sh_tasks := (if map_of (sp_map (sh_promises s)) key = None then (p, options) # sh_tasks s else sh_tasks s)\<rparr>)"

definition shared_run ::
  "('k, 'w) browser \<Rightarrow> ('c, 'w) client_config \<Rightarrow> nat \<Rightarrow> silent_options \<Rightarrow> ('c, 'k, 'w) shared \<Rightarrow> ('c, 'k, 'w) shared" where
  "shared_run br cfg p options s =
     (case getTokenSilently_inner br cfg options (sh_client s) of
        (r, t) \<Rightarrow> s\<lparr>sh_client := t, sh_runs := (p, r) # sh_runs s,
                   sh_promises := sp_settle p (silent_promise_key cfg options) (sh_promises s)\<rparr>)"

inductive shared_step ::
  "('k, 'w) browser \<Rightarrow> ('c, 'w) client_config \<Rightarrow> ('c, 'k, 'w) shared \<Rightarrow> ('c, 'k, 'w) shared \<Rightarrow> bool" for br cfg where
  share_call: "shared_step br cfg s (shared_call cfg options s)"
| share_run: "map_of (sh_tasks s) p = Some options \<Longrightarrow>
    (p, silent_promise_key cfg options) \<in> set (sp_running (sh_promises s)) \<Longrightarrow>
    shared_step br cfg s (shared_run br cfg p options s)"
| share_finally: "(p, key) \<in> set (sp_open (sh_promises s)) \<Longrightarrow> (p, key) \<notin> set (sp_running (sh_promises s)) \<Longrightarrow>
    shared_step br cfg s (s\<lparr>sh_promises := sp_finally p key (sh_promises s)\<rparr>)"
| share_other: "shared_step br cfg s (s\<lparr>sh_client := t\<rparr>)"

inductive shared_reach ::
  "('k, 'w) browser \<Rightarrow> ('c, 'w) client_config \<Rightarrow> ('c, 'k, 'w) shared \<Rightarrow> bool" for br cfg where
  share_start: "shared_reach br cfg (shared_init s)"
| share_more: "shared_reach br cfg s \<Longrightarrow> shared_step br cfg s t \<Longrightarrow> shared_reach br cfg t"

section \<open>The promises of the system\<close>

lemma shared_step_promises:
  "shared_step br cfg s t \<Longrightarrow> sh_promises t = sh_promises s \<or> sp_step (sh_promises s) (sh_promises t)"
proof (induction rule: shared_step.induct)
  case (share_call s options)
  have "sh_promises (shared_call cfg options s) = snd (singlePromise (silent_promise_key cfg options) (sh_promises s))"
    by (simp add: shared_call_def Let_def split: prod.split)
  then show ?case by (metis sp_call)
next
  case (share_run s p options)
  have "sh_promises (shared_run br cfg p options s) = sp_settle p (silent_promise_key cfg options) (sh_promises s)"
    by (simp add: shared_run_def split: prod.split)
  with share_run show ?case by (metis sp_settles)
qed (auto intro: sp_finalises)

lemma shared_sp_reach: "shared_reach br cfg s \<Longrightarrow> sp_reach (sh_promises s)"
proof (induction rule: shared_reach.induct)
  case (share_start s)
  then show ?case by (simp add: shared_init_def sp_start)
next
  case (share_more s t)
  then show ?case by (metis shared_step_promises sp_more)
qed

section \<open>No call is lost, none runs twice\<close>

text \<open>
  Every promise has one task, which came from a call; the callers of a promise have its key; a
  task runs once, and until then its promise is running.
\<close>

definition tasks_ok :: "('c, 'w) client_config \<Rightarrow> ('c, 'k, 'w) shared \<Rightarrow> bool" where
  "tasks_ok cfg s \<longleftrightarrow>
     (\<forall>p o1. map_of (sh_tasks s) p = Some o1 \<longrightarrow> p < sp_next (sh_promises s) \<and> (o1, p) \<in> set (sh_calls s)) \<and>
     (\<forall>p key. (p, key) \<in> set (sp_open (sh_promises s)) \<longrightarrow>
        (\<exists>o1. map_of (sh_tasks s) p = Some o1 \<and> silent_promise_key cfg o1 = key)) \<and>
     (\<forall>o1 p. (o1, p) \<in> set (sh_calls s) \<longrightarrow>
        (\<exists>o2. map_of (sh_tasks s) p = Some o2 \<and> silent_promise_key cfg o2 = silent_promise_key cfg o1))"

definition runs_ok :: "('k, 'w) browser \<Rightarrow> ('c, 'w) client_config \<Rightarrow> ('c, 'k, 'w) shared \<Rightarrow> bool" where
  "runs_ok br cfg s \<longleftrightarrow>
     distinct (map fst (sh_runs s)) \<and>
     (\<forall>p r. map_of (sh_runs s) p = Some r \<longrightarrow>
        (\<exists>o1 u v. map_of (sh_tasks s) p = Some o1 \<and> getTokenSilently_inner br cfg o1 u = (r, v))) \<and>
     (\<forall>p o1. map_of (sh_tasks s) p = Some o1 \<longrightarrow>
        (map_of (sh_runs s) p = None \<longleftrightarrow> (p, silent_promise_key cfg o1) \<in> set (sp_running (sh_promises s))))"

lemma fresh_task: "tasks_ok cfg s \<Longrightarrow> map_of (sh_tasks s) (sp_next (sh_promises s)) = None"
  by (metis less_irrefl not_None_eq tasks_ok_def)

lemma fresh_run: "tasks_ok cfg s \<Longrightarrow> runs_ok br cfg s \<Longrightarrow> map_of (sh_runs s) (sp_next (sh_promises s)) = None"
  by (metis fresh_task not_None_eq option.distinct(1) runs_ok_def)

lemma shared_call_joins:
  "map_of (sp_map (sh_promises s)) (silent_promise_key cfg options) = Some p \<Longrightarrow>
     shared_call cfg options s = s\<lparr>sh_calls := (options, p) # sh_calls s\<rparr>"
  by (simp add: shared_call_def singlePromise_def)

lemma shared_call_starts:
  assumes "map_of (sp_map (sh_promises s)) (silent_promise_key cfg options) = None"
  obtains st where "shared_call cfg options s = s\<lparr>sh_promises := st, sh_calls := (options, sp_next (sh_promises s)) # sh_calls s,
         sh_tasks := (sp_next (sh_promises s), options) # sh_tasks s\<rparr>"
       "sp_next st = Suc (sp_next (sh_promises s))"
       "sp_running st = sp_running (sh_promises s) @ [(sp_next (sh_promises s), silent_promise_key cfg options)]"
       "sp_open st = sp_open (sh_promises s) @ [(sp_next (sh_promises s), silent_promise_key cfg options)]"
  using assms by (auto simp: shared_call_def singlePromise_def Let_def)

lemma tasks_ok_call:
  assumes "tasks_ok cfg s" and "sp_inv (sh_promises s)"
  shows "tasks_ok cfg (shared_call cfg options s)"
proof (cases "map_of (sp_map (sh_promises s)) (silent_promise_key cfg options)")
  case None
  obtain st where st: "shared_call cfg options s = s\<lparr>sh_promises := st, sh_calls := (options, sp_next (sh_promises s)) # sh_calls s,
         sh_tasks := (sp_next (sh_promises s), options) # sh_tasks s\<rparr>"
       "sp_next st = Suc (sp_next (sh_promises s))"
       "sp_open st = sp_open (sh_promises s) @ [(sp_next (sh_promises s), silent_promise_key cfg options)]"
    by (rule shared_call_starts [OF None])
  have "(sp_next (sh_promises s), key) \<notin> set (sp_open (sh_promises s))" "(o1, sp_next (sh_promises s)) \<notin> set (sh_calls s)" for key o1
    using assms(1) fresh_task [OF assms(1)] unfolding tasks_ok_def by (metis option.distinct(1))+
  then show ?thesis using assms(1) fresh_task [OF assms(1)] unfolding tasks_ok_def st(1)
    by (auto simp: st less_Suc_eq)
next
  case (Some p)
  with assms(2) have "(p, silent_promise_key cfg options) \<in> set (sp_open (sh_promises s))" by (simp add: sp_inv_def)
  with assms(1) show ?thesis
    unfolding shared_call_joins [OF Some] tasks_ok_def by auto
qed

lemma runs_ok_call:
  assumes "runs_ok br cfg s" and "tasks_ok cfg s"
  shows "runs_ok br cfg (shared_call cfg options s)"
proof (cases "map_of (sp_map (sh_promises s)) (silent_promise_key cfg options)")
  case None
  obtain st where st: "shared_call cfg options s = s\<lparr>sh_promises := st, sh_calls := (options, sp_next (sh_promises s)) # sh_calls s,
         sh_tasks := (sp_next (sh_promises s), options) # sh_tasks s\<rparr>"
       "sp_running st = sp_running (sh_promises s) @ [(sp_next (sh_promises s), silent_promise_key cfg options)]"
    by (rule shared_call_starts [OF None])
  show ?thesis using assms(1) fresh_task [OF assms(2)] fresh_run [OF assms(2,1)] unfolding runs_ok_def st(1)
    by (auto simp: st)
next
  case (Some p)
  with assms(1) show ?thesis by (simp add: runs_ok_def shared_call_joins)
qed

lemma runs_ok_run:
  assumes "runs_ok br cfg s" and task: "map_of (sh_tasks s) p = Some options"
    and running: "(p, silent_promise_key cfg options) \<in> set (sp_running (sh_promises s))"
  shows "runs_ok br cfg (shared_run br cfg p options s)"
proof -
  obtain r t where run: "getTokenSilently_inner br cfg options (sh_client s) = (r, t)" by force
  have new: "map_of (sh_runs s) p = None" using assms unfolding runs_ok_def by blast
  then have "p \<notin> fst ` set (sh_runs s)" by (simp add: map_of_eq_None_iff)
  with assms(1) run task new show ?thesis
    unfolding runs_ok_def by (auto simp: shared_run_def sp_settle_def)
qed

lemma shared_step_ok:
  "shared_step br cfg s t \<Longrightarrow> sp_inv (sh_promises s) \<Longrightarrow> tasks_ok cfg s \<Longrightarrow> runs_ok br cfg s \<Longrightarrow>
     tasks_ok cfg t \<and> runs_ok br cfg t"
proof (induction rule: shared_step.induct)
  case (share_call s options)
  then show ?case by (simp add: tasks_ok_call runs_ok_call)
next
  case (share_run s p options)
  moreover have "tasks_ok cfg (shared_run br cfg p options s)"
    using share_run by (simp add: tasks_ok_def shared_run_def sp_settle_def split: prod.split)
  ultimately show ?case by (simp add: runs_ok_run)
next
  case (share_finally p key s)
  then show ?case by (simp add: tasks_ok_def runs_ok_def sp_finally_def)
qed (simp add: tasks_ok_def runs_ok_def)

lemma shared_reach_ok: "shared_reach br cfg s \<Longrightarrow> tasks_ok cfg s \<and> runs_ok br cfg s"
proof (induction rule: shared_reach.induct)
  case (share_start s)
  show ?case by (simp add: tasks_ok_def runs_ok_def shared_init_def sp_init_def)
next
  case (share_more s t)
  then show ?case using shared_step_ok sp_reach_inv shared_sp_reach by blast
qed

lemma count_key: "distinct (map fst xs) \<Longrightarrow> map_of xs p = Some r \<Longrightarrow> length (filter (\<lambda>x. fst x = p) xs) = 1"
proof (induction xs)
  case (Cons x xs)
  then show ?case by (cases "fst x = p") (auto simp: filter_empty_conv image_iff split: if_splits)
qed simp

section \<open>What a key tells\<close>

text \<open>
  The key is the text of the audience, the scope and the cache mode between separators; it tells
  them apart when none of them holds the separator and no audience is the word \<open>undefined\<close>.
\<close>

definition clean_request :: "silent_options \<Rightarrow> bool" where
  "clean_request o1 \<longleftrightarrow>
     opt_str (gt_params o1) ''audience'' \<noteq> Some ''undefined'' \<and> gt_scope o1 \<noteq> None \<and>
     sep_clean ''::'' (tmpl (opt_str (gt_params o1) ''audience'')) \<and> sep_clean ''::'' (tmpl (gt_scope o1)) \<and>
     gt_cacheMode o1 \<in> {''on'', ''off'', ''cache-only''}"

lemma key_parts_of_request:
  assumes "clean_request o1"
  shows "split_str ''::'' (drop (length (cc_clientId cfg) + 2) (silent_promise_key cfg o1)) =
     [tmpl (opt_str (gt_params o1) ''audience''), tmpl (gt_scope o1), gt_cacheMode o1]"
proof -
  have "sep_clean ''::'' (gt_cacheMode o1)"
  proof -
    have "sep_clean ''::'' ''on''" "sep_clean ''::'' ''off''" "sep_clean ''::'' ''cache-only''" by code_simp+
    with assms show ?thesis by (auto simp: clean_request_def)
  qed
  with assms have "split_str ''::'' (join ''::'' [tmpl (opt_str (gt_params o1) ''audience''), tmpl (gt_scope o1), gt_cacheMode o1]) =
     [tmpl (opt_str (gt_params o1) ''audience''), tmpl (gt_scope o1), gt_cacheMode o1]"
    by (intro split_str_join) (simp_all add: clean_request_def)
  then show ?thesis by (simp add: silent_promise_key_def)
qed

lemma key_determines:
  assumes "silent_promise_key cfg o1 = silent_promise_key cfg o2" and "clean_request o1" and "clean_request o2"
  shows "gt_audience o1 = gt_audience o2" "gt_scope o1 = gt_scope o2" "gt_cacheMode o1 = gt_cacheMode o2"
proof -
  from key_parts_of_request [OF assms(2), of cfg] key_parts_of_request [OF assms(3), of cfg] assms(1)
  have t: "tmpl (opt_str (gt_params o1) ''audience'') = tmpl (opt_str (gt_params o2) ''audience'')"
    "tmpl (gt_scope o1) = tmpl (gt_scope o2)" and "gt_cacheMode o1 = gt_cacheMode o2" by simp_all
  then show "gt_cacheMode o1 = gt_cacheMode o2" by blast
  from t(1) assms(2,3) have "opt_str (gt_params o1) ''audience'' = opt_str (gt_params o2) ''audience''"
    by (auto simp: clean_request_def tmpl_def split: option.splits)
  then show "gt_audience o1 = gt_audience o2" by (simp add: gt_audience_def)
  from t(2) assms(2,3) show "gt_scope o1 = gt_scope o2" by (auto simp: clean_request_def tmpl_def split: option.splits)
qed

text \<open>
  The other parameters of a request are not in the key: a call for one organization joins the
  promise of a call for another one.
\<close>

lemma key_ignores_organization:
  "silent_promise_key cfg (o1\<lparr>gt_params := AList.update ''organization'' v (gt_params o1)\<rparr>) = silent_promise_key cfg o1"
  by (simp add: silent_promise_key_def gt_scope_def opt_str_def update_conv')

section \<open>Properties\<close>

text \<open>
  C20: However calls of \<open>getTokenSilently\<close> overlap, and whatever else happens to the client
  meanwhile: no call is lost (its promise is running, or its callback has run), the callback of a
  promise runs once for all its callers, and what a caller gets was obtained for its own
  audience, scope and cache mode, so a call with mode \<open>off\<close> is never answered by one that may
  have read the cache.
\<close>

theorem shared_calls_answered:
  assumes "shared_reach br cfg s" and "(options, p) \<in> set (sh_calls s)"
    and "list_all (\<lambda>c. clean_request (fst c)) (sh_calls s)"
  shows "\<exists>other. gt_audience other = gt_audience options \<and> gt_scope other = gt_scope options \<and>
     gt_cacheMode other = gt_cacheMode options \<and>
     (case map_of (sh_runs s) p of
        None \<Rightarrow> (p, silent_promise_key cfg options) \<in> set (sp_running (sh_promises s))
      | Some r \<Rightarrow> length (filter (\<lambda>x. fst x = p) (sh_runs s)) = 1 \<and>
          (\<exists>u v. getTokenSilently_inner br cfg other u = (r, v)))"
proof -
  have ok: "tasks_ok cfg s" "runs_ok br cfg s" using shared_reach_ok [OF assms(1)] by blast+
  obtain other where task: "map_of (sh_tasks s) p = Some other"
    and key: "silent_promise_key cfg other = silent_promise_key cfg options"
    using ok(1) assms(2) unfolding tasks_ok_def by blast
  have "(other, p) \<in> set (sh_calls s)" using ok(1) task by (simp add: tasks_ok_def)
  with assms(2,3) have "clean_request other" "clean_request options" by (auto simp: list_all_iff)
  note same = key_determines [OF key this]
  show ?thesis
  proof (cases "map_of (sh_runs s) p")
    case None
    with ok(2) task key have "(p, silent_promise_key cfg options) \<in> set (sp_running (sh_promises s))"
      unfolding runs_ok_def by metis
    with same None show ?thesis by auto
  next
    case (Some r)
    with ok(2) task obtain u v where "getTokenSilently_inner br cfg other u = (r, v)"
      unfolding runs_ok_def by (metis option.inject)
    moreover have "length (filter (\<lambda>x. fst x = p) (sh_runs s)) = 1"
      using ok(2) Some by (intro count_key) (simp_all add: runs_ok_def)
    ultimately show ?thesis using same Some by auto
  qed
qed

definition sample_request :: silent_options where
  "sample_request = \<lparr>gt_cacheMode = ''off'', gt_params = [(''audience'', Some (JStr ''api'')), (''scope'', Some (JStr ''openid read:x''))],
     gt_timeoutInSeconds = None\<rparr>"

theorem shared_calls_answered_witness:
  "\<exists>other. gt_audience other = ''api'' \<and> gt_cacheMode other = ''off'' \<and>
     (0, silent_promise_key (offline_client page_options) sample_request) \<in> set (sp_running (sh_promises
        (shared_call (offline_client page_options) sample_request
          (shared_call (offline_client page_options) sample_request (shared_init fresh_state)))))"
proof -
  let ?cfg = "offline_client page_options :: (unit page_caches, string obj) client_config"
  let ?s = "shared_call ?cfg sample_request (shared_call ?cfg sample_request (shared_init fresh_state))"
  have "shared_reach (offline 5) ?cfg ?s" by (rule share_more [OF share_more [OF share_start share_call] share_call])
  moreover have calls: "sh_calls ?s = [(sample_request, 0), (sample_request, 0)]" "sh_runs ?s = []"
    by (simp_all add: shared_call_def shared_init_def singlePromise_def sp_init_def Let_def)
  moreover have "clean_request sample_request" "gt_audience sample_request = ''api''" "gt_cacheMode sample_request = ''off''"
    by code_simp+
  ultimately show ?thesis using shared_calls_answered [of "offline 5" ?cfg ?s sample_request 0] by auto
qed

end
