(* ===== verification/ClientFrame.thy ===== *)
theory ClientFrame
  imports ClientExchange
begin

text \<open>
  What the methods of the client may change. A relation between the state before and the state
  after that every elementary step of some part of the environment keeps is kept by every method
  made of those steps: the locales below name the steps a relation has to keep, from the network
  of the token endpoint to the whole client with its locks, and each method is walked through
  once. The safety properties of the client are instances.
\<close>

lemma effect_at: "effect R m \<Longrightarrow> R s (snd (m s))"
  by (simp add: effect_def)

section \<open>The token endpoint\<close>

locale http_frame =
  fixes R :: "'s \<Rightarrow> 's \<Rightarrow> bool" and ops :: "'s http_ops" and dpop :: "'s dpop_ops option"
  assumes pre: "preorder_rel R"
    and fetch_step: "effect R (ho_fetch ops u o1 t)"
    and send_step: "ho_worker ops = Some send \<Longrightarrow> effect R (send msg)"
    and proof_step: "dpop = Some d \<Longrightarrow> effect R (do_generateProof d u mt n)"
    and nonce_step: "dpop = Some d \<Longrightarrow> effect R (do_getNonce d)"
    and set_step: "dpop = Some d \<Longrightarrow> effect R (do_setNonce d nonce)"
begin

lemma attempts_step: "effect R m \<Longrightarrow> effect R (fetch_attempts m k)"
  by (induction k) (auto intro!: effect_intro pre)

lemma timeout_step: "effect R (fetchWithTimeout ops u o1 t)"
  unfolding fetchWithTimeout_def
  by (auto intro!: effect_intro pre fetch_step split: fetch_outcome.split)

lemma switch_step: "effect R (switchFetch ops u o1 c)"
  unfolding switchFetch_def fetchWithWorker_def fetchWithoutWorker_def
  by (auto intro!: effect_intro pre send_step timeout_step split: option.split)

lemma handle_step: "effect R retry \<Longrightarrow> effect R (handle_response dpop u c r retry response)"
  unfolding handle_response_def
  by (auto intro!: effect_intro pre set_step split: sum.split option.split simp: Let_def)

lemma with_proof_step: "effect R (with_proof dpop u o1)"
  unfolding with_proof_def by (auto intro!: effect_intro pre nonce_step proof_step split: option.split)

lemma getJSON_retry: "effect R (getJSON ops dpop u o1 c True)"
  by (subst getJSON.simps) (auto intro!: effect_intro pre with_proof_step attempts_step switch_step handle_step)

lemma getJSON_step: "effect R (getJSON ops dpop u o1 c r)"
  by (cases r; subst getJSON.simps)
    (auto intro!: effect_intro pre with_proof_step attempts_step switch_step handle_step getJSON_retry)

lemma revoke_step:
  "(\<And>t. effect R (strip t)) \<Longrightarrow> effect R (revokeToken ops o1 strip)"
  unfolding revokeToken_def revoke_one_def
  by (auto intro!: effect_intro pre timeout_step send_step split: option.split)

end

section \<open>The parts of the client's state\<close>

locale state_rel =
  fixes R :: "('c, 'k, 'w) client_state \<Rightarrow> ('c, 'k, 'w) client_state \<Rightarrow> bool"
  assumes pre: "preorder_rel R"

text \<open>Steps of the environment: the world, DPoP, the stored MFA contexts, the query of the page.\<close>

locale env_frame = state_rel R
  for R :: "('c, 'k, 'w) client_state \<Rightarrow> ('c, 'k, 'w) client_state \<Rightarrow> bool" +
  assumes put_world: "R s (s\<lparr>st_world := w\<rparr>)"
    and put_dpop: "R s (s\<lparr>st_dpop := d\<rparr>)"
    and put_mfa: "R s (s\<lparr>st_mfa := m\<rparr>)"
    and put_search: "R s (s\<lparr>st_search := q\<rparr>)"
begin

lemma world_step [effect_intro]: "effect R (world f)"
  by (rule effectI) (auto simp: world_def put_world split: prod.splits)

lemma world_try_step [effect_intro]: "effect R (world_try f)"
  by (rule effectI) (auto simp: world_try_def put_world split: prod.splits)

lemma on_dpop_step [effect_intro]: "effect R (on_dpop m)"
  unfolding on_dpop_def by (rule effectI) (auto simp: zoom_def put_dpop split: prod.splits)

lemma random_step [effect_intro]: "effect R (random_string br)"
  unfolding random_string_def by (rule world_step)

lemma prepare_step [effect_intro]: "effect R (prepareAuthorizeUrl br cfg ps response_mode fallback)"
  unfolding prepareAuthorizeUrl_def Let_def by (auto intro!: effect_intro pre)

lemma transfer_step [effect_intro]: "effect R (apply_session_transfer cfg ps)"
  by (rule effectI) (auto simp: apply_session_transfer_def put_search split: prod.splits)

lemma mint_step [effect_intro]: "effect R (client_mint br cfg)"
  unfolding client_mint_def anon_mintTransferToken_def client_anon_def
  by (auto intro!: effect_intro pre split: option.split)

lemma anon_transfer_step [effect_intro]: "effect R (applyAnonTransferToken br cfg ps)"
  unfolding applyAnonTransferToken_def by (auto intro!: effect_intro pre)

lemma iframe_params_step [effect_intro]: "effect R (iframe_params cfg options)"
  by (rule effectI) (use pre in \<open>auto simp: iframe_params_def preorder_rel_def Let_def split: sum.splits\<close>)

lemma store_mfa_step [effect_intro]: "effect R (storeMfaContext br e scope audience)"
  unfolding storeMfaContext_def by (auto intro!: effect_intro pre put_mfa split: js_error.split option.split)

lemma verify_step [effect_intro]: "effect R (verifyIdToken br cfg t n org m)"
  by (rule effectI) (use pre in \<open>auto simp: verifyIdToken_def preorder_rel_def Let_def\<close>)

end

text \<open>Requests to the token endpoint, direct or through the worker.\<close>

locale net_frame = env_frame R for R :: "('c, 'k, 'w) client_state \<Rightarrow> ('c, 'k, 'w) client_state \<Rightarrow> bool" +
  assumes put_log: "\<not> is_Called e \<Longrightarrow> R s (s\<lparr>st_log := st_log s @ [e]\<rparr>)"
    and put_worker: "R s (s\<lparr>st_worker := wk\<rparr>)"
begin

lemma logged_step [effect_intro]: "\<not> is_Called e \<Longrightarrow> effect R (logged e)"
  unfolding logged_def by (rule effect_modify) (rule put_log)

lemma send_step [effect_intro]: "effect R (client_send br msg)"
proof (rule effectI)
  fix s r and t :: "('c, 'k, 'w) client_state"
  assume "client_send br msg s = (r, t)"
  then obtain wk w where "t = s\<lparr>st_worker := wk, st_world := w, st_log := st_log s @ [Messaged msg]\<rparr>"
    by (auto simp: client_send_def split: prod.splits)
  moreover have "R s (s\<lparr>st_worker := wk\<rparr>)" by (rule put_worker)
  moreover have "R (s\<lparr>st_worker := wk\<rparr>) (s\<lparr>st_worker := wk, st_world := w\<rparr>)"
    using put_world [of "s\<lparr>st_worker := wk\<rparr>" w] by simp
  moreover have "R (s\<lparr>st_worker := wk, st_world := w\<rparr>)
      (s\<lparr>st_worker := wk, st_world := w, st_log := st_log s @ [Messaged msg]\<rparr>)"
    using put_log [of "Messaged msg" "s\<lparr>st_worker := wk, st_world := w\<rparr>"] by simp
  ultimately show "R s t" using pre unfolding preorder_rel_def by blast
qed

lemma http_frame: "http_frame R (client_http br cfg) (client_dpop br cfg)"
  by unfold_locales (auto simp: client_http_def client_dpop_def intro!: effect_intro pre split: if_splits)

lemma http_frame_no_dpop: "http_frame R (client_http br cfg) None"
  by unfold_locales (auto simp: client_http_def intro!: effect_intro pre split: if_splits)

lemma oauth_step [effect_intro]: "effect R (oauthToken (client_http br cfg) (client_dpop br cfg) o1 skip)"
  by (simp add: oauthToken_def Let_def http_frame.getJSON_step [OF http_frame]
      http_frame.getJSON_step [OF http_frame_no_dpop])

lemma revoke_step [effect_intro]:
  "(\<And>t. effect R (strip t)) \<Longrightarrow> effect R (revokeToken (client_http br cfg) o1 strip)"
  by (rule http_frame.revoke_step [OF http_frame])

lemma exchange_step: "effect R (customTokenExchange br cfg options)"
  unfolding customTokenExchange_def Let_def by (auto intro!: effect_intro pre)

end

text \<open>Reads of the cache, which may remove what has expired, and the cached user.\<close>

locale cache_frame = state_rel R
  for R :: "('c, 'k, 'w) client_state \<Rightarrow> ('c, 'k, 'w) client_state \<Rightarrow> bool" +
  assumes put_cache: "R s (s\<lparr>st_cache := c\<rparr>)"
    and put_user: "R s (s\<lparr>st_user := u\<rparr>)"
begin

lemma on_cache_step [effect_intro]: "effect R (on_cache f)"
  by (rule effectI) (auto simp: on_cache_def put_cache split: prod.splits)

lemma on_cache_app_step: "effect R (\<lambda>s. on_cache (f s) s)"
  by (rule effectI) (auto simp: on_cache_def put_cache split: prod.splits)

lemma set_user_step [effect_intro]: "effect R (modify (\<lambda>s. s\<lparr>st_user := f s\<rparr>))"
  by (rule effect_modify) (rule put_user)

lemma client_get_step [effect_intro]: "effect R (client_get br cfg scope audience adj mode)"
  by (rule effectI) (auto simp: client_get_def on_cache_def put_cache split: prod.splits)

lemma id_token_step [effect_intro]: "effect R (getIdTokenFromCache br cfg)"
proof (rule effectI)
  fix s r and t :: "('c, 'k, 'w) client_state"
  assume "getIdTokenFromCache br cfg s = (r, t)"
  then obtain c where "t = s\<lparr>st_cache := c\<rparr> \<or> (\<exists>u. t = s\<lparr>st_cache := c, st_user := u\<rparr>)"
    by (auto simp: getIdTokenFromCache_def Let_def split: prod.splits if_splits)
  then show "R s t" using pre put_cache put_user by (metis preorder_rel_def)
qed

lemma entry_step [effect_intro]: "effect R (getEntryFromCache br cfg scope audience mode)"
  unfolding getEntryFromCache_def by (auto intro!: effect_intro pre split: option.split)

lemma save_entry_step [effect_intro]: "effect R (saveEntryInCache br cfg e t d)"
  unfolding saveEntryInCache_def by (auto intro!: effect_intro pre on_cache_app_step split: option.split)

lemma check_user_step [effect_intro]: "effect R (check_user br cfg d)"
  unfolding check_user_def by (auto intro!: effect_intro pre simp: Let_def)

lemma pin_step [effect_intro]: "effect R (pin_ceiling br cfg d)"
  unfolding pin_ceiling_def by (auto intro!: effect_intro pre)

lemma carry_step [effect_intro]: "effect R (carry_refresh_token br cfg ps scope r)"
  unfolding carry_refresh_token_def by (auto intro!: effect_intro pre split: option.split)

lemma propagate_step [effect_intro]: "effect R (propagateRotatedRefreshToken cfg previous new)"
  unfolding propagateRotatedRefreshToken_def by (auto intro!: effect_intro pre)

end

text \<open>Ending the session: the caches, the cookies of the client and the store of the worker.\<close>

definition client_cookies :: "('c, 'w) client_config \<Rightarrow> string set" where
  "client_cookies cfg =
     {cc_orgHintCookieName cfg, cc_isAuthenticatedCookieName cfg, OLD_IS_AUTHENTICATED_COOKIE_NAME}"

lemma client_cookies [simp, intro]:
  "cc_orgHintCookieName cfg \<in> client_cookies cfg" "cc_isAuthenticatedCookieName cfg \<in> client_cookies cfg"
  "OLD_IS_AUTHENTICATED_COOKIE_NAME \<in> client_cookies cfg"
  by (simp_all add: client_cookies_def)

locale clear_frame = cache_frame R + env_frame R
  for R :: "('c, 'k, 'w) client_state \<Rightarrow> ('c, 'k, 'w) client_state \<Rightarrow> bool" +
  fixes br :: "('k, 'w) browser" and cfg :: "('c, 'w) client_config"
  assumes save_cookie: "k \<in> client_cookies cfg \<Longrightarrow>
      R s (s\<lparr>st_web := cs_save (cc_cookieStorage cfg) k v o1 (st_web s)\<rparr>)"
    and remove_cookie: "k \<in> client_cookies cfg \<Longrightarrow>
      R s (s\<lparr>st_web := cs_remove (cc_cookieStorage cfg) k o1 (st_web s)\<rparr>)"
    and clear_send: "effect R (client_send br ClearMsg)"
begin

lemma save_step [effect_intro]: "k \<in> client_cookies cfg \<Longrightarrow> effect R (on_web (cs_save (cc_cookieStorage cfg) k v o1))"
  unfolding on_web_def by (rule effect_modify) (rule save_cookie)

lemma remove_step [effect_intro]: "k \<in> client_cookies cfg \<Longrightarrow> effect R (on_web (cs_remove (cc_cookieStorage cfg) k o1))"
  unfolding on_web_def by (rule effect_modify) (rule remove_cookie)

lemma clear_step [effect_intro]: "effect R (clearLocalSession br cfg cid)"
  unfolding clearLocalSession_def by (auto intro!: effect_intro pre clear_send)

lemma ceiling_read_step: "effect R (\<lambda>s. case st_user s of
    Some i \<Rightarrow> (Inr (Some i), s)
  | None \<Rightarrow> on_cache (f s) s)"
  by (rule effectI) (use pre in \<open>auto simp: on_cache_def put_cache preorder_rel_def split: option.splits prod.splits\<close>)

lemma ceiling_step [effect_intro]: "effect R (isSessionCeilingReached br cfg)"
  unfolding isSessionCeilingReached_def Let_def
  by (auto intro!: effect_intro pre ceiling_read_step split: option.split)

lemma user_step [effect_intro]: "effect R (getUser br cfg)"
  unfolding getUser_def by (auto intro!: effect_intro pre)

lemma claims_step [effect_intro]: "effect R (getIdTokenClaims br cfg)"
  unfolding getIdTokenClaims_def by (auto intro!: effect_intro pre)

lemma authenticated_step [effect_intro]: "effect R (isAuthenticated br cfg)"
  unfolding isAuthenticated_def by (auto intro!: effect_intro pre)

lemma org_hint_step [effect_intro]: "effect R (processOrgHint cfg v)"
  unfolding processOrgHint_def by (auto intro!: effect_intro pre)

lemma silent_logout_step [effect_intro]: "effect R (logout br cfg logout_silently)"
  unfolding logout_def logout_silently_def patchOpenUrlWithOnRedirect_def by (auto intro!: effect_intro pre)

end

text \<open>Everything but the locks.\<close>

locale session_frame = clear_frame R br cfg + net_frame R
  for R :: "('c, 'k, 'w) client_state \<Rightarrow> ('c, 'k, 'w) client_state \<Rightarrow> bool"
    and br :: "('k, 'w) browser" and cfg :: "('c, 'w) client_config" +
  assumes put_anon: "R s (s\<lparr>st_anon := a\<rparr>)"
begin

lemma establish_step [effect_intro]: "effect R (establish_session br cfg ps extra r d)"
  unfolding establish_session_def by (auto intro!: effect_intro pre)

lemma request_step [effect_intro]: "effect R (requestToken br cfg ps extra)"
  unfolding requestToken_def Let_def by (auto intro!: effect_intro pre)

lemma awaited_step [effect_intro]: "effect R (awaited wt)"
  unfolding awaited_def by (auto intro!: effect_intro pre split: sum.split)

lemma popup_step [effect_intro]: "effect R (loginWithPopup br cfg ps config)"
  unfolding loginWithPopup_def open_popup_def by (auto intro!: effect_intro pre split: option.split)

lemma login_callback_step [effect_intro]: "effect R (handleLoginRedirectCallback br cfg r tx)"
  unfolding handleLoginRedirectCallback_def by (auto intro!: effect_intro pre)

lemma logout_step [effect_intro]:
  "(\<And>f u. lo_openUrl options = OpenWith f \<Longrightarrow> effect R (f u)) \<Longrightarrow>
   (\<And>f u. lo_onRedirect options = Some f \<Longrightarrow> effect R (f u)) \<Longrightarrow> effect R (logout br cfg options)"
  unfolding logout_def Let_def patchOpenUrlWithOnRedirect_def
  by (auto intro!: effect_intro pre split: open_url.split option.split)

lemma revoke_refresh_step [effect_intro]: "effect R (revokeRefreshToken br cfg audience)"
  unfolding revokeRefreshToken_def Let_def by (auto intro!: effect_intro pre)

lemma iframe_step [effect_intro]: "effect R (iframe_callback br cfg options)"
  unfolding iframe_callback_def by (auto intro!: effect_intro pre)

lemma mfa_grant_step [effect_intro]: "effect R (requestTokenForMfa br cfg tok ps)"
  unfolding requestTokenForMfa_def by (auto intro!: effect_intro pre)

lemma passkey_grant_step [effect_intro]: "effect R (requestTokenForPasskey br cfg g)"
  unfolding requestTokenForPasskey_def Let_def by (auto intro!: effect_intro pre)

lemma token_exchange_step [effect_intro]: "effect R (loginWithCustomTokenExchange br cfg ps)"
  unfolding loginWithCustomTokenExchange_def Let_def by (auto intro!: effect_intro pre)

end

lemma client_anon_simps:
  "an_read (client_anon br cfg) = st_anon"
  "an_write (client_anon br cfg) = (\<lambda>a s. s\<lparr>st_anon := a\<rparr>)"
  "an_now (client_anon br cfg) = client_now br"
  "an_lock (client_anon br cfg) = with_lock br cfg"
  "an_getAccessToken (client_anon br cfg) = (\<lambda>options t. world_try (br_anon_token br options t))"
  "an_createSession (client_anon br cfg) = (\<lambda>options. world_try (br_anon_create br options))"
  "an_logout (client_anon br cfg) = world_try (br_anon_logout br)"
  by (simp_all add: client_anon_def)

text \<open>\<open>checkSession\<close> is made of \<open>getTokenSilently\<close>, the anonymous session and the cookies.\<close>

lemma check_session_effect:
  assumes pre: "preorder_rel R" and token: "effect R (getTokenSilently br cfg mode ps timeout)"
    and anon: "effect R (maybeCreateAnonymousSession br cfg)"
    and save: "\<And>v o1. effect R (on_web (cs_save (cc_cookieStorage cfg) (cc_isAuthenticatedCookieName cfg) v o1))"
    and remove: "\<And>o1. effect R (on_web (cs_remove (cc_cookieStorage cfg) OLD_IS_AUTHENTICATED_COOKIE_NAME o1))"
  shows "effect R (checkSession br cfg mode ps timeout)"
proof -
  let ?check = "catching (andNext (getTokenSilently br cfg mode ps timeout) (ret ()))
     (\<lambda>e. if is_GenericError e \<and> err_code e = Some ''login_required'' \<and> err_message e \<noteq> MFA_STEP_UP_ERROR_DESCRIPTION
          then maybeCreateAnonymousSession br cfg else ret ())"
  have check: "effect R ?check" by (auto intro!: effect_intro pre token anon)
  let ?st = "cc_cookieStorage cfg"
  have migrate: "effect R (andNext (on_web (cs_save ?st (cc_isAuthenticatedCookieName cfg) v o1))
      (andNext (on_web (cs_remove ?st OLD_IS_AUTHENTICATED_COOKIE_NAME o2)) ?check))" for v o1 o2
    by (intro effect_andNext pre save remove check)
  show ?thesis
  proof (rule effectI)
    fix s r t assume "checkSession br cfg mode ps timeout s = (r, t)"
    then show "R s t"
      unfolding checkSession_def Let_def
      using effectD [OF check, of s r t] effectD [OF anon, of s r t] effectD [OF migrate, of _ _ _ s r t] pre
      by (auto simp: preorder_rel_def split: sum.splits if_splits)
  qed
qed

text \<open>The whole client: what a lock adds around a callback.\<close>

locale client_frame = session_frame R br cfg
  for R :: "('c, 'k, 'w) client_state \<Rightarrow> ('c, 'k, 'w) client_state \<Rightarrow> bool"
    and br :: "('k, 'w) browser" and cfg :: "('c, 'w) client_config" +
  assumes lock_grant: "effect R (m :: (('c, 'k, 'w) client_state, js_error, json obj) act)
      \<Longrightarrow> effect R (with_lock br cfg key t m)"
    and lock_anon: "effect R (n :: (('c, 'k, 'w) client_state, js_error, json) act)
      \<Longrightarrow> effect R (with_lock br cfg key t n)"
    and lock_token: "effect R (k :: (('c, 'k, 'w) client_state, js_error, token_response option) act)
      \<Longrightarrow> effect R (with_lock br cfg key t k)"
begin

lemma on_store_step: "effect R (on_store (client_anon br cfg) f)"
  unfolding on_store_def client_anon_def by (auto intro!: effect_intro pre put_anon)

lemma anon_token_step [effect_intro]: "effect R (anon_getTokenSilently (client_anon br cfg) cache cid options)"
  unfolding anon_getTokenSilently_def anon_renew_def put_slot_def
  by (auto intro!: effect_intro pre on_store_step lock_anon simp: client_anon_simps
      split: prod.split js_error.split)

lemma anon_create_step [effect_intro]: "effect R (anon_createSession (client_anon br cfg) cache options)"
  unfolding anon_createSession_def put_slot_def
  by (auto intro!: effect_intro pre on_store_step simp: client_anon_simps)

lemma anon_logout_step [effect_intro]: "effect R (anon_logout (client_anon br cfg) cache)"
  unfolding anon_logout_def by (auto intro!: effect_intro pre on_store_step simp: client_anon_simps)

lemma maybe_anon_step [effect_intro]: "effect R (maybeCreateAnonymousSession br cfg)"
  unfolding maybeCreateAnonymousSession_def by (auto intro!: effect_intro pre)

lemma from_iframe_step [effect_intro]: "effect R (getTokenFromIFrame br cfg options)"
  unfolding getTokenFromIFrame_def by (auto intro!: effect_intro pre lock_grant)

lemma refresh_step [effect_intro]: "effect R (getTokenUsingRefreshToken br cfg options)"
  unfolding getTokenUsingRefreshToken_def refresh_exchange_def refresh_failed_def Let_def
  by (auto intro!: effect_intro pre)

lemma interactive_step [effect_intro]: "effect R (handleInteractiveErrorWithPopup br cfg options)"
  unfolding handleInteractiveErrorWithPopup_def by (auto intro!: effect_intro pre split: option.split)

lemma locked_step [effect_intro]: "effect R (locked_request br cfg options)"
  unfolding locked_request_def Let_def by (auto intro!: effect_intro pre split: option.split)

lemma silently_step [effect_intro]: "effect R (getTokenSilently br cfg mode ps timeout)"
  unfolding getTokenSilently_def getTokenSilently_inner_def
  by (auto intro!: effect_intro pre lock_token split: option.split)

lemma check_session_step [effect_intro]: "effect R (checkSession br cfg mode ps timeout)"
  by (rule check_session_effect [OF pre silently_step maybe_anon_step]) (auto intro: save_step remove_step)

lemma token_popup_step [effect_intro]: "effect R (getTokenWithPopup br cfg ps config)"
  unfolding getTokenWithPopup_def Let_def by (auto intro!: effect_intro pre split: option.split)

end

section \<open>Calls of the application's API\<close>

lemma fetchWithAuth_effect:
  assumes R: "preorder_rel R"
    and "\<And>r. effect R (fc_fetch config r)" "\<And>a. effect R (ft_getAccessToken config hooks a)"
    and "effect R (fh_getDpopNonce hooks)" "\<And>n. effect R (fh_setDpopNonce hooks n)"
    and "\<And>u m n t. effect R (fh_generateDpopProof hooks u m n t)"
  shows "effect R (fetchWithAuth resolve config hooks info init a)"
proof -
  have prep: "effect R (prepareRequest config hooks request a)" for request
    unfolding prepareRequest_def setDpopProofHeader_def Let_def
    by (auto intro!: effect_intro assms split: option.split prod.split)
  have resp: "effect R (ft_handleResponse hooks again response)"
    if "\<And>m. again = Some m \<Longrightarrow> effect R m" for again response
    unfolding ft_handleResponse_def Let_def
    using that by (cases again) (auto intro!: effect_intro assms)
  have internal: "effect R (internalFetchWithAuth resolve config hooks info init again a)"
    if "\<And>m. again = Some m \<Longrightarrow> effect R m" for again
    unfolding internalFetchWithAuth_def using resp [OF that]
    by (auto intro!: effect_intro assms prep split: sum.split)
  have "effect R (internalFetchWithAuth resolve config hooks info init None a)" by (rule internal) simp
  then show ?thesis unfolding fetchWithAuth_def by (intro internal) auto
qed

context client_frame
begin

lemma nonce_get_step [effect_intro]: "effect R (getDpopNonce cfg i)"
  unfolding getDpopNonce_def assertDpop_def by (auto intro!: effect_intro pre)

lemma nonce_set_step [effect_intro]: "effect R (setDpopNonce cfg n i)"
  unfolding setDpopNonce_def assertDpop_def by (auto intro!: effect_intro pre)

lemma proof_step [effect_intro]: "effect R (generateDpopProof br cfg u m n t)"
  unfolding generateDpopProof_def assertDpop_def by (auto intro!: effect_intro pre)

lemma hook_steps:
  "effect R (fh_getAccessToken (createFetcher_hooks br cfg i) a)"
  "effect R (fh_getDpopNonce (createFetcher_hooks br cfg i))"
  "effect R (fh_setDpopNonce (createFetcher_hooks br cfg i) n)"
  "effect R (fh_generateDpopProof (createFetcher_hooks br cfg i) u m nn t)"
  unfolding createFetcher_hooks_def by (auto intro!: effect_intro pre)

end

text \<open>With the calls of the API as steps, the fetchers and the connected accounts.\<close>

locale api_frame = client_frame R br cfg
  for R :: "('c, 'k, 'w) client_state \<Rightarrow> ('c, 'k, 'w) client_state \<Rightarrow> bool"
    and br :: "('k, 'w) browser" and cfg :: "('c, 'w) client_config" +
  assumes put_call: "R s (s\<lparr>st_log := st_log s @ [Called r]\<rparr>)"
begin

lemma window_fetch_step: "effect R (window_fetch br r)"
  unfolding window_fetch_def logged_def by (auto intro!: effect_intro pre put_call)

lemma fetcher_step [effect_intro]: "effect R (createFetcher br cfg baseUrl i info init a)"
  unfolding createFetcher_def
  by (rule fetchWithAuth_effect) (auto intro!: pre window_fetch_step hook_steps simp: ft_getAccessToken_def)

lemma my_account_step [effect_intro]: "effect R (my_account_fetch br cfg u init a)"
  unfolding my_account_fetch_def Let_def
  by (auto intro!: effect_intro fetchWithAuth_effect pre window_fetch_step hook_steps simp: ft_getAccessToken_def)

lemma account_call_step [effect_intro]: "effect R (ma_call (my_account_fetch br cfg) u init scope)"
  unfolding ma_call_def ma_result_def by (auto intro!: effect_intro pre split: sum.split)

lemma connect_callback_step [effect_intro]: "effect R (handleConnectAccountRedirectCallback br cfg r tx)"
  unfolding handleConnectAccountRedirectCallback_def completeAccount_def by (auto intro!: effect_intro pre)

end

text \<open>With the transactions, every method; the callback of a redirect only removes one.\<close>

locale callback_frame = api_frame R br cfg
  for R :: "('c, 'k, 'w) client_state \<Rightarrow> ('c, 'k, 'w) client_state \<Rightarrow> bool"
    and br :: "('k, 'w) browser" and cfg :: "('c, 'w) client_config" +
  assumes remove_tx: "R s (s\<lparr>st_web := tm_remove (cc_transactions cfg) (st_web s)\<rparr>)"
begin

lemma remove_tx_step [effect_intro]: "effect R (on_web (tm_remove (cc_transactions cfg)))"
  unfolding on_web_def by (rule effect_modify) (rule remove_tx)

lemma redirect_callback_step [effect_intro]: "effect R (handleRedirectCallback br cfg url)"
proof -
  have "effect R (\<lambda>s. (tm_get (cc_transactions cfg) (st_web s), s))"
    using pre by (simp add: effect_def preorder_rel_def)
  then show ?thesis
    unfolding handleRedirectCallback_def Let_def by (auto intro!: effect_intro pre split: transaction.split option.split)
qed

end

locale page_frame = callback_frame R br cfg
  for R :: "('c, 'k, 'w) client_state \<Rightarrow> ('c, 'k, 'w) client_state \<Rightarrow> bool"
    and br :: "('k, 'w) browser" and cfg :: "('c, 'w) client_config" +
  assumes create_tx: "R s (s\<lparr>st_web := tm_create (cc_transactions cfg) tx (st_web s)\<rparr>)"
begin

lemma create_tx_step [effect_intro]: "effect R (on_web (tm_create (cc_transactions cfg) tx))"
  unfolding on_web_def by (rule effect_modify) (rule create_tx)

lemma redirect_step [effect_intro]:
  "(\<And>f u. rd_openUrl options = OpenWith f \<Longrightarrow> effect R (f u)) \<Longrightarrow>
   (\<And>f u. rd_onRedirect options = Some f \<Longrightarrow> effect R (f u)) \<Longrightarrow> effect R (loginWithRedirect br cfg options)"
  unfolding loginWithRedirect_def Let_def patchOpenUrlWithOnRedirect_def
  by (auto intro!: effect_intro pre split: open_url.split option.split)

lemma connect_step [effect_intro]:
  assumes "\<And>f u. cn_openUrl options = Some f \<Longrightarrow> effect R (f u)"
  shows "effect R (connectAccountWithRedirect br cfg options)"
proof -
  have opened: "effect R (case cn_openUrl options of Some f \<Rightarrow> f u | None \<Rightarrow> logged (Assigned u))" for u
    using assms by (cases "cn_openUrl options") (auto intro!: effect_intro pre)
  show ?thesis
    unfolding connectAccountWithRedirect_def connectAccount_def Let_def
    by (auto intro!: effect_intro pre opened split: prod.split)
qed

end

end
