(* ===== verification/PageCalls.thy ===== *)
theory PageCalls
  imports ClientFrame
begin

text \<open>
  The methods of a client that deal with its session and its tokens, as an application calls them:
  one datatype of calls, one function that runs them, and the frame of all of them. The other
  public methods, and those with functions of the application, are in \<open>ClientCalls\<close>.
\<close>

section \<open>The calls\<close>

text \<open>The methods of the client itself that read or change the session or obtain a token (with
  \<open>mfa.verify\<close> and the token request of the passkey client), with the arguments of the application;
  navigation is left to the SDK.\<close>

datatype page_call =
    GetTokenSilently "string option" params "int option"
  | CheckSession "string option" params "int option"
  | GetTokenWithPopup params popup_config
  | LoginWithPopup params popup_config
  | LoginWithRedirect params "json option" "string option"
  | HandleRedirectCallback string
  | ConnectAccount "json option" string "string list option" "json option" "string option"
  | Logout logout_client params bool
  | RevokeRefreshToken "string option"
  | GetUser
  | GetIdTokenClaims
  | IsAuthenticated
  | CustomTokenExchange params
  | LoginWithCustomTokenExchange params
  | PasskeyGrant passkey_grant
  | MfaVerify verify_params
  | FetchWithAuth "string option" "string option" request_info request_init "auth_params option"

text \<open>A call, with the answer of the token endpoint where the method returns it as it is.\<close>

abbreviation quietly :: "('s, 'e, 'a) act \<Rightarrow> ('s, 'e, json obj option) act" where
  "quietly m \<equiv> andNext m (ret None)"

fun run_call ::
  "('k, 'w) browser \<Rightarrow> ('c, 'w) client_config \<Rightarrow> page_call \<Rightarrow> (('c, 'k, 'w) client_state, js_error, json obj option) act" where
  "run_call br cfg (GetTokenSilently mode ps timeout) = quietly (getTokenSilently br cfg mode ps timeout)"
| "run_call br cfg (CheckSession mode ps timeout) = quietly (checkSession br cfg mode ps timeout)"
| "run_call br cfg (GetTokenWithPopup ps config) = quietly (getTokenWithPopup br cfg ps config)"
| "run_call br cfg (LoginWithPopup ps config) = quietly (loginWithPopup br cfg ps config)"
| "run_call br cfg (LoginWithRedirect ps appState fragment) = quietly (loginWithRedirect br cfg
     \<lparr>rd_authorizationParams = ps, rd_appState = appState, rd_fragment = fragment, rd_openUrl = OpenAbsent, rd_onRedirect = None\<rparr>)"
| "run_call br cfg (HandleRedirectCallback url) = quietly (handleRedirectCallback br cfg url)"
| "run_call br cfg (ConnectAccount appState connection scopes ps uri) = quietly (connectAccountWithRedirect br cfg
     \<lparr>cn_openUrl = None, cn_appState = appState, cn_connection = connection, cn_scopes = scopes,
      cn_authorization_params = ps, cn_redirectUri = uri\<rparr>)"
| "run_call br cfg (Logout cid ps stay) = quietly (logout br cfg
     \<lparr>lo_clientId = cid, lo_logoutParams = ps, lo_openUrl = (if stay then OpenFalse else OpenAbsent), lo_onRedirect = None\<rparr>)"
| "run_call br cfg (RevokeRefreshToken audience) = quietly (revokeRefreshToken br cfg audience)"
| "run_call br cfg GetUser = quietly (getUser br cfg)"
| "run_call br cfg GetIdTokenClaims = quietly (getIdTokenClaims br cfg)"
| "run_call br cfg IsAuthenticated = quietly (isAuthenticated br cfg)"
| "run_call br cfg (CustomTokenExchange ps) = andThen (customTokenExchange br cfg ps) (\<lambda>r. ret (Some r))"
| "run_call br cfg (LoginWithCustomTokenExchange ps) = andThen (loginWithCustomTokenExchange br cfg ps) (\<lambda>r. ret (Some r))"
| "run_call br cfg (PasskeyGrant g) = andThen (requestTokenForPasskey br cfg g) (\<lambda>r. ret (Some r))"
| "run_call br cfg (MfaVerify ps) = andThen (mfa_verify br cfg ps) (\<lambda>r. ret (Some r))"
| "run_call br cfg (FetchWithAuth baseUrl i info init a) = quietly (createFetcher br cfg baseUrl i info init a)"

context page_frame
begin

lemma mfa_verify_step [effect_intro]: "effect R (mfa_verify br cfg ps)"
proof -
  have "effect R (mfa_context_of br tok)" for tok
    by (rule effectI) (auto simp: mfa_context_of_def put_mfa split: prod.splits)
  then show ?thesis
    unfolding mfa_verify_def by (auto intro!: effect_intro pre put_mfa split: option.split)
qed

lemma run_call_step: "effect R (run_call br cfg call)"
  by (cases call) (auto intro!: effect_intro exchange_step pre)

end

end
