(* ===== verification/ClientSafety.thy ===== *)
theory ClientSafety
  imports PageCalls OfflinePage
begin

text \<open>
  What the client never does: reach the network when only the cache was asked for, touch the
  session in a custom token exchange, call the application's API without a token or more than
  twice, repeat a token request without bound. Each is an instance of the locales of
  \<open>ClientFrame\<close> or \<open>Http\<close>; the last section states what the lock libraries promise, for
  \<open>ClientCalls\<close>.
\<close>

section \<open>Locks around a callback\<close>

text \<open>Two states that differ in what the lock manager and its library keep.\<close>

definition lock_only :: "('c, 'k, 'w) client_state \<Rightarrow> ('c, 'k, 'w) client_state \<Rightarrow> bool" where
  "lock_only s t \<longleftrightarrow> (\<exists>w a l. t = s\<lparr>st_lockWorld := w, st_active := a, st_listener := l\<rparr>)"

lemma lock_only_refl [simp]: "lock_only s s"
  unfolding lock_only_def by (cases s) auto

lemma lock_only_trans: "lock_only s t \<Longrightarrow> lock_only t u \<Longrightarrow> lock_only s u"
  by (auto simp: lock_only_def) blast

lemma lock_only_fields [simp]:
  "lock_only s (s\<lparr>st_lockWorld := w\<rparr>)" "lock_only s (s\<lparr>st_active := a, st_listener := l\<rparr>)"
  "lock_only s (s\<lparr>st_lockWorld := w, st_active := a, st_listener := l\<rparr>)"
  unfolding lock_only_def by (cases s, auto)+

lemma acquire_world: "acquire_loop (lift_lib lib) key t n s = (b, u) \<Longrightarrow> \<exists>w. u = s\<lparr>st_lockWorld := w\<rparr>"
proof (induction n arbitrary: s)
  case 0
  then show ?case by (cases s) auto
next
  case (Suc n)
  obtain c w where c: "lib_acquire lib key t (st_lockWorld s) = (c, w)" by force
  show ?case
  proof (cases c)
    case True
    with Suc.prems c show ?thesis by (auto simp: lift_lib_def)
  next
    case False
    with Suc.prems c have "acquire_loop (lift_lib lib) key t n (s\<lparr>st_lockWorld := w\<rparr>) = (b, u)"
      by (simp add: lift_lib_def)
    from Suc.IH [OF this] show ?thesis by auto
  qed
qed

text \<open>Under either lock manager the callback does not run, or it runs once, and nothing but the
  locks changes around it.\<close>

lemma with_lock_cases:
  assumes run: "with_lock br cfg key t m s = (r, u)"
  obtains "lock_only s u" "\<And>y. r \<noteq> Inr y" | v x where "lock_only s v" "m v = (r, x)" "lock_only x u"
proof (cases "cc_lockManager cfg")
  case WebLocks
  obtain g w where g: "br_lock_request br key t (st_lockWorld s) = (g, w)" by force
  let ?v = "s\<lparr>st_lockWorld := w\<rparr>"
  show thesis
  proof (cases "g = Granted True")
    case True
    obtain q x where x: "m ?v = (q, x)" by force
    with WebLocks run g True have "u = x\<lparr>st_lockWorld := br_lock_release br key (st_lockWorld x)\<rparr>" "q = r"
      by (simp_all add: with_lock_def webRunWithLock_def ensuring_def)
    with that(2) [of ?v x] x show thesis by simp
  next
    case False
    with WebLocks run g have "lock_only s u" "\<And>y. r \<noteq> Inr y"
      by (cases g, auto simp: with_lock_def webRunWithLock_def ensuring_def split: if_splits)+
    then show thesis by (rule that(1))
  qed
next
  case LegacyLocks
  obtain b v where v: "acquire_loop (lift_lib (br_locks br)) key t retryAttempts s = (b, v)" by force
  from acquire_world [OF v] obtain w where w: "v = s\<lparr>st_lockWorld := w\<rparr>" by blast
  show thesis
  proof (cases b)
    case False
    with LegacyLocks run v have "u = v\<lparr>st_active := st_active s, st_listener := st_listener s\<rparr>" "\<And>y. r \<noteq> Inr y"
      by (auto simp: with_lock_def runWithLock_def lock_part_def unlock_part_def)
    with w show thesis by (intro that(1)) simp_all
  next
    case True
    let ?l = "lock_acquired key \<lparr>lk_active = st_active s, lk_listener = st_listener s, lk_world = v\<rparr>"
    obtain q x where x: "m (unlock_part ?l) = (q, x)" by force
    have "unlock_part ?l = v\<lparr>st_active := lk_active ?l, st_listener := lk_listener ?l\<rparr>"
      by (simp add: unlock_part_def lock_acquired_def Let_def)
    with w have sv: "lock_only s (unlock_part ?l)" by simp
    have "runWithLock (lift_lib (br_locks br)) key t
        (\<lambda>l. case m (unlock_part l) of (r, t) \<Rightarrow> (r, lock_part t)) (lock_part s) =
        (q, lock_finally (lift_lib (br_locks br)) key (lock_part x))"
      using v True x by (simp add: runWithLock_def ensuring_def lock_part_def)
    with LegacyLocks run have u: "u = unlock_part (lock_finally (lift_lib (br_locks br)) key (lock_part x))" "q = r"
      by (simp_all add: with_lock_def)
    then have "lock_only x u"
      by (simp add: unlock_part_def lock_finally_def lock_part_def lift_lib_def Let_def)
    with that(2) [OF sv, of x] x u(2) show thesis by blast
  qed
qed

text \<open>A relation that does not look at the lock's own fields does not see \<open>with_lock\<close>.\<close>

lemma with_lock_blind:
  assumes R: "preorder_rel R" and m: "effect R m"
    and w: "\<And>s w. R s (s\<lparr>st_lockWorld := w\<rparr>)" and a: "\<And>s a. R s (s\<lparr>st_active := a\<rparr>)"
    and l: "\<And>s l. R s (s\<lparr>st_listener := l\<rparr>)"
  shows "effect R (with_lock br cfg key t m)"
proof (rule effectI)
  fix s r u assume run: "with_lock br cfg key t m s = (r, u)"
  have trans: "R x z" if "R x y" "R y z" for x y z using that R unfolding preorder_rel_def by blast
  have only: "R x y" if "lock_only x y" for x y
    using that trans [OF trans [OF w a] l] by (auto simp: lock_only_def)
  from run show "R s u"
  proof (cases rule: with_lock_cases)
    case (2 v x)
    from trans [OF trans [OF only [OF 2(1)] effectD [OF m 2(2)]] only [OF 2(3)]] show ?thesis .
  qed (rule only)
qed

section \<open>Calls of the application's API\<close>

definition api_calls :: "('c, 'k, 'w) client_state \<Rightarrow> request list" where
  "api_calls s = concat (map (\<lambda>e. case e of Called r \<Rightarrow> [r] | _ \<Rightarrow> []) (st_log s))"

lemma api_calls_append:
  "api_calls (s\<lparr>st_log := l @ [e]\<rparr>) = api_calls (s\<lparr>st_log := l\<rparr>) @ (case e of Called r \<Rightarrow> [r] | _ \<Rightarrow> [])"
  by (simp add: api_calls_def)

lemma api_calls_other: "\<not> is_Called e \<Longrightarrow> api_calls (s\<lparr>st_log := st_log s @ [e]\<rparr>) = api_calls s"
  by (cases e) (simp_all add: api_calls_def)

interpretation calls: session_frame "frame api_calls" br cfg for br cfg
proof unfold_locales
  show "effect (frame api_calls) (client_send br ClearMsg)"
    by (auto simp: effect_def frame_def client_send_def api_calls_def split: prod.splits)
qed (auto simp: frame_def api_calls_other, simp_all add: api_calls_def)

interpretation calls: client_frame "frame api_calls" br cfg for br cfg
  by unfold_locales (auto intro!: with_lock_blind simp: frame_def api_calls_def)

lemma fetch_adds_call: "api_calls (snd (window_fetch br r s)) = api_calls s @ [r]"
  by (auto simp: window_fetch_def act_simps logged_def world_try_def api_calls_def split: prod.splits sum.splits)

interpretation fetcher: recorded api_calls
    "\<lparr>fc_getAccessToken = None, fc_baseUrl = baseUrl, fc_fetch = window_fetch br, fc_dpopNonceId = i\<rparr>"
    "createFetcher_hooks br cfg i" for baseUrl br i cfg
  using calls.hook_steps [of br cfg i]
  by unfold_locales (simp_all add: fetch_adds_call ft_getAccessToken_def effect_def frame_def)

text \<open>
  C25: one call of a fetcher reaches the API at most twice, the second time only to repeat the call
  with a new DPoP nonce, and every request it sends carries an authorization header.
\<close>

theorem fetcher_calls_bounded:
  "\<exists>rs. api_calls (snd (createFetcher br cfg baseUrl i info init a s)) = api_calls s @ rs \<and>
     length rs \<le> 2 \<and> filter authorized rs = rs"
proof -
  obtain rs where "api_calls (snd (createFetcher br cfg baseUrl i info init a s)) = api_calls s @ rs"
      "length rs \<le> 2" "\<forall>r \<in> set rs. authorized r"
    unfolding createFetcher_def using fetcher.fetch_log_bounded by blast
  moreover from this(3) have "filter authorized rs = rs" by simp
  ultimately show ?thesis by blast
qed

section \<open>Requests to the token endpoint\<close>

text \<open>At most \<open>k\<close> requests to \<open>url\<close>, with whatever options, lead from one world to the other.\<close>

definition network_steps ::
  "('k, 'w) browser \<Rightarrow> string \<Rightarrow> nat \<Rightarrow> ('c, 'k, 'w) client_state \<Rightarrow> ('c, 'k, 'w) client_state \<Rightarrow> bool" where
  "network_steps br url k s t \<longleftrightarrow> (\<exists>sent. length sent \<le> k \<and>
     st_world t = fold (\<lambda>(options, timeout) w. snd (br_network br url options timeout w)) sent (st_world s))"

lemma no_network_step: "st_world t = st_world s \<Longrightarrow> network_steps br url k s t"
  by (auto simp: network_steps_def intro: exI [of _ "[]"])

lemma one_network_step:
  "st_world t = snd (br_network br url options timeout (st_world s)) \<Longrightarrow> network_steps br url (Suc k) s t"
  by (auto simp: network_steps_def intro!: exI [of _ "[(options, timeout)]"])

lemma more_network_steps:
  assumes "network_steps br url j s t" "network_steps br url k t u"
  shows "network_steps br url (j + k) s u"
proof -
  obtain xs ys where "length xs \<le> j" "length ys \<le> k"
      "st_world t = fold (\<lambda>(options, timeout) w. snd (br_network br url options timeout w)) xs (st_world s)"
      "st_world u = fold (\<lambda>(options, timeout) w. snd (br_network br url options timeout w)) ys (st_world t)"
    using assms by (auto simp: network_steps_def)
  then show ?thesis by (auto simp: network_steps_def intro!: exI [of _ "xs @ ys"])
qed

text \<open>The worker answers a message with at most one request, to the URL of the message.\<close>

lemma worker_one_request:
  fixes s :: "('c, 'k, 'w) client_state"
  shows "network_steps br (rm_fetchUrl m) 1 s (snd (client_send br (RefreshMsg m) s))"
proof -
  obtain reply wk w where h: "handle_message (br_parse_url br) (br_network br) (RefreshMsg m) (st_worker s) (st_world s) =
      (reply, wk, w)" by (metis prod_cases3)
  have "w = st_world s \<or> (\<exists>options timeout. w = snd (br_network br (rm_fetchUrl m) options timeout (st_world s)))"
    using h by (auto simp: handle_message_def messageRouter_def messageHandler_def split: if_splits sum.splits prod.splits)
      (metis snd_conv)+
  with h show ?thesis by (auto simp: client_send_def intro: no_network_step one_network_step)
qed

interpretation token_network: counted "network_steps br url" "client_http br cfg" "client_dpop br cfg" url for br url cfg
proof unfold_locales
  show "costs (network_steps br url) 1 (ho_fetch (client_http br cfg) url o1 t)" for o1 t
    by (auto simp: costs_def effect_def client_http_def act_simps logged_def world_def split: prod.split
        intro!: one_network_step [of _ br url o1 t])
next
  show "costs (network_steps br url) 1 (send (RefreshMsg m))"
    if "ho_worker (client_http br cfg) = Some send" "rm_fetchUrl m = url" for send m
    using that worker_one_request [of br m] by (auto simp: costs_def effect_def client_http_def split: if_splits)
next
  show "costs (network_steps br url) 0 (do_generateProof d url mt n) \<and>
      costs (network_steps br url) 0 (do_getNonce d) \<and> costs (network_steps br url) 0 (do_setNonce d x)"
    if "client_dpop br cfg = Some d" for d mt n x
    using that by (auto simp: costs_def effect_def client_dpop_def on_dpop_def zoom_def split: if_splits prod.split
        intro!: no_network_step)
qed (auto intro: no_network_step more_network_steps)

text \<open>
  C34: a token request of the client goes to the token endpoint at most three times, whether the
  page or its worker sends it and however the attempts end, or at most six times with DPoP, where
  a nonce of the server is answered once; nothing else is sent on the way.
\<close>

theorem token_requests_bounded:
  "\<exists>sent. length sent \<le> (if cc_dpop cfg then 6 else 3) \<and>
     st_world (snd (oauthToken (client_http br cfg) (client_dpop br cfg) o1 skip s)) =
       fold (\<lambda>(options, timeout) w. snd (br_network br (te_baseUrl o1 @ ''/oauth/token'') options timeout w))
         sent (st_world s)"
  using cost_oauthToken [OF token_network.counted_axioms, of br o1 cfg skip]
  by (cases "cc_dpop cfg") (simp_all add: costs_def effect_def network_steps_def client_dpop_def)

section \<open>The session is left alone\<close>

definition session_part :: "('c, 'k, 'w) client_state \<Rightarrow> 'c \<times> id_token_entry option \<times> 'w web_state \<times> anon_store" where
  "session_part s = (st_cache s, st_user s, st_web s, st_anon s)"

interpretation isolated: net_frame "frame session_part"
  by unfold_locales (simp_all add: frame_def session_part_def)

text \<open>
  C26: a custom token exchange leaves the session alone: whatever the endpoint answers, the cached
  tokens, the user, the cookies and the anonymous session are what they were; only its caller
  sees the tokens.
\<close>

theorem customTokenExchange_isolated:
  "session_part (snd (customTokenExchange br cfg options s)) = session_part s"
  using isolated.exchange_step [of br cfg options] by (simp add: effect_def frame_def)

section \<open>Only the cache was asked\<close>

text \<open>The log grows by messages that clear the worker only.\<close>

definition quiet :: "('c, 'k, 'w) client_state \<Rightarrow> ('c, 'k, 'w) client_state \<Rightarrow> bool" where
  "quiet s t \<longleftrightarrow> (\<exists>n. st_log t = st_log s @ replicate n (Messaged ClearMsg))"

lemma preorder_quiet: "preorder_rel quiet"
  unfolding preorder_rel_def quiet_def
  by (auto intro: exI [of _ 0]) (metis replicate_add)

interpretation quiet: clear_frame quiet br cfg for br cfg
proof unfold_locales
  show "preorder_rel quiet" by (rule preorder_quiet)
  show "effect quiet (client_send br ClearMsg)"
    by (auto simp: effect_def quiet_def client_send_def intro: exI [of _ 1] split: prod.splits)
qed (auto simp: quiet_def intro: exI [of _ 0])

text \<open>
  C28: \<open>getTokenSilently\<close> with \<open>cacheMode: 'cache-only'\<close>, and the methods that read the user, never
  reach the network: the one message they may send is the one that empties the worker, when the
  session has reached its ceiling.
\<close>

theorem cache_only_quiet:
  "quiet s (snd (getTokenSilently br cfg (Some ''cache-only'') ps timeout s)) \<and>
   quiet s (snd (getUser br cfg s)) \<and> quiet s (snd (getIdTokenClaims br cfg s)) \<and>
   quiet s (snd (isAuthenticated br cfg s))"
proof -
  have "effect quiet (getTokenSilently br cfg (Some ''cache-only'') ps timeout)"
    unfolding getTokenSilently_def getTokenSilently_inner_def silent_options_of_def
    by (auto intro!: effect_intro preorder_quiet split: option.split)
  then show ?thesis
    using quiet.user_step quiet.claims_step quiet.authenticated_step unfolding effect_def by blast
qed

section \<open>The contract of the locks\<close>

text \<open>\<open>held w\<close> are the keys somebody holds.\<close>

definition same_locks :: "('w \<Rightarrow> string set) \<Rightarrow> ('c, 'k, 'w) client_state \<Rightarrow> ('c, 'k, 'w) client_state \<Rightarrow> bool" where
  "same_locks held s t \<longleftrightarrow> held (st_lockWorld t) = held (st_lockWorld s)"

text \<open>
  What the lock libraries promise: \<open>held w\<close> are the keys somebody holds. A request of the Web Locks
  API without \<open>ifAvailable\<close> never answers with \<open>null\<close>.
\<close>

locale client_locks = exclusive_lock "br_locks br" held
  for br :: "('k, 'w) browser" and held :: "'w \<Rightarrow> string set" +
  assumes grant_free: "br_lock_request br key t w = (Granted b, w') \<Longrightarrow>
      b \<and> key \<notin> held w \<and> held w' = insert key (held w)"
    and grant_refused: "br_lock_request br key t w = (g, w') \<Longrightarrow> \<not> (\<exists>b. g = Granted b) \<Longrightarrow> held w' = held w"
    and release_free: "held (br_lock_release br key w) = held w - {key}"
begin

lemma lift_exclusive: "exclusive_lock (lift_lib (br_locks br)) (\<lambda>s. held (st_lockWorld s))"
  by unfold_locales
    (auto simp: lift_lib_def release_held dest: acquire_free acquire_busy split: prod.splits)

lemma lock_keeps:
  assumes m: "effect (same_locks held) m"
  shows "effect (same_locks held) (with_lock br cfg key t m)"
proof (rule effectI)
  fix s r u assume run: "with_lock br cfg key t m s = (r, u)"
  have step: "held (st_lockWorld (snd (m x))) = held (st_lockWorld x)" for x
    using m by (simp add: effect_def same_locks_def)
  show "same_locks held s u"
  proof (cases "cc_lockManager cfg")
    case WebLocks
    obtain g w where g: "br_lock_request br key t (st_lockWorld s) = (g, w)" by force
    show ?thesis
    proof (cases "\<exists>b. g = Granted b")
      case True
      with grant_free [of key t "st_lockWorld s" _ w] g
      have b: "g = Granted True" "key \<notin> held (st_lockWorld s)" "held w = insert key (held (st_lockWorld s))" by auto
      obtain q x where x: "m (s\<lparr>st_lockWorld := w\<rparr>) = (q, x)" by force
      with WebLocks run g b have "u = x\<lparr>st_lockWorld := br_lock_release br key (st_lockWorld x)\<rparr>"
        by (simp add: with_lock_def webRunWithLock_def ensuring_def)
      moreover have "held (st_lockWorld x) = insert key (held (st_lockWorld s))"
        using step [of "s\<lparr>st_lockWorld := w\<rparr>"] x b by simp
      ultimately show ?thesis using b by (simp add: same_locks_def release_free)
    next
      case False
      with grant_refused [OF g] have "held w = held (st_lockWorld s)" by blast
      moreover from False WebLocks run g have "u = s\<lparr>st_lockWorld := w\<rparr>"
        by (cases g) (simp_all add: with_lock_def webRunWithLock_def)
      ultimately show ?thesis by (simp add: same_locks_def)
    qed
  next
    case LegacyLocks
    let ?cb = "\<lambda>l. case m (unlock_part l) of (r, t) \<Rightarrow> (r, lock_part t)"
    have "held (st_lockWorld (lk_world (snd (?cb l)))) = held (st_lockWorld (lk_world l))" for l
      using step [of "unlock_part l"]
      by (cases "m (unlock_part l)") (simp add: lock_part_def, simp add: unlock_part_def)
    from exclusive_lock.run_releases [OF lift_exclusive, of ?cb, OF this, of key t "lock_part s"]
    have "held (st_lockWorld (lk_world (snd (runWithLock (lift_lib (br_locks br)) key t ?cb (lock_part s))))) =
      held (st_lockWorld s)" by (simp add: lock_part_def)
    moreover obtain q l where l: "runWithLock (lift_lib (br_locks br)) key t ?cb (lock_part s) = (q, l)" by force
    with LegacyLocks run have "u = unlock_part l" by (simp add: with_lock_def)
    ultimately show ?thesis using l by (simp add: same_locks_def unlock_part_def)
  qed
qed

end

sublocale client_locks \<subseteq> locks: page_frame "same_locks held" br cfg for cfg
proof unfold_locales
  show "preorder_rel (same_locks held)" by (simp add: preorder_rel_def same_locks_def)
  show "effect (same_locks held) (client_send br ClearMsg)"
    by (auto simp: effect_def same_locks_def client_send_def split: prod.splits)
qed (auto intro: lock_keeps simp: same_locks_def)

interpretation offline_locks: client_locks "offline now" "\<lambda>w. fst ` set w" for now
  using jar_locks_exclusive
  by (auto simp: client_locks_def client_locks_axioms_def offline_def jar_keys split: if_splits)

end
