(* ===== verification/ClientAnonymous.thy ===== *)
theory ClientAnonymous
  imports ClientSafety
begin

text \<open>
  The anonymous session in the client: the contract of \<open>Anonymous\<close> holds of its operations on the
  client's state, so that renewals keep the visitor's identity; and the audience a fetcher asks
  for.
\<close>

section \<open>The client provides the contract\<close>

lemma lock_only_anon: "lock_only s t \<Longrightarrow> st_anon t = st_anon s"
  by (auto simp: lock_only_def)

lemma lock_only_world: "lock_only s t \<Longrightarrow> st_world t = st_world s"
  by (auto simp: lock_only_def)

interpretation client_page: anon_page "client_anon br cfg"
  for br :: "('k, 'w) browser" and cfg :: "('c, 'w) client_config"
proof unfold_locales
  fix key t r u and s :: "('c, 'k, 'w) client_state" and m :: "(('c, 'k, 'w) client_state, js_error, json) act"
  let ?ops = "client_anon br cfg :: ('c, 'k, 'w) client_state anon_ops"
  assume "an_lock ?ops key t m s = (r, u)"
  then have "with_lock br cfg key t m s = (r, u)" by (simp add: client_anon_simps)
  then show "an_read ?ops u = an_read ?ops s \<or>
      (\<exists>v x. an_read ?ops v = an_read ?ops s \<and> an_now ?ops v = an_now ?ops s \<and>
         (\<forall>options tok. fst (an_getAccessToken ?ops options tok v) = fst (an_getAccessToken ?ops options tok s)) \<and>
         m v = (r, x) \<and> an_read ?ops u = an_read ?ops x)"
  proof (cases rule: with_lock_cases)
    case 1
    then show ?thesis by (simp add: client_anon_simps lock_only_anon)
  next
    case (2 v x)
    from lock_only_anon [OF 2(1)] lock_only_world [OF 2(1)] lock_only_anon [OF 2(3)] 2(2) show ?thesis
      by (intro disjI2 exI [of _ v] exI [of _ x])
        (simp add: client_anon_def world_try_def client_now_def split: prod.split)
  qed
qed (auto simp: client_anon_def world_try_def client_now_def effect_def frame_def split: prod.splits)

text \<open>The answer of the service to a renewal.\<close>

definition renewal_answer ::
  "('k, 'w) browser \<Rightarrow> ('c, 'w) client_config \<Rightarrow> anon_options \<Rightarrow> ('c, 'k, 'w) client_state \<Rightarrow> js_error + anon_session" where
  "renewal_answer br cfg options s =
     fst (br_anon_token br options (stored_session_token (cc_anonymous cfg) (st_anon s)) (st_world s))"

lemma client_answer:
  "fst (an_getAccessToken (client_anon br cfg) options (stored_session_token (cc_anonymous cfg) (st_anon s)) s) = renewal_answer br cfg options s"
  by (simp add: client_anon_def world_try_def renewal_answer_def split: prod.split)

text \<open>
  C29: The visitor of an anonymous session stays who they are. The renewal under the lock asks the service when it
  must, and then the session token stays, unless the service declared the session expired or its
  token invalid, when it is dropped and marked expired, or there was none, when the one of the
  answer is kept; any other error changes nothing. \<open>getTokenSilently\<close> of the anonymous client does that or
  nothing to the visitor, and the renewal the client starts by itself when nobody is signed in
  is such a call, or none, and never fails.
\<close>

theorem anonymous_identity_kept:
  "anon_identity (cc_anonymous cfg) (st_anon (snd (anon_renew (client_anon br cfg) (cc_anonymous cfg) options key s))) =
      (if renewal_due (cc_anonymous cfg) key (client_now br s) (st_anon s)
       then renewed_identity (cc_anonymous cfg) (renewal_answer br cfg options s) (st_anon s)
       else anon_identity (cc_anonymous cfg) (st_anon s)) \<and>
   anon_identity (cc_anonymous cfg) (st_anon (snd (anon_getTokenSilently (client_anon br cfg) (cc_anonymous cfg) (cc_clientId cfg) options s))) \<in>
      {anon_identity (cc_anonymous cfg) (st_anon s),
       anon_identity (cc_anonymous cfg) (st_anon (snd (anon_renew (client_anon br cfg) (cc_anonymous cfg) options
         (slot_key (cc_anonymous cfg) (ao_audience options) (ao_scope options)) s)))} \<and>
   maybeCreateAnonymousSession br cfg s \<in>
      {(Inr (), s), (Inr (), snd (anon_getTokenSilently (client_anon br cfg) (cc_anonymous cfg) (cc_clientId cfg)
         \<lparr>ao_audience = None, ao_scope = None\<rparr> s))}"
proof (intro conjI)
  let ?cache = "cc_anonymous cfg" and ?ops = "client_anon br cfg"
  have renew: "anon_identity ?cache (st_anon (snd (anon_renew ?ops ?cache options key s))) =
      (if renewal_due ?cache key (client_now br s) (st_anon s)
       then renewed_identity ?cache (renewal_answer br cfg options s) (st_anon s)
       else anon_identity ?cache (st_anon s))" for key
    using client_page.renew_identity [of ?cache br cfg options key s]
    unfolding client_answer [symmetric] by (simp only: client_anon_simps(1,3))
  then show "anon_identity ?cache (st_anon (snd (anon_renew ?ops ?cache options key s))) =
      (if renewal_due ?cache key (client_now br s) (st_anon s)
       then renewed_identity ?cache (renewal_answer br cfg options s) (st_anon s)
       else anon_identity ?cache (st_anon s))" .
  obtain r t where run: "anon_getTokenSilently ?ops ?cache (cc_clientId cfg) options s = (r, t)" by force
  from client_page.silent_identity [OF this refl]
  show "anon_identity ?cache (st_anon (snd (anon_getTokenSilently ?ops ?cache (cc_clientId cfg) options s))) \<in>
      {anon_identity ?cache (st_anon s), anon_identity ?cache (st_anon (snd (anon_renew ?ops ?cache options
         (slot_key ?cache (ao_audience options) (ao_scope options)) s)))}"
    unfolding renew run client_answer [symmetric] by (simp only: client_anon_simps(1,3)) auto
  show "maybeCreateAnonymousSession br cfg s \<in>
      {(Inr (), s), (Inr (), snd (anon_getTokenSilently ?ops ?cache (cc_clientId cfg) \<lparr>ao_audience = None, ao_scope = None\<rparr> s))}"
    by (auto simp: maybeCreateAnonymousSession_def act_simps split: prod.split sum.split)
qed

section \<open>The audience of a fetcher\<close>

text \<open>
  A fetcher that is called without an audience passes \<open>audience: undefined\<close> on, and the spread
  over the options of the client takes that for the audience: the token it asks for is one for
  the default audience, whatever audience the client was configured with, while its scope is
  still the one of the configured audience.
\<close>

lemma fetcher_forgets_audience:
  assumes "\<And>a. authParams = Some a \<Longrightarrow> ap_audience a = None"
  shows "gt_audience (silent_options_of cfg mode (fetcher_params authParams (Option.bind authParams ap_audience)) timeout)
    = DEFAULT_AUDIENCE"
  using assms
  by (cases authParams) (simp_all add: gt_audience_def silent_options_of_def merged_params_def fetcher_params_def
      opt_str_def map_of_obj_spread str_param_def)

end
