(* ===== verification/ClientCalls.thy ===== *)
theory ClientCalls
  imports ClientSafety Passkey
begin

text \<open>
  The whole public surface of a client: the methods of \<open>PageCalls\<close>, the ones the application may
  pass functions of its own to, and the four clients the constructor hangs on it
  (\<open>anonymous\<close>, \<open>mfa\<close>, \<open>passkey\<close>, \<open>myAccount\<close>). The state is the client's with the signup its
  passkey client keeps pending. None of these methods leaves a lock behind.
\<close>

section \<open>The clients on the client\<close>

text \<open>
  What the passkey client gets: the package's client and \<open>navigator.credentials\<close>, which act on the
  world, and the token request of the client itself.
\<close>

record 'w passkey_lib =
  pl_supported :: bool
  pl_register :: "params \<Rightarrow> 'w \<Rightarrow> (js_error + passkey_challenge) \<times> 'w"
  pl_challenge :: "params option \<Rightarrow> 'w \<Rightarrow> (js_error + passkey_challenge) \<times> 'w"
  pl_create :: "public_key \<Rightarrow> 'w \<Rightarrow> (js_error + credential option) \<times> 'w"
  pl_get :: "public_key \<Rightarrow> 'w \<Rightarrow> (js_error + credential option) \<times> 'w"
  pl_isRetryable :: "js_error \<Rightarrow> bool"

definition client_passkey ::
  "('k, 'w) browser \<Rightarrow> ('c, 'w) client_config \<Rightarrow> 'w passkey_lib \<Rightarrow> ('c, 'k, 'w) client_state passkey_ops" where
  "client_passkey br cfg lib =
     \<lparr>px_supported = pl_supported lib,
      px_register = (\<lambda>options. world_try (pl_register lib options)),
      px_challenge = (\<lambda>options. world_try (pl_challenge lib options)),
      px_create = (\<lambda>publicKey. world_try (pl_create lib publicKey)),
      px_get = (\<lambda>publicKey. world_try (pl_get lib publicKey)),
      px_isRetryable = pl_isRetryable lib,
      px_requestToken = requestTokenForPasskey br cfg\<rparr>"

section \<open>Every method\<close>

datatype anon_call =
    AnonCreateSession anon_options
  | AnonGetTokenSilently anon_options
  | AnonMintTransferToken
  | AnonLogout

datatype mfa_method =
    SetMFAAuthDetails string "string option" "string option" "mfa_requirements option"
  | GetAuthenticators string
  | Enroll enroll_params
  | Challenge challenge_params
  | GetEnrollmentFactors string

datatype passkey_call =
    Signup params
  | ContinueSignup "string obj"
  | PasskeyLogin params
  | GetSignupChallenge params
  | GetLoginChallenge "params option"
  | GetTokenWithPasskey string credential params "string obj option"

datatype account_call =
    ConnectAccountRequest params
  | CompleteAccount params
  | GetFactors
  | GetAuthenticationMethods "string option"
  | GetAuthenticationMethod string
  | DeleteAuthenticationMethod string
  | UpdateAuthenticationMethod string params
  | EnrollmentChallenge params
  | EnrollmentVerify params
  | GetUserProfile "string list option" "bool option"
  | UpdateUserProfile params

text \<open>The methods that take functions of the application come with them.\<close>

datatype 's public_call =
    Method page_call
  | LoginWithRedirectOpen "'s redirect_options"
  | ConnectAccountOpen "'s connect_options"
  | LogoutOpen "'s logout_options"
  | ExchangeToken params
  | GetDpopNonce "string option"
  | SetDpopNonce string "string option"
  | GenerateDpopProof string string "string option" string
  | Anonymous anon_call
  | Mfa mfa_method
  | Passkey passkey_call
  | MyAccount account_call

text \<open>A method whose result the caller gets; only what it does to the state is of interest here.\<close>

abbreviation done_with :: "('s, 'e, 'a) act \<Rightarrow> ('s, 'e, unit) act" where
  "done_with m \<equiv> andNext m (ret ())"

fun run_anon ::
  "('k, 'w) browser \<Rightarrow> ('c, 'w) client_config \<Rightarrow> anon_call \<Rightarrow> (('c, 'k, 'w) client_state, js_error, unit) act" where
  "run_anon br cfg (AnonCreateSession options) = done_with (anon_createSession (client_anon br cfg) (cc_anonymous cfg) options)"
| "run_anon br cfg (AnonGetTokenSilently options) =
     done_with (anon_getTokenSilently (client_anon br cfg) (cc_anonymous cfg) (cc_clientId cfg) options)"
| "run_anon br cfg AnonMintTransferToken = done_with (anon_mintTransferToken (client_anon br cfg) (cc_anonymous cfg))"
| "run_anon br cfg AnonLogout = anon_logout (client_anon br cfg) (cc_anonymous cfg)"

fun run_mfa ::
  "('k, 'w) browser \<Rightarrow> 'w mfa_lib \<Rightarrow> mfa_method \<Rightarrow> (('c, 'k, 'w) client_state, js_error, unit) act" where
  "run_mfa br lib (SetMFAAuthDetails mfaToken scope audience requirements) = setMFAAuthDetails br mfaToken scope audience requirements"
| "run_mfa br lib (GetAuthenticators mfaToken) = done_with (getAuthenticators br lib mfaToken)"
| "run_mfa br lib (Enroll ps) = done_with (mfa_enroll lib ps)"
| "run_mfa br lib (Challenge ps) = done_with (mfa_challenge lib ps)"
| "run_mfa br lib (GetEnrollmentFactors mfaToken) = done_with (getEnrollmentFactors br mfaToken)"

fun run_passkey :: "'s passkey_ops \<Rightarrow> passkey_call \<Rightarrow> ('s passkey_state, js_error, unit) act" where
  "run_passkey ops (Signup options) = done_with (signup ops options)"
| "run_passkey ops (ContinueSignup verification) = done_with (continueSignup ops verification)"
| "run_passkey ops (PasskeyLogin options) = done_with (passkey_login ops options)"
| "run_passkey ops (GetSignupChallenge options) = done_with (getSignupChallenge ops options)"
| "run_passkey ops (GetLoginChallenge options) = done_with (getLoginChallenge ops options)"
| "run_passkey ops (GetTokenWithPasskey authSession credential options verification) =
     done_with (getTokenWithPasskey ops authSession credential options verification)"

fun run_account :: "'s api_fetch \<Rightarrow> string \<Rightarrow> account_call \<Rightarrow> ('s, js_error, unit) act" where
  "run_account fetch apiBase (ConnectAccountRequest ps) = done_with (connectAccount fetch apiBase ps)"
| "run_account fetch apiBase (CompleteAccount ps) = done_with (completeAccount fetch apiBase ps)"
| "run_account fetch apiBase GetFactors = done_with (getFactors fetch apiBase)"
| "run_account fetch apiBase (GetAuthenticationMethods ty) = done_with (getAuthenticationMethods fetch apiBase ty)"
| "run_account fetch apiBase (GetAuthenticationMethod i) = done_with (getAuthenticationMethod fetch apiBase i)"
| "run_account fetch apiBase (DeleteAuthenticationMethod i) = deleteAuthenticationMethod fetch apiBase i"
| "run_account fetch apiBase (UpdateAuthenticationMethod i data) = done_with (updateAuthenticationMethod fetch apiBase i data)"
| "run_account fetch apiBase (EnrollmentChallenge options) = done_with (enrollmentChallenge fetch apiBase options)"
| "run_account fetch apiBase (EnrollmentVerify options) = done_with (enrollmentVerify fetch options)"
| "run_account fetch apiBase (GetUserProfile fieldNames includeFields) = done_with (getUserProfile fetch apiBase fieldNames includeFields)"
| "run_account fetch apiBase (UpdateUserProfile data) = done_with (updateUserProfile fetch apiBase data)"

text \<open>The two packages a client is used with.\<close>

fun run_public ::
  "('k, 'w) browser \<Rightarrow> ('c, 'w) client_config \<Rightarrow> 'w mfa_lib \<Rightarrow> 'w passkey_lib \<Rightarrow> ('c, 'k, 'w) client_state public_call
     \<Rightarrow> (('c, 'k, 'w) client_state passkey_state, js_error, unit) act" where
  "run_public br cfg mfa lib (Method call) = host (done_with (run_call br cfg call))"
| "run_public br cfg mfa lib (LoginWithRedirectOpen options) = host (loginWithRedirect br cfg options)"
| "run_public br cfg mfa lib (ConnectAccountOpen options) = host (done_with (connectAccountWithRedirect br cfg options))"
| "run_public br cfg mfa lib (LogoutOpen options) = host (logout br cfg options)"
| "run_public br cfg mfa lib (ExchangeToken ps) = host (done_with (exchangeToken br cfg ps))"
| "run_public br cfg mfa lib (GetDpopNonce i) = host (done_with (getDpopNonce cfg i))"
| "run_public br cfg mfa lib (SetDpopNonce nonce i) = host (setDpopNonce cfg nonce i)"
| "run_public br cfg mfa lib (GenerateDpopProof url method nonce accessToken) =
     host (done_with (generateDpopProof br cfg url method nonce accessToken))"
| "run_public br cfg mfa lib (Anonymous call) = host (run_anon br cfg call)"
| "run_public br cfg mfa lib (Mfa call) = host (run_mfa br mfa call)"
| "run_public br cfg mfa lib (Passkey call) = run_passkey (client_passkey br cfg lib) call"
| "run_public br cfg mfa lib (MyAccount call) =
     host (run_account (my_account_fetch br cfg) (myAccountApiIdentifier cfg) call)"

text \<open>The functions of the application in a call.\<close>

fun app_steps :: "'s public_call \<Rightarrow> (string \<Rightarrow> ('s, js_error, unit) act) set" where
  "app_steps (LoginWithRedirectOpen options) =
     {f. rd_openUrl options = OpenWith f} \<union> {f. rd_onRedirect options = Some f}"
| "app_steps (ConnectAccountOpen options) = {f. cn_openUrl options = Some f}"
| "app_steps (LogoutOpen options) = {f. lo_openUrl options = OpenWith f} \<union> {f. lo_onRedirect options = Some f}"
| "app_steps _ = {}"

section \<open>What every method keeps\<close>

definition on_client :: "('s \<Rightarrow> 's \<Rightarrow> bool) \<Rightarrow> 's passkey_state \<Rightarrow> 's passkey_state \<Rightarrow> bool" where
  "on_client R s t \<longleftrightarrow> R (fst s) (fst t)"

lemma preorder_on_client: "preorder_rel R \<Longrightarrow> preorder_rel (on_client R)"
  unfolding preorder_rel_def on_client_def by blast

lemma host_step: "effect R m \<Longrightarrow> effect (on_client R) (host m)"
  by (auto simp: effect_def on_client_def host_def zoom_def split: prod.split) (metis snd_conv)

lemma pending_step: "preorder_rel R \<Longrightarrow> effect (on_client R) (set_pending p)"
  by (simp add: preorder_rel_def effect_def on_client_def set_pending_def modify_def)

text \<open>The passkey client, over any operations that keep the relation.\<close>

lemma passkey_effect:
  assumes pre: "preorder_rel R"
    and "\<And>ps. effect R (px_register ops ps)" "\<And>ps. effect R (px_challenge ops ps)"
    and "\<And>k. effect R (px_create ops k)" "\<And>k. effect R (px_get ops k)" "\<And>g. effect R (px_requestToken ops g)"
  shows "effect (on_client R) (run_passkey ops call)"
proof -
  note pre' = preorder_on_client [OF pre]
  note steps = assms(2-6) [THEN host_step] pending_step [OF pre]
  have lifted: "effect (on_client R) (lift_sum x)" for x :: "js_error + 'b"
    unfolding lift_sum_def by (auto intro!: effect_intro pre' split: sum.split)
  have credential: "effect (on_client R) (pending_credential ops p)" for p
    unfolding pending_credential_def by (auto intro!: effect_intro pre' steps split: option.split)
  have continue: "effect (on_client R) (continueSignup ops v)" for v
  proof (rule effectI)
    fix s r t assume run: "continueSignup ops v s = (r, t)"
    have "effect (on_client R) (andNext (set_pending None)
         (andThen (pending_credential ops p) (\<lambda>serialized.
            catching (host (px_requestToken ops (grant_of (ps_authSession p) serialized (pending_params p)
                (ps_scope p) (ps_audience p) (Some (map (\<lambda>(k, v). (k, JStr v)) v)))))
              (\<lambda>e. andNext (case retry_pending ops p serialized e of
                       None \<Rightarrow> ret () | Some p \<Rightarrow> set_pending (Some p)) (throw e)))))" for p
      by (auto intro!: effect_intro pre' steps credential split: option.split)
    from effectD [OF this, of _ s r t] run pre [unfolded preorder_rel_def] show "on_client R s t"
      by (cases "snd s"; cases "missing_codes (the (snd s)) v = []") (simp_all add: continueSignup_def on_client_def)
  qed
  show ?thesis
  proof (cases call)
    case (Signup options)
    then show ?thesis
      by (auto simp: signup_def Let_def intro!: effect_intro pre' steps lifted split: option.split list.split)
  next
    case (PasskeyLogin options)
    then show ?thesis
      by (auto simp: passkey_login_def Let_def intro!: effect_intro pre' steps lifted split: option.split)
  qed (auto simp: getSignupChallenge_def getLoginChallenge_def getTokenWithPasskey_def
      intro!: effect_intro pre' steps lifted continue split: option.split credential_response.split)
qed

lemma account_effect:
  assumes pre: "preorder_rel R" and fetch: "\<And>u init a. effect R (fetch u init a)"
  shows "effect R (run_account fetch apiBase call)"
proof -
  have result: "effect R (ma_result r)" for r
    unfolding ma_result_def by (auto intro!: effect_intro pre split: sum.split)
  have call: "effect R (ma_call fetch u init scope)" for u init scope
    unfolding ma_call_def by (auto intro!: effect_intro pre fetch result)
  have part: "effect R (ma_property k v)" for k v
    unfolding ma_property_def by (auto intro!: effect_intro pre)
  show ?thesis
    by (cases call) (auto simp: connectAccount_def completeAccount_def getFactors_def getAuthenticationMethods_def
        getAuthenticationMethod_def deleteAuthenticationMethod_def updateAuthenticationMethod_def enrollmentChallenge_def
        enrollmentVerify_def getUserProfile_def updateUserProfile_def Let_def
        intro!: effect_intro pre fetch result call part split: option.split)
qed

context page_frame
begin

lemma mfa_effect: "effect R (run_mfa br lib call)"
proof -
  have found: "effect R (mfa_context_of br tok)" for tok
    by (rule effectI) (auto simp: mfa_context_of_def put_mfa split: prod.splits)
  have set: "effect R (setMFAAuthDetails br tok scope audience requirements)" for tok scope audience requirements
    unfolding setMFAAuthDetails_def by (rule effect_modify) (rule put_mfa)
  have call: "effect R (mfa_call f wrap)" for f wrap
    unfolding mfa_call_def by (auto intro!: effect_intro pre split: mfa_outcome.split)
  show ?thesis
    by (cases call) (auto simp: getAuthenticators_def mfa_enroll_def mfa_challenge_def getEnrollmentFactors_def
        intro!: effect_intro pre found set call split: option.split)
qed

lemma public_effect:
  assumes "\<And>f u. f \<in> app_steps call \<Longrightarrow> effect R (f u)"
  shows "effect (on_client R) (run_public br cfg mfa lib call)"
proof (cases call)
  case (Passkey call)
  have "effect (on_client R) (run_passkey (client_passkey br cfg lib) call)"
    by (rule passkey_effect) (auto simp: client_passkey_def intro!: effect_intro pre)
  with Passkey show ?thesis by simp
next
  case (MyAccount call)
  have "effect R (run_account (my_account_fetch br cfg) (myAccountApiIdentifier cfg) call)"
    by (rule account_effect [OF pre my_account_step])
  with MyAccount show ?thesis by (simp add: host_step)
next
  case (Anonymous call)
  have "effect R (anon_mintTransferToken (client_anon br cfg) cache)" for cache
    unfolding anon_mintTransferToken_def client_anon_def by (auto intro!: effect_intro pre)
  then have "effect R (run_anon br cfg call)"
    by (cases call) (auto intro!: effect_intro pre)
  with Anonymous show ?thesis by (simp add: host_step)
next
  case (Mfa call)
  with mfa_effect show ?thesis by (simp add: host_step)
qed (use assms in \<open>auto simp: exchangeToken_def intro!: host_step effect_intro pre run_call_step\<close>)

end

section \<open>No lock is leaked\<close>

context client_locks
begin

lemma public_step:
  assumes "\<And>f u. f \<in> app_steps call \<Longrightarrow> effect (same_locks held) (f u)"
  shows "effect (on_client (same_locks held)) (run_public br cfg mfa lib call)"
  using locks.public_effect assms by blast

end

text \<open>
  C21: whatever happens on the way, no method of the client leaves a lock behind: after the call
  returned or threw, the locks held are those held before it. This is so for every public method
  of the client and of its \<open>anonymous\<close>, \<open>mfa\<close>, \<open>passkey\<close> and \<open>myAccount\<close> clients, those that call
  \<open>runWithLock\<close> nested in one another included, and with any function of the application that is
  called on the way (\<open>openUrl\<close>, \<open>onRedirect\<close>) and leaves none itself.
\<close>

theorem client_leaks_no_lock:
  assumes "client_locks br held"
    and "\<And>f u. f \<in> app_steps call \<Longrightarrow> effect (same_locks held) (f u)"
  shows "on_client (same_locks held) s (snd (run_public br cfg mfa lib call s))"
  using client_locks.public_step [OF assms(1), of call] assms(2) by (blast intro: effect_at)

definition opens_window :: "(unit page_caches, unit, string obj) client_state logout_options" where
  "opens_window = \<lparr>lo_clientId = ClientDefault, lo_logoutParams = [], lo_openUrl = OpenWith (\<lambda>u. logged (Assigned u)), lo_onRedirect = None\<rparr>"

definition offline_mfa :: "string obj mfa_lib" where
  "offline_mfa = \<lparr>ml_list = (\<lambda>_ w. (MfaOther offline_error, w)), ml_enroll = (\<lambda>_ w. (MfaOther offline_error, w)),
     ml_challenge = (\<lambda>_ w. (MfaOther offline_error, w))\<rparr>"

definition offline_passkeys :: "string obj passkey_lib" where
  "offline_passkeys = \<lparr>pl_supported = True, pl_register = (\<lambda>_ w. (Inl offline_error, w)),
     pl_challenge = (\<lambda>_ w. (Inl offline_error, w)), pl_create = (\<lambda>_ w. (Inl offline_error, w)),
     pl_get = (\<lambda>_ w. (Inl offline_error, w)), pl_isRetryable = (\<lambda>_. False)\<rparr>"

theorem client_leaks_no_lock_witness:
  "on_client (same_locks (\<lambda>w. fst ` set w)) (fresh_state, None)
     (snd (run_public (offline 5) (offline_client page_options) offline_mfa offline_passkeys (LogoutOpen opens_window)
       (fresh_state, None)))"
proof (rule client_leaks_no_lock [OF offline_locks.client_locks_axioms])
  fix f and u :: string assume "f \<in> app_steps (LogoutOpen opens_window)"
  then show "effect (same_locks (\<lambda>w. fst ` set w)) (f u)"
    by (auto simp: opens_window_def logged_def effect_def modify_def same_locks_def)
qed

end
