(* ===== verification/ClientSession.thy ===== *)
theory ClientSession
  imports ClientSafety CacheModel
begin

text \<open>
  The life of a session in a client: what ends it (the logout, its ceiling, the login of another
  user) and what is left then.
\<close>

section \<open>The caches of the page\<close>

text \<open>An \<open>ICache\<close> that works on a part of the page keeps the contract of the cache.\<close>

lemma listing_on_part:
  assumes "listing_cache ic ok keys" and part: "\<And>c p. get (put c p) = c"
  shows "listing_cache (on_part get put ic) ok (\<lambda>p. keys (get p))"
  using assms(1) unfolding listing_cache_def listing_cache_axioms_def cache_laws_def
  by (simp add: on_part_def part)

interpretation page_memory: listing_cache "on_part pc_memory (\<lambda>c p. p\<lparr>pc_memory := c\<rparr>) InMemoryCache"
    "\<lambda>_. True" "\<lambda>p. obj_keys (pc_memory p)"
  by (rule listing_on_part [OF mem.listing_cache_axioms]) simp

interpretation page_local: listing_cache "on_part pc_local (\<lambda>c p. p\<lparr>pc_local := c\<rparr>) LocalStorageCache"
    cacheable_wf "\<lambda>p. ls_allKeys (pc_local p)"
  by (rule listing_on_part [OF ls.listing_cache_axioms]) simp

section \<open>No entry of a client\<close>

definition no_entries :: "'c cache_manager \<Rightarrow> string \<Rightarrow> 'c \<Rightarrow> bool" where
  "no_entries m clientId c \<longleftrightarrow>
     (\<forall>j. prefix CACHE_KEY_PREFIX j \<longrightarrow> str_includes j clientId \<longrightarrow> ic_get (cm_cache m) c j = None)"

lemma fromKey_includes: "ck_clientId (fromKey j) = Some cid \<Longrightarrow> str_includes j cid"
proof -
  assume "ck_clientId (fromKey j) = Some cid"
  then have "cid \<in> set (split_str ''::'' j)"
    by (auto simp: fromKey_def nth_opt_def Let_def split: if_splits)
  then show ?thesis using str_includes_join [of cid _ "''::''"] join_split_str [of "''::''" j] by fastforce
qed

lemma no_entries_get:
  assumes "no_entries m cid c"
  shows "cm_get m now (new_CacheKey (Some cid) scope audience) adj mrrt mode c = (None, c)"
proof -
  let ?k = "new_CacheKey (Some cid) scope audience"
  have k: "ck_clientId ?k = Some cid" by (simp add: new_CacheKey_def)
  have none: "ic_get (cm_cache m) c j = None"
    if "ck_prefix (fromKey j) = CACHE_KEY_PREFIX" "ck_clientId (fromKey j) = Some cid" for j
    using assms fromKey_prefix [OF that(1)] fromKey_includes [OF that(2)] by (simp add: no_entries_def)
  have "getEntryWithRefreshToken m ?k keys c = None" for keys
    by (induction keys) (auto simp: none k Let_def)
  moreover have "Option.bind (matchExistingCacheKey ?k keys) (ic_get (cm_cache m) c) = None" for keys
    using matchExistingCacheKey_Some(2) [of ?k keys]
    by (cases "matchExistingCacheKey ?k keys") (auto simp: none k key_matches_def Let_def)
  moreover have "ic_get (cm_cache m) c (toKey ?k) = None"
    using assms by (simp add: no_entries_def client_keys)
  ultimately show ?thesis by (simp add: cm_get_def Let_def split: option.split)
qed

lemma no_entries_id_token:
  assumes "no_entries m cid c"
  shows "cm_getIdToken m now (new_CacheKey (Some cid) scope audience) c = (None, c)"
proof -
  have "ck_clientId (new_CacheKey (Some cid) scope audience) = Some cid" by (simp add: new_CacheKey_def)
  moreover have "ic_get (cm_cache m) c (getIdTokenCacheKey (Some cid)) = None"
    using assms by (simp add: no_entries_def client_keys)
  ultimately show ?thesis using no_entries_get [OF assms] by (simp add: cm_getIdToken_def)
qed

context listing_cache
begin

lemma no_entries_cleared:
  assumes "cm_cache m = ic" "cm_keyManifest m = None"
  shows "no_entries m cid (cm_clear m (Some cid) c)"
  unfolding no_entries_def
proof (intro allI impI)
  fix j assume j: "prefix CACHE_KEY_PREFIX j" "str_includes j cid"
  with view_clear [OF assms, of "Some cid" c] have "sdk_view ic (cm_clear m (Some cid) c) j = None" by simp
  with j assms show "ic_get (cm_cache m) (cm_clear m (Some cid) c) j = None" by (simp add: sdk_view_def)
qed

end

section \<open>Ending a session\<close>

definition web_cleared :: "('c, 'w) client_config \<Rightarrow> 'w web_state \<Rightarrow> 'w web_state" where
  "web_cleared cfg w =
     (let o1 = \<lparr>so_daysUntilExpire = None, so_cookieDomain = co_cookieDomain (cc_options cfg)\<rparr>
      in cs_remove (cc_cookieStorage cfg) (cc_isAuthenticatedCookieName cfg) o1
           (cs_remove (cc_cookieStorage cfg) (cc_orgHintCookieName cfg) o1 w))"

text \<open>What is left after it.\<close>

definition logged_out :: "('c, 'w) client_config \<Rightarrow> ('c, 'k, 'w) client_state \<Rightarrow> bool" where
  "logged_out cfg t \<longleftrightarrow> st_user t = None \<and> no_entries (cc_manager cfg) (cc_clientId cfg) (st_cache t) \<and>
     cs_get (cc_cookieStorage cfg) (cc_isAuthenticatedCookieName cfg) (st_web t) = Inr None \<and>
     cs_get (cc_cookieStorage cfg) (cc_orgHintCookieName cfg) (st_web t) = Inr None \<and>
     (cc_worker cfg \<longrightarrow> wk_refreshTokens (st_worker t) = [])"

lemma clearLocalSession_returns:
  fixes s :: "('c, 'k, 'w) client_state"
  shows "\<exists>t. clearLocalSession br cfg ClientDefault s = (Inr (), t) \<and> st_user t = None \<and>
     st_cache t = cm_clear (cc_manager cfg) (Some (cc_clientId cfg)) (st_cache s) \<and>
     st_web t = web_cleared cfg (st_web s) \<and> (cc_worker cfg \<longrightarrow> wk_refreshTokens (st_worker t) = []) \<and>
     st_world t = st_world s"
proof -
  obtain r d where d: "dp_clear (cc_clientId cfg) (st_dpop s) = (r, d)" by force
  have dpop: "andNext (catching (on_dpop (dp_clear (cc_clientId cfg))) (\<lambda>_. ret ())) n u = n (u\<lparr>st_dpop := d\<rparr>)"
    if "st_dpop u = st_dpop s" for n :: "(('c, 'k, 'w) client_state, js_error, unit) act" and u
    using d that by (cases r) (simp_all add: on_dpop_def act_simps)
  have send: "catching (andNext (client_send br ClearMsg) (ret ())) (\<lambda>_. ret ()) u =
      (Inr (), u\<lparr>st_worker := (st_worker u)\<lparr>wk_refreshTokens := []\<rparr>, st_log := st_log u @ [Messaged ClearMsg]\<rparr>)"
    for u :: "('c, 'k, 'w) client_state"
    by (simp add: act_simps client_send_def handle_message_def messageRouter_def sendMessage_result_def)
  have cache: "andNext (on_cache (\<lambda>c. ((), f c))) n u = n (u\<lparr>st_cache := f (st_cache u)\<rparr>)"
    for f and n :: "(('c, 'k, 'w) client_state, js_error, unit) act" and u
    by (simp add: on_cache_def andNext_def andThen_def)
  have web: "andNext (on_web f) n u = n (u\<lparr>st_web := f (st_web u)\<rparr>)"
    for f and n :: "(('c, 'k, 'w) client_state, js_error, unit) act" and u
    by (simp add: on_web_def)
  have skip: "andNext (ret ()) n u = n u" for n :: "(('c, 'k, 'w) client_state, js_error, unit) act" and u
    by (simp add: andNext_def)
  show ?thesis
    by (cases "cc_dpop cfg"; cases "cc_worker cfg")
      (simp_all add: clearLocalSession_def cache web skip dpop send web_cleared_def Let_def)
qed

text \<open>The cookies of the client and the domain it sets them with.\<close>

locale session_store =
  cache: listing_cache "cm_cache (cc_manager cfg)" ok keys +
  web: storage_laws "cc_cookieStorage cfg" "co_cookieDomain (cc_options cfg)"
  for cfg :: "('c, 'w) client_config" and ok :: "cacheable \<Rightarrow> bool" and keys :: "'c \<Rightarrow> string list" +
  assumes no_manifest: "cm_keyManifest (cc_manager cfg) = None"
    and cookies_apart: "apart (cc_isAuthenticatedCookieName cfg) (cc_orgHintCookieName cfg)"
begin

lemma cleared: "logged_out cfg (snd (clearLocalSession br cfg ClientDefault s))"
proof -
  obtain t where t: "clearLocalSession br cfg ClientDefault s = (Inr (), t)" "st_user t = None"
      "st_cache t = cm_clear (cc_manager cfg) (Some (cc_clientId cfg)) (st_cache s)"
      "st_web t = web_cleared cfg (st_web s)" "cc_worker cfg \<longrightarrow> wk_refreshTokens (st_worker t) = []"
    using clearLocalSession_returns by blast
  have "no_entries (cc_manager cfg) (cc_clientId cfg) (st_cache t)"
    using t(3) cache.no_entries_cleared [OF refl no_manifest] by simp
  moreover have "cs_get (cc_cookieStorage cfg) (cc_isAuthenticatedCookieName cfg) (web_cleared cfg w) = Inr None"
    "cs_get (cc_cookieStorage cfg) (cc_orgHintCookieName cfg) (web_cleared cfg w) = Inr None" for w
    using cookies_apart by (simp_all add: web_cleared_def web.get_remove web.remove_frame Let_def)
  ultimately show ?thesis using t by (simp add: logged_out_def)
qed

end

text \<open>Nobody is signed in then.\<close>

lemma logged_out_user:
  assumes "logged_out cfg t"
  shows "fst (getUser br cfg t) = Inr None" "fst (getIdTokenClaims br cfg t) = Inr None"
    "fst (isAuthenticated br cfg t) = Inr False"
proof -
  from assms have u: "st_user t = None" and n: "no_entries (cc_manager cfg) (cc_clientId cfg) (st_cache t)"
    by (simp_all add: logged_out_def)
  have ceiling: "isSessionCeilingReached br cfg t = (Inr False, t)"
    using u no_entries_id_token [OF n]
    by (simp add: isSessionCeilingReached_def andThen_def on_cache_def entry_claim_def)
  have id: "getIdTokenFromCache br cfg t = (Inr None, t)"
    using u no_entries_id_token [OF n] by (simp add: getIdTokenFromCache_def Let_def)
  show user: "fst (getUser br cfg t) = Inr None"
    by (simp add: getUser_def andThen_def ceiling id)
  show "fst (getIdTokenClaims br cfg t) = Inr None"
    by (simp add: getIdTokenClaims_def andThen_def ceiling id)
  from user show "fst (isAuthenticated br cfg t) = Inr False"
    by (cases "getUser br cfg t") (simp add: isAuthenticated_def andThen_def)
qed

text \<open>Nor is there a token in the cache.\<close>

lemma logged_out_token:
  assumes "logged_out cfg t"
  shows "fst (getTokenSilently br cfg (Some ''cache-only'') ps timeout t) = Inr None"
proof -
  from assms have u: "st_user t = None" and n: "no_entries (cc_manager cfg) (cc_clientId cfg) (st_cache t)"
    by (simp_all add: logged_out_def)
  have ceiling: "isSessionCeilingReached br cfg t = (Inr False, t)"
    using u no_entries_id_token [OF n]
    by (simp add: isSessionCeilingReached_def andThen_def on_cache_def entry_claim_def)
  have "getEntryFromCache br cfg scope audience mode t = (Inr None, t)" for scope audience mode
    using no_entries_get [OF n] by (simp add: getEntryFromCache_def andThen_def client_get_def on_cache_def)
  then show ?thesis
    by (simp add: getTokenSilently_def getTokenSilently_inner_def silent_options_of_def andThen_def ceiling)
qed

section \<open>The ceiling\<close>

definition past_ceiling :: "('k, 'w) browser \<Rightarrow> ('c, 'k, 'w) client_state \<Rightarrow> int \<Rightarrow> bool" where
  "past_ceiling br s x \<longleftrightarrow> x - SESSION_EXPIRY_LEEWAY_SECONDS \<le> client_now br s div 1000"

text \<open>The user the page knows: the one in memory, or after a reload the one of the cached id token.\<close>

definition known_user :: "('c, 'w) client_config \<Rightarrow> ('c, 'k, 'w) client_state \<Rightarrow> id_token_entry option" where
  "known_user cfg s = (case st_user s of
     Some i \<Rightarrow> Some i
   | None \<Rightarrow> (case ic_get (cm_cache (cc_manager cfg)) (st_cache s) (getIdTokenCacheKey (Some (cc_clientId cfg))) of
       Some (IdTok i) \<Rightarrow> Some i | _ \<Rightarrow> None))"

lemma ceiling_known:
  assumes "entry_claim (known_user cfg s) ''session_expiry'' = Some (JNum x)"
  shows "isSessionCeilingReached br cfg s =
    (if past_ceiling br s x then (Inr True, snd (clearLocalSession br cfg ClientDefault s)) else (Inr False, s))"
proof -
  from assms obtain i where i: "known_user cfg s = Some i" by (auto simp: entry_claim_def bind_eq_Some_conv)
  have read: "(case st_user s of
         Some i \<Rightarrow> (Inr (Some i), s)
       | None \<Rightarrow> on_cache (cm_getIdToken (cc_manager cfg) (client_now br s)
                   (new_CacheKey (Some (cc_clientId cfg)) None None)) s) = (Inr (Some i), s)"
    using i by (cases s) (auto simp: known_user_def on_cache_def cm_getIdToken_def new_CacheKey_def
        split: option.splits cacheable.splits)
  obtain t where "clearLocalSession br cfg ClientDefault s = (Inr (), t)"
    using clearLocalSession_returns [of br cfg s] by blast
  with assms i read show ?thesis
    by (simp add: isSessionCeilingReached_def past_ceiling_def andThen_def andNext_def as_number_def Let_def)
qed

lemma ceiling_check:
  assumes "entry_claim (st_user s) ''session_expiry'' = Some (JNum x)"
  shows "isSessionCeilingReached br cfg s =
    (if past_ceiling br s x then (Inr True, snd (clearLocalSession br cfg ClientDefault s)) else (Inr False, s))"
proof (rule ceiling_known)
  from assms obtain i where "st_user s = Some i" by (auto simp: entry_claim_def bind_eq_Some_conv)
  with assms show "entry_claim (known_user cfg s) ''session_expiry'' = Some (JNum x)" by (simp add: known_user_def)
qed

text \<open>
  C7: When the ceiling of the session (\<open>session_expiry\<close>, less thirty seconds) has passed, no method
  hands out a user or a token any more: the first one that is called ends the session, with the
  entries of the client, its cookies and the tokens of the worker gone. The ceiling is the one of
  the user in memory or, on a page that was just loaded, of the id token in the cache. Until then
  the check changes nothing.
\<close>

theorem ceiling_ends_session:
  assumes "session_store cfg ok keys" and "entry_claim (known_user cfg s) ''session_expiry'' = Some (JNum x)"
  shows "if past_ceiling br s x
    then fst (getUser br cfg s) = Inr None \<and> fst (getIdTokenClaims br cfg s) = Inr None \<and>
      fst (isAuthenticated br cfg s) = Inr False \<and> fst (getTokenSilently br cfg mode ps timeout s) = Inr None \<and>
      logged_out cfg (snd (getUser br cfg s)) \<and> logged_out cfg (snd (getTokenSilently br cfg mode ps timeout s))
    else isSessionCeilingReached br cfg s = (Inr False, s)"
proof (cases "past_ceiling br s x")
  case True
  with ceiling_known [OF assms(2)]
  have c: "isSessionCeilingReached br cfg s = (Inr True, snd (clearLocalSession br cfg ClientDefault s))" by simp
  have "getUser br cfg s = (Inr None, snd (clearLocalSession br cfg ClientDefault s))"
    "getIdTokenClaims br cfg s = (Inr None, snd (clearLocalSession br cfg ClientDefault s))"
    "getTokenSilently br cfg mode ps timeout s = (Inr None, snd (clearLocalSession br cfg ClientDefault s))"
    by (simp_all add: getUser_def getIdTokenClaims_def getTokenSilently_def getTokenSilently_inner_def andThen_def c)
  with True session_store.cleared [OF assms(1), of br s] show ?thesis by (simp add: isAuthenticated_def andThen_def)
qed (use ceiling_known [OF assms(2)] in simp)

section \<open>Configurations of the constructor\<close>

text \<open>Every client that the constructor makes over a cache that lists its keys has such a store.\<close>

lemma built_store:
  assumes "listing_cache cache ok keys" and "cookie_laws (pf_cookies page) (co_cookieDomain options)"
  shows "session_store (build_config page locks options online cache location) ok keys"
proof -
  let ?cfg = "build_config page locks options online cache location"
  have cfg: "cm_cache (cc_manager ?cfg) = cache" "co_cookieDomain (cc_options ?cfg) = co_cookieDomain options"
    "cc_cookieStorage ?cfg = (if co_legacySameSiteCookie options = Some False
       then CookieStorage (pf_cookies page) (pf_https page)
       else CookieStorageWithLegacySameSite (pf_cookies page) (pf_https page))"
    by (simp_all add: build_config_def new_CacheManager_def merge_options_def Let_def)
  have "storage_laws (cc_cookieStorage ?cfg) (co_cookieDomain (cc_options ?cfg))"
    using cookie_laws.cookie_storage [OF assms(2)] cookie_laws.legacy_storage [OF assms(2)] by (simp add: cfg)
  moreover have "cm_keyManifest (cc_manager ?cfg) = None"
    using listing_cache.allKeys [OF assms(1)] by (simp add: build_config_def new_CacheManager_def Let_def)
  moreover have "apart (cc_isAuthenticatedCookieName ?cfg) (cc_orgHintCookieName ?cfg)"
    by (simp add: apart_def build_config_def buildIsAuthenticatedCookieName_def buildOrganizationHintCookieName_def
        LEGACY_PREFIX_def Let_def)
  ultimately show ?thesis using assms(1) by (simp add: session_store_def session_store_axioms_def cfg)
qed

interpretation offline_session: session_store "offline_client options" "\<lambda>_. True" "\<lambda>p. obj_keys (pc_memory p)"
  for options
  unfolding offline_client_def
  by (rule built_store [OF page_memory.listing_cache_axioms]) (simp add: offline_page_def jar.cookie_laws_axioms)

text \<open>A user whose session ends in the hundredth second.\<close>

definition sample_user :: "int \<Rightarrow> id_token_entry" where
  "sample_user x = \<lparr>ide_id_token = Some ''id'', ide_decodedToken = Some
     \<lparr>dt_claims = [(''sub'', JStr ''alice''), (''session_expiry'', JNum x)], dt_user = [(''sub'', JStr ''alice'')]\<rparr>\<rparr>"

text \<open>A page loaded again: the user is in the cache only.\<close>

definition reloaded :: "(unit page_caches, unit, string obj) client_state" where
  "reloaded = fresh_state\<lparr>st_cache := \<lparr>pc_memory = [(''@@auth0spajs@@::client::@@user@@'', IdTok (sample_user 100))],
      pc_local = [], pc_custom = ()\<rparr>\<rparr>"

theorem ceiling_ends_session_witness:
  "fst (getUser (offline 70000) (offline_client page_options) reloaded) = Inr None \<and>
   logged_out (offline_client page_options) (snd (getUser (offline 70000) (offline_client page_options) reloaded)) \<and>
   st_user reloaded = None \<and> pc_memory (st_cache reloaded) \<noteq> []"
proof -
  let ?cfg = "offline_client page_options :: (unit page_caches, string obj) client_config"
  have store: "session_store ?cfg (\<lambda>_. True) (\<lambda>p. obj_keys (pc_memory p))"
    by (rule offline_session.session_store_axioms)
  have "getIdTokenCacheKey (Some (cc_clientId ?cfg)) = ''@@auth0spajs@@::client::@@user@@''" by code_simp
  moreover have "ic_get (cm_cache (cc_manager ?cfg)) c = map_of (pc_memory c)" for c
    by (simp add: offline_client_def build_config_def new_CacheManager_def on_part_def InMemoryCache_def Let_def fun_eq_iff)
  ultimately have "known_user ?cfg reloaded = Some (sample_user 100)"
    by (simp add: known_user_def reloaded_def fresh_state_def)
  then have "entry_claim (known_user ?cfg reloaded) ''session_expiry'' = Some (JNum 100)"
    by (simp add: entry_claim_def sample_user_def)
  moreover have "past_ceiling (offline 70000) reloaded 100"
    by (simp add: past_ceiling_def client_now_def offline_def SESSION_EXPIRY_LEEWAY_SECONDS_def)
  ultimately show ?thesis
    using ceiling_ends_session [OF store, of reloaded 100 "offline 70000" None "[]" None]
    by (simp add: reloaded_def fresh_state_def)
qed

section \<open>Logout\<close>

text \<open>
  C3: After a logout with the client id of the client, that the application does not take over with an \<open>openUrl\<close> of its own, whatever
  was cached before (in a cache that lists its keys), nobody is signed in and no token of the client is left: not in the cache,
  not in the worker, not in the cookies that start a silent login.
\<close>

theorem logout_ends_session:
  assumes "session_store cfg ok keys" and "lo_clientId options = ClientDefault"
    and "\<And>f. patchOpenUrlWithOnRedirect (lo_openUrl options) (lo_onRedirect options) \<noteq> OpenWith f"
    and "t = snd (logout br cfg options s)"
  shows "logged_out cfg t \<and> fst (getUser br cfg t) = Inr None \<and> fst (isAuthenticated br cfg t) = Inr False \<and>
     fst (getTokenSilently br cfg (Some ''cache-only'') ps timeout t) = Inr None"
proof -
  obtain u where u: "clearLocalSession br cfg ClientDefault s = (Inr (), u)"
    using clearLocalSession_returns [of br cfg s] by blast
  with session_store.cleared [OF assms(1), of br s] have out: "logged_out cfg u" by simp
  from assms(3) have "\<forall>f. patchOpenUrlWithOnRedirect (lo_openUrl options) (lo_onRedirect options) \<noteq> OpenWith f"
    by blast
  then have "t = u \<or> (\<exists>e. t = u\<lparr>st_log := st_log u @ [e]\<rparr>)"
    using assms(4) u
    by (cases "patchOpenUrlWithOnRedirect (lo_openUrl options) (lo_onRedirect options)")
      (auto simp: logout_def andNext_def andThen_def assms(2) logged_def Let_def)
  with out have t: "logged_out cfg t" by (auto simp: logged_out_def)
  with logged_out_user [OF t] logged_out_token [OF t] show ?thesis by blast
qed

theorem logout_ends_session_witness:
  "fst (getUser (offline 5) (offline_client page_options) (snd (logout (offline 5) (offline_client page_options)
      logout_silently (fresh_state\<lparr>st_user := Some (sample_user 100)\<rparr>)))) = Inr None"
proof -
  let ?s = "fresh_state\<lparr>st_user := Some (sample_user 100)\<rparr>"
  have "session_store (offline_client page_options) (\<lambda>_. True) (\<lambda>p. obj_keys (pc_memory p))"
    by (rule offline_session.session_store_axioms)
  moreover have "lo_clientId (logout_silently :: (unit page_caches, unit, string obj) client_state logout_options) = ClientDefault"
    by (simp add: logout_silently_def)
  moreover have "patchOpenUrlWithOnRedirect (lo_openUrl logout_silently) (lo_onRedirect logout_silently) \<noteq> OpenWith f"
    for f :: "string \<Rightarrow> ((unit page_caches, unit, string obj) client_state, js_error, unit) act"
    by (simp add: patchOpenUrlWithOnRedirect_def logout_silently_def)
  ultimately show ?thesis using logout_ends_session [of _ _ _ logout_silently _ "offline 5" ?s] by blast
qed

end
