(* ===== verification/OnlinePage.thy ===== *)
theory OnlinePage
  imports OfflinePage
begin

text \<open>
  The page of \<open>OfflinePage\<close> with a token endpoint that answers every request with the same access
  token and an id token for one user: for the witnesses that need a login to succeed.
\<close>

definition issued :: "json obj \<Rightarrow> string" where
  "issued claims = join ''.'' [jwt_part (stringify (JObj [(''alg'', JStr ''RS256'')])),
     jwt_part (stringify (JObj claims)), ''sig'']"

definition user_claims :: "string \<Rightarrow> string \<Rightarrow> json obj" where
  "user_claims sub nonce = [(''iss'', JStr ''https://tenant.example/''), (''sub'', JStr sub), (''aud'', JStr ''client''),
     (''nonce'', JStr nonce), (''iat'', JNum 1), (''exp'', JNum 100000)]"

definition token_result :: "json obj \<Rightarrow> json obj" where
  "token_result claims = [(''access_token'', JStr ''at''), (''id_token'', JStr (issued claims)), (''expires_in'', JNum 3600)]"

definition serving :: "int \<Rightarrow> bool \<Rightarrow> json obj \<Rightarrow> (unit, string obj) browser" where
  "serving now success result = (offline now)\<lparr>br_network := (\<lambda>_ _ _ w. (Response
     \<lparr>rr_status = if success then 200 else 403, rr_ok = success, rr_headers = [], rr_text = stringify (JObj result)\<rparr>, w))\<rparr>"

definition online :: "int \<Rightarrow> json obj \<Rightarrow> (unit, string obj) browser" where
  "online now claims = serving now True (token_result claims)"

definition decoded_claims :: "json obj \<Rightarrow> jwt_decoded" where
  "decoded_claims claims =
     \<lparr>jd_encoded = (jwt_part (stringify (JObj [(''alg'', JStr ''RS256'')])), jwt_part (stringify (JObj claims)), ''sig''),
      jd_header = JObj [(''alg'', JStr ''RS256'')], jd_claims = obj_spread [(''__raw'', JStr (issued claims))] claims,
      jd_user = filter (\<lambda>(k, v). k \<notin> set idTokendecoded) claims\<rparr>"

lemma serving_simps:
  "br_now (serving now success result) = (\<lambda>_. now)"
  "br_show_date (serving now success result) = br_show_date (offline now)"
  by (simp_all add: serving_def offline_def)

lemma decode_issued: "json_wf (JObj claims) \<Longrightarrow> jwt_decode (issued claims) = Inr (decoded_claims claims)"
  using jwt_decode_token [of "JObj [(''alg'', JStr ''RS256'')]" claims "''sig''" "issued claims"]
  by (simp add: issued_def decoded_claims_def)

lemma serving_oauth:
  assumes "json_wf (JObj result)" and "response_data result = result" and "\<not> cc_worker cfg"
  shows "oauthToken (client_http (serving now True result) cfg) None o1 skip s =
     (Inr result, s\<lparr>st_log := st_log s @ [Fetched (te_baseUrl o1 @ ''/oauth/token'')]\<rparr>)"
proof -
  have "json_parse (stringify (JObj result)) = Some (JObj result)"
    by (rule json_parse_stringify [OF assms(1)])
  then show ?thesis
    using assms(2,3)
    by (simp add: oauthToken_def getJSON.simps with_proof_def switchFetch_def client_http_def fetchWithoutWorker_def
        fetchWithTimeout_def world_def logged_def handle_response_def own_properties.simps
        DEFAULT_SILENT_TOKEN_RETRY_COUNT_def act_simps serving_def Let_def numeral_eq_Suc)
qed

lemma online_oauth:
  assumes "json_wf (JObj (token_result claims))" and "\<not> cc_worker cfg"
  shows "oauthToken (client_http (online now claims) cfg) None o1 skip s =
     (Inr (token_result claims), s\<lparr>st_log := st_log s @ [Fetched (te_baseUrl o1 @ ''/oauth/token'')]\<rparr>)"
  unfolding online_def using assms by (intro serving_oauth) (simp_all add: response_data_def token_result_def)

lemma serving_verify:
  assumes "json_wf (JObj (user_claims sub nonce))" and "sub \<noteq> []" and "n \<in> {None, Some nonce}"
    and "0 \<le> now" "now \<le> 100000000"
  shows "verifyIdToken (serving now success result) (offline_client page_options)
      (Some (issued (user_claims sub nonce))) n None None s = (Inr (decoded_claims (user_claims sub nonce)), s)"
proof -
  have cfg: "cc_tokenIssuer (offline_client page_options) = ''https://tenant.example/''"
    "cc_clientId (offline_client page_options) = ''client''" "co_leeway (cc_options (offline_client page_options)) = None"
    "map_of (cc_params (offline_client page_options)) ''max_age'' = None"
    by (code_simp, code_simp, code_simp, code_simp)
  have "issued (user_claims sub nonce) \<noteq> []" by (simp add: issued_def)
  with decode_issued [OF assms(1)] show ?thesis
    using assms(2-)
    by (auto simp: verifyIdToken_def verify_def verify_claims_def cfg client_now_def serving_simps parseNumber_def
        decoded_claims_def user_claims_def verify_aud_def verify_nonce_def verify_times_def exp_failed_def
        nbf_failed_def auth_time_failed_def date_less_def utc_seconds_def time_clip_def claim_num_def or_number_def
        idTokendecoded_def json_get_def json_truthy_def json_nullish_def json_is_num_def Let_def)
qed

end
