(* ===== verification/UserSwitch.thy ===== *)
theory UserSwitch
  imports ClientSession OnlinePage
begin

text \<open>
  What the client keeps when another user logs in: nothing of the first one's.
\<close>

section \<open>The cached tokens through a token request\<close>

definition cached_session :: "('c, 'k, 'w) client_state \<Rightarrow> 'c \<times> id_token_entry option" where
  "cached_session s = (st_cache s, st_user s)"

interpretation cached: net_frame "frame cached_session"
  by unfold_locales (simp_all add: frame_def cached_session_def)

lemma cached_oauth:
  "oauthToken (client_http br cfg) (client_dpop br cfg) o1 skip s = (r, t) \<Longrightarrow>
     st_cache t = st_cache s \<and> st_user t = st_user s"
  using effectD [OF cached.oauth_step] by (fastforce simp: frame_def cached_session_def)

lemma id_token_found:
  assumes "ic_get (cm_cache (cc_manager cfg)) (st_cache s) (getIdTokenCacheKey (Some (cc_clientId cfg))) = Some (IdTok i)"
    and "ide_id_token i = Some tok" and "st_user s \<in> {None, Some i}"
  shows "getIdTokenFromCache br cfg s = (Inr (Some i), s\<lparr>st_user := Some i\<rparr>)"
  using assms
  by (cases s) (auto simp: getIdTokenFromCache_def cm_getIdToken_def new_CacheKey_def Let_def)

text \<open>The login of another user drops what was cached, of the client's entries all.\<close>

lemma check_user_other:
  assumes "session_store cfg ok keys"
    and "ic_get (cm_cache (cc_manager cfg)) (st_cache s) (getIdTokenCacheKey (Some (cc_clientId cfg))) = Some (IdTok i)"
    and "ide_id_token i = Some tok" "st_user s \<in> {None, Some i}"
    and "entry_claim (Some i) ''sub'' = Some (JStr u)" "u \<noteq> []" "map_of (jd_claims d) ''sub'' \<noteq> Some (JStr u)"
  shows "\<exists>t. check_user br cfg d s = (Inr (), t) \<and> no_entries (cc_manager cfg) (cc_clientId cfg) (st_cache t)"
proof -
  from id_token_found [OF assms(2-4)]
  have e: "getIdTokenFromCache br cfg s = (Inr (Some i), s\<lparr>st_user := Some i\<rparr>)" .
  have "no_entries (cc_manager cfg) (cc_clientId cfg) (cm_clear (cc_manager cfg) (Some (cc_clientId cfg)) (st_cache s))"
    using session_store.axioms(1) [OF assms(1)] session_store.no_manifest [OF assms(1)]
    by (intro listing_cache.no_entries_cleared) simp_all
  with e assms(5-7) show ?thesis
    by (simp add: check_user_def andThen_def andNext_def on_cache_def json_truthy_def)
qed

lemma carry_empty:
  assumes "no_entries (cc_manager cfg) (cc_clientId cfg) (st_cache s)"
  shows "\<exists>r'. carry_refresh_token br cfg options scope r s = (Inr r', s)"
  using no_entries_get [OF assms]
  by (auto simp: carry_refresh_token_def andThen_def client_get_def on_cache_def split: option.split)

lemma establish_cache:
  assumes "cm_keyManifest (cc_manager cfg) = None" and "establish_session br cfg options extra a d s = (Inr x, t)"
  shows "x = (a, d) \<and> (\<exists>v w. st_cache t = ic_set (cm_cache (cc_manager cfg))
      (toKey (new_CacheKey (Some (cc_clientId cfg)) (opt_str options ''scope'')
        (Some (or_default (opt_str options ''audience'') DEFAULT_AUDIENCE)))) v
      (ic_set (cm_cache (cc_manager cfg)) (getIdTokenCacheKey (Some (cc_clientId cfg))) w (st_cache s)))"
  using assms
  by (auto simp: establish_session_def saveEntryInCache_def act_simps on_cache_def on_web_def modify_def processOrgHint_def
      cm_set_def cm_setIdToken_def cm_track_def entry_of_result_def Let_def split: option.splits if_splits) blast+

text \<open>
  C8: When a code is redeemed for another user than the one who is cached, no entry of the client
  survives but the two that were just written: no access or refresh token of the first user can
  be handed out in the session of the second.
\<close>

theorem user_switch_drops_tokens:
  assumes "session_store cfg ok keys" and "is_code_grant options"
    and "ic_get (cm_cache (cc_manager cfg)) (st_cache s) (getIdTokenCacheKey (Some (cc_clientId cfg))) = Some (IdTok i)"
    and "ide_id_token i = Some tok" and "st_user s \<in> {None, Some i}"
    and "entry_claim (Some i) ''sub'' = Some (JStr u)" and "u \<noteq> []"
    and "requestToken br cfg options extra s = (Inr (r, d), t)"
    and "map_of (jd_claims d) ''sub'' \<noteq> Some (JStr u)"
    and "prefix CACHE_KEY_PREFIX j" and "str_includes j (cc_clientId cfg)"
    and "j \<notin> {getIdTokenCacheKey (Some (cc_clientId cfg)), toKey (new_CacheKey (Some (cc_clientId cfg))
      (opt_str options ''scope'') (Some (or_default (opt_str options ''audience'') DEFAULT_AUDIENCE)))}"
  shows "ic_get (cm_cache (cc_manager cfg)) (st_cache t) j = None"
proof -
  let ?scope = "or_else (rx_scopesToRequest extra) (opt_str options ''scope'')"
  let ?oauth = "oauthToken (client_http br cfg) (client_dpop br cfg)
            (endpoint_options cfg options ?scope (co_useMrrt (cc_options cfg)) (cc_onlineAccess cfg)) False"
  let ?verify = "\<lambda>a. verifyIdToken br cfg (json_str (map_of a ''id_token'')) (rx_nonceIn extra) (rx_organization extra) (rx_max_age extra)"
  obtain q t1 where oauth: "?oauth s = (q, t1)" by force
  from assms(8) oauth obtain a where q: "q = Inr a"
    unfolding requestToken_def Let_def by (cases q) (auto simp: catching_def andThen_def andNext_def assms(2))
  from cached_oauth [OF oauth] have t1: "st_cache t1 = st_cache s" "st_user t1 = st_user s" by simp_all
  obtain p where verify: "?verify a t1 = (p, t1)" by (auto simp: verifyIdToken_def Let_def)
  from assms(8) oauth q verify obtain d0 where p: "p = Inr d0"
    unfolding requestToken_def Let_def by (cases p) (auto simp: catching_def andThen_def andNext_def assms(2))
  let ?rest = "\<lambda>d1. andThen (carry_refresh_token br cfg options ?scope a) (\<lambda>a1. establish_session br cfg options extra a1 d1)"
  let ?m = "andThen (andNext (check_user br cfg d0) (ret d0)) ?rest"
  have request: "requestToken br cfg options extra s = (case ?m t1 of (Inr x, t) \<Rightarrow> (Inr x, t) | (Inl e, t) \<Rightarrow> (Inl e, t))"
    using oauth q verify p assms(2)
    by (simp add: requestToken_def catching_def andThen_def andNext_def Let_def split: prod.split sum.split)
  have m: "?m t1 = (Inr (r, d), t)"
    using assms(8) unfolding request by (auto split: prod.splits sum.splits)
  then obtain t2 a1 t3 where steps: "check_user br cfg d0 t1 = (Inr (), t2)"
      "carry_refresh_token br cfg options ?scope a t2 = (Inr a1, t3)"
      "establish_session br cfg options extra a1 d0 t3 = (Inr (r, d), t)"
    by (auto simp: andThen_def andNext_def split: prod.splits sum.splits)
  note store = establish_cache [OF session_store.no_manifest [OF assms(1)] steps(3)]
  then have d: "d0 = d" by simp
  have user: "st_user t1 \<in> {None, Some i}" using assms(5) t1 by simp
  from check_user_other [OF assms(1) assms(3)[folded t1(1)] assms(4) user assms(6,7,9), of br] steps(1) d
  have none: "no_entries (cc_manager cfg) (cc_clientId cfg) (st_cache t2)" by auto
  with carry_empty [OF none, of br options ?scope a] steps(2) have "t3 = t2" by auto
  with none assms(10,11) have gone: "ic_get (cm_cache (cc_manager cfg)) (st_cache t3) j = None"
    by (simp add: no_entries_def)
  have frame: "j \<noteq> k \<Longrightarrow> ic_get (cm_cache (cc_manager cfg)) (ic_set (cm_cache (cc_manager cfg)) k v c) j =
      ic_get (cm_cache (cc_manager cfg)) c j" for k v c
    using listing_cache.set_frame [OF session_store.axioms(1) [OF assms(1)]] .
  from store obtain v w where "st_cache t = ic_set (cm_cache (cc_manager cfg))
      (toKey (new_CacheKey (Some (cc_clientId cfg)) (opt_str options ''scope'')
        (Some (or_default (opt_str options ''audience'') DEFAULT_AUDIENCE)))) v
      (ic_set (cm_cache (cc_manager cfg)) (getIdTokenCacheKey (Some (cc_clientId cfg))) w (st_cache t3))" by blast
  with gone assms(12) frame show ?thesis by simp
qed

lemma endpoint_base:
  "map_of options ''baseUrl'' = None \<Longrightarrow> te_baseUrl (endpoint_options cfg options scope useMrrt preserve) = cc_domainUrl cfg"
  by (simp add: endpoint_options_def)

lemma check_user_returns: "\<exists>t. check_user br cfg d s = (Inr (), t)"
  by (auto simp: check_user_def getIdTokenFromCache_def act_simps on_cache_def modify_def Let_def split: prod.splits)

lemma establish_returns:
  "session_expiry_error (jd_claims d) = None \<Longrightarrow> \<exists>t. establish_session br cfg options extra a d s = (Inr (a, d), t)"
  by (auto simp: establish_session_def saveEntryInCache_def act_simps on_cache_def on_web_def modify_def processOrgHint_def)

text \<open>Alice has a token for an API when Bob logs in.\<close>

definition api_key :: string where
  "api_key = ''@@auth0spajs@@::client::api::openid''"

definition alice_state :: "(unit page_caches, unit, string obj) client_state" where
  "alice_state = fresh_state\<lparr>st_cache := \<lparr>pc_memory =
      [(getIdTokenCacheKey (Some ''client''), IdTok (sample_user 100000)),
       (api_key, Wrapped (empty_entry\<lparr>ce_access_token := Some ''alice-at''\<rparr>) (Some 9000))], pc_local = [], pc_custom = ()\<rparr>\<rparr>"

definition code_params :: params where
  "code_params = [(''grant_type'', Some (JStr ''authorization_code'')), (''code'', Some (JStr ''c'')),
     (''scope'', Some (JStr ''openid''))]"

theorem user_switch_drops_tokens_witness:
  "ic_get (cm_cache (cc_manager (offline_client page_options)))
     (st_cache (snd (requestToken (online 5000000 (user_claims ''bob'' ''n'')) (offline_client page_options)
        code_params no_extra alice_state))) api_key = None"
proof -
  let ?cfg = "offline_client page_options :: (unit page_caches, string obj) client_config"
  let ?claims = "user_claims ''bob'' ''n''"
  let ?br = "online 5000000 ?claims"
  have cfg: "\<not> cc_worker ?cfg" "\<not> cc_dpop ?cfg" "cc_clientId ?cfg = ''client''" "\<not> cc_onlineAccess ?cfg"
    "cm_cache (cc_manager ?cfg) = on_part pc_memory (\<lambda>c p. p\<lparr>pc_memory := c\<rparr>) InMemoryCache"
    "cm_keyManifest (cc_manager ?cfg) = None"
    by (code_simp, code_simp, code_simp, code_simp,
        simp_all add: offline_client_def build_config_def new_CacheManager_def on_part_def InMemoryCache_def Let_def)
  have wf: "json_wf (JObj ?claims)" "json_wf (JObj (token_result ?claims))"
    by (simp_all add: user_claims_def token_result_def)
  have token: "json_str (map_of (token_result ?claims) ''id_token'') = Some (issued ?claims)"
    by (simp add: token_result_def)
  have "session_expiry_error (jd_claims (decoded_claims ?claims)) = None"
    by (simp add: session_expiry_error_def decoded_claims_def user_claims_def)
  from establish_returns [OF this] have established: "\<exists>t. establish_session ?br ?cfg code_params no_extra
      (token_result ?claims) (decoded_claims ?claims) s = (Inr (token_result ?claims, decoded_claims ?claims), t)" for s .
  have dpop: "client_dpop ?br ?cfg = None" using cfg(2) by (simp add: client_dpop_def)
  have base: "map_of code_params ''baseUrl'' = None" by (simp add: code_params_def)
  have grant: "is_code_grant code_params" by (simp add: is_code_grant_def code_params_def opt_str_def)
  let ?s = "alice_state\<lparr>st_log := st_log alice_state @ [Fetched (cc_domainUrl ?cfg @ ''/oauth/token'')]\<rparr>"
  have verify: "verifyIdToken ?br ?cfg (Some (issued ?claims)) None None None ?s = (Inr (decoded_claims ?claims), ?s)"
    unfolding online_def by (rule serving_verify [OF wf(1)]) simp_all
  obtain t2 where checked: "check_user ?br ?cfg (decoded_claims ?claims) ?s = (Inr (), t2)" using check_user_returns by blast
  obtain t where "establish_session ?br ?cfg code_params no_extra (token_result ?claims) (decoded_claims ?claims) t2 =
      (Inr (token_result ?claims, decoded_claims ?claims), t)" using established by blast
  then have run: "requestToken ?br ?cfg code_params no_extra alice_state = (Inr (token_result ?claims, decoded_claims ?claims), t)"
    using online_oauth [OF wf(2) cfg(1)] token verify checked grant cfg(4)
    by (simp add: requestToken_def dpop act_simps carry_refresh_token_def no_extra_def endpoint_base base Let_def)
  have "ic_get (cm_cache (cc_manager ?cfg)) (st_cache alice_state) (getIdTokenCacheKey (Some (cc_clientId ?cfg))) =
      Some (IdTok (sample_user 100000))"
    by (simp add: cfg alice_state_def fresh_state_def on_part_def InMemoryCache_def)
  moreover have "ide_id_token (sample_user 100000) = Some ''id''" "st_user alice_state \<in> {None, Some (sample_user 100000)}"
    "entry_claim (Some (sample_user 100000)) ''sub'' = Some (JStr ''alice'')"
    "map_of (jd_claims (decoded_claims ?claims)) ''sub'' \<noteq> Some (JStr ''alice'')"
    by (simp_all add: sample_user_def alice_state_def fresh_state_def entry_claim_def decoded_claims_def user_claims_def)
  moreover have "prefix CACHE_KEY_PREFIX api_key" "str_includes api_key ''client''"
    "api_key \<notin> {getIdTokenCacheKey (Some ''client''), toKey (new_CacheKey (Some ''client'')
      (opt_str code_params ''scope'') (Some (or_default (opt_str code_params ''audience'') DEFAULT_AUDIENCE)))}"
    by (code_simp, code_simp, code_simp)
  ultimately show ?thesis
    using user_switch_drops_tokens [OF offline_session.session_store_axioms grant _ _ _ _ _ run, of "sample_user 100000"
        "''id''" "''alice''" api_key] cfg(3) run by simp
qed

end
