(* ===== verification/SilentTokens.thy ===== *)
theory SilentTokens
  imports UserSwitch CacheModel
begin

text \<open>
  What a token request leaves for the calls after it: the token it obtained is served from the
  cache, and a refresh token that was exchanged for a new one is in no entry any more.
\<close>

section \<open>What a token request stores\<close>

lemma catching_rethrow: "catching m (\<lambda>e. andNext (g e) (throw e)) s = (Inr x, t) \<Longrightarrow> m s = (Inr x, t)"
  by (auto simp: catching_def andNext_def andThen_def split: prod.splits sum.splits)

lemma establish_stores:
  assumes "establish_session br cfg options extra a d s = (Inr x, t)"
  shows "x = (a, d)"
    and "st_user t = Some \<lparr>ide_id_token = Some (tmpl (json_str (map_of a ''id_token''))),
        ide_decodedToken = Some \<lparr>dt_claims = jd_claims d, dt_user = jd_user d\<rparr>\<rparr>"
    and "session_expiry_error (jd_claims d) = None"
    and "st_cache t = cm_set (cc_manager cfg) (client_now br t) (entry_of_result cfg options a)
        (cm_setIdToken (cc_manager cfg) (cc_clientId cfg) (tmpl (json_str (map_of a ''id_token'')))
          \<lparr>dt_claims = jd_claims d, dt_user = jd_user d\<rparr> (st_cache s))"
  using assms
  by (auto simp: establish_session_def saveEntryInCache_def act_simps on_cache_def on_web_def modify_def processOrgHint_def
      client_now_def entry_of_result_def split: option.splits if_splits)

lemma requestToken_establishes:
  assumes "requestToken br cfg options extra s = (Inr (r, d), t)"
  obtains u where "establish_session br cfg options extra r d u = (Inr (r, d), t)"
proof -
  obtain a d1 u where "establish_session br cfg options extra a d1 u = (Inr (r, d), t)"
    using catching_rethrow [OF assms [unfolded requestToken_def Let_def]] by (auto simp: andThen_Inr_iff)
  moreover from establish_stores(1) [OF this] have "a = r" "d1 = d" by simp_all
  ultimately show thesis using that by blast
qed

text \<open>What is found in the cache after a request: the entry with its expiry, and the id token.\<close>

definition id_entry_of :: "json obj \<Rightarrow> jwt_decoded \<Rightarrow> id_token_entry" where
  "id_entry_of r d = \<lparr>ide_id_token = Some (tmpl (json_str (map_of r ''id_token''))),
     ide_decodedToken = Some \<lparr>dt_claims = jd_claims d, dt_user = jd_user d\<rparr>\<rparr>"

lemma request_stores:
  assumes store: "session_store cfg ok keys"
    and request: "requestToken br cfg options extra s = (Inr (r, d), t)"
    and audience: "audience = or_default (opt_str options ''audience'') DEFAULT_AUDIENCE"
    and key: "canonical_key (new_CacheKey (Some (cc_clientId cfg)) (opt_str options ''scope'') (Some audience))"
    and fits: "ok (IdTok (id_entry_of r d))" "\<And>x. ok (Wrapped (entry_of_result cfg options r) (Some x))"
    and expiry: "map_of r ''expires_in'' = Some (JNum n)"
  shows "ic_get (cm_cache (cc_manager cfg)) (st_cache t)
        (toKey (new_CacheKey (Some (cc_clientId cfg)) (opt_str options ''scope'') (Some audience))) =
      Some (Wrapped (entry_of_result cfg options r) (Some (client_now br t div 1000 + n)))" (is "?entry")
    and "ic_get (cm_cache (cc_manager cfg)) (st_cache t) (getIdTokenCacheKey (Some (cc_clientId cfg))) =
      Some (IdTok (id_entry_of r d))" (is "?id")
    and "st_user t = Some (id_entry_of r d)" and "session_expiry_error (jd_claims d) = None"
proof -
  let ?ic = "cm_cache (cc_manager cfg)"
  let ?k = "new_CacheKey (Some (cc_clientId cfg)) (opt_str options ''scope'') (Some audience)"
  let ?e = "entry_of_result cfg options r"
  obtain w where "establish_session br cfg options extra r d w = (Inr (r, d), t)"
    using requestToken_establishes [OF request] .
  note stored = establish_stores [OF this]
  show "st_user t = Some (id_entry_of r d)" "session_expiry_error (jd_claims d) = None"
    using stored(2,3) by (simp_all add: id_entry_of_def)
  have laws: "cache_laws ?ic ok" using session_store.axioms(1) [OF store] listing_cache.axioms(1) by blast
  have cache: "st_cache t = ic_set ?ic (toKey ?k) (Wrapped ?e (Some (client_now br t div 1000 + n)))
      (ic_set ?ic (getIdTokenCacheKey (Some (cc_clientId cfg))) (IdTok (id_entry_of r d)) (st_cache w))"
    using stored(4) expiry audience session_store.no_manifest [OF store]
    by (simp add: cm_set_def cm_setIdToken_def cm_track_def wrapCacheEntry_def json_num_def entry_of_result_def
        id_entry_of_def Let_def)
  have cid: "key_part (cc_clientId cfg)" using key by (auto simp: canonical_key_def new_CacheKey_def split: option.splits)
  have "toKey ?k \<noteq> getIdTokenCacheKey (Some (cc_clientId cfg))"
    using parts_canonical [OF key] parts_id_token [OF cid] by auto
  then show ?entry ?id
    unfolding cache using fits cache_laws.get_set [OF laws] by simp_all
qed

section \<open>The token is served\<close>

text \<open>
  The documentation of \<open>getTokenSilently\<close> asks for more than sixty seconds; at exactly sixty the
  cache still serves the token.
\<close>

lemma sixty_seconds_left:
  "ic_get (cm_cache m) c (toKey k) = Some (Wrapped e (Some x)) \<Longrightarrow> now div 1000 = x - 60 \<Longrightarrow>
     cm_get m now k 60 mrrt mode c = (Some e, c)"
  by (simp add: cm_get_def cm_get_found_def Let_def)

text \<open>
  C9: The token a login or a refresh obtained is the one \<open>getTokenSilently\<close> returns for the same
  audience and scope while it has more than sixty seconds left and the session lasts: from the
  cache alone, without a request, a lock or a change. With less than sixty seconds left the cache
  does not serve it any more. The user of the id token is signed in all the while.
\<close>

theorem obtained_token_served:
  assumes store: "session_store cfg ok keys"
    and request: "requestToken br cfg options extra s = (Inr (r, d), t)"
    and audience: "audience = or_default (opt_str options ''audience'') DEFAULT_AUDIENCE"
    and key: "canonical_key (new_CacheKey (Some (cc_clientId cfg)) (opt_str options ''scope'') (Some audience))"
    and fits: "ok (IdTok (id_entry_of r d))" "\<And>x. ok (Wrapped (entry_of_result cfg options r) (Some x))"
    and token: "map_of r ''access_token'' = Some (JStr token)" "token \<noteq> []" "map_of r ''expires_in'' = Some (JNum n)"
    and later: "st_cache u = st_cache t" "st_user u = st_user t"
    and ceiling: "\<And>x. map_of (jd_claims d) ''session_expiry'' = Some (JNum x) \<Longrightarrow> \<not> past_ceiling br u x"
    and call: "o1 = silent_options_of cfg mode ps timeout" "gt_cacheMode o1 \<noteq> ''off''" "gt_audience o1 = audience"
      "gt_scope o1 = opt_str options ''scope''"
  shows "(client_now br u div 1000 < client_now br t div 1000 + n - 60 \<longrightarrow>
      (\<exists>e. getTokenSilently br cfg mode ps timeout u = (Inr (Some e), u) \<and>
        tr_access_token e = Some token \<and> tr_expires_in e = Some n)) \<and>
    (client_now br t div 1000 + n - 60 < client_now br u div 1000 \<longrightarrow>
      fst (getTokenSilently br cfg (Some ''cache-only'') ps timeout u) = Inr None) \<and>
    getUser br cfg u = (Inr (Some (jd_user d)), u) \<and> isAuthenticated br cfg u = (Inr True, u)"
proof -
  let ?m = "cc_manager cfg" and ?ic = "cm_cache (cc_manager cfg)"
  let ?k = "new_CacheKey (Some (cc_clientId cfg)) (opt_str options ''scope'') (Some audience)"
  let ?id = "id_entry_of r d" and ?e = "entry_of_result cfg options r"
  note stored = request_stores [OF store request audience key fits token(3)]
  have found: "ic_get ?ic (st_cache u) (toKey ?k) = Some (Wrapped ?e (Some (client_now br t div 1000 + n)))"
    "ic_get ?ic (st_cache u) (getIdTokenCacheKey (Some (cc_clientId cfg))) = Some (IdTok ?id)"
    using stored(1,2) later(1) by simp_all
  have get: "client_get br cfg (opt_str options ''scope'') audience 60 mode' u = (Inr (Some ?e), u)"
    if "client_now br u div 1000 \<le> client_now br t div 1000 + n - 60" for mode'
    using found(1) that by (cases u) (simp add: client_get_def on_cache_def cm_get_def cm_get_found_def Let_def)
  have late: "\<exists>e v. client_get br cfg (opt_str options ''scope'') audience 60 mode' u = (Inr e, v) \<and>
      \<not> truthy (Option.bind e ce_access_token)"
    if "client_now br t div 1000 + n - 60 < client_now br u div 1000" for mode'
    using found(1) that
    by (auto simp: client_get_def on_cache_def cm_get_def cm_get_found_def modifiedCachedEntry_def refresh_part_def empty_entry_def truthy_def Let_def)
  have user: "st_user u = Some ?id" using later(2) stored(3) by simp
  then have id: "getIdTokenFromCache br cfg u = (Inr (Some ?id), u)"
    using found(2) by (cases u) (simp add: getIdTokenFromCache_def cm_getIdToken_def new_CacheKey_def Let_def)
  have decoded: "ide_decodedToken ?id = Some \<lparr>dt_claims = jd_claims d, dt_user = jd_user d\<rparr>" by (simp add: id_entry_of_def)
  have open_session: "isSessionCeilingReached br cfg u = (Inr False, u)"
  proof (cases "map_of (jd_claims d) ''session_expiry''")
    case None
    with user show ?thesis by (simp add: isSessionCeilingReached_def andThen_def entry_claim_def decoded)
  next
    case (Some v)
    with stored(4) obtain x where "v = JNum x" by (auto simp: session_expiry_error_def split: json.splits)
    with Some user ceiling ceiling_check [of u x br cfg] show ?thesis by (simp add: entry_claim_def decoded)
  qed
  have "truthy (ce_access_token ?e)" "ce_access_token ?e = Some token" "ce_expires_in ?e = Some n"
    using token by (simp_all add: entry_of_result_def json_str_def json_num_def)
  then have served: "\<exists>e. getTokenSilently br cfg mode ps timeout u = (Inr (Some e), u) \<and>
      tr_access_token e = Some token \<and> tr_expires_in e = Some n"
    if "client_now br u div 1000 \<le> client_now br t div 1000 + n - 60"
    using open_session get [OF that] id call
    by (simp add: getTokenSilently_def getTokenSilently_inner_def getEntryFromCache_def andThen_def)
  have "fst (getTokenSilently br cfg (Some ''cache-only'') ps timeout u) = Inr None"
    if late': "client_now br t div 1000 + n - 60 < client_now br u div 1000"
  proof -
    let ?o = "silent_options_of cfg (Some ''cache-only'') ps timeout"
    have "gt_cacheMode ?o = ''cache-only''" "gt_audience ?o = audience" "gt_scope ?o = opt_str options ''scope''"
      using call by (simp_all add: silent_options_of_def gt_audience_def gt_scope_def)
    moreover obtain e v where "client_get br cfg (opt_str options ''scope'') audience 60 (Some ''cache-only'') u = (Inr e, v)"
        "\<not> truthy (Option.bind e ce_access_token)" using late [OF late'] by blast
    ultimately show ?thesis
      using open_session by (cases e)
        (simp_all add: getTokenSilently_def getTokenSilently_inner_def getEntryFromCache_def andThen_def)
  qed
  moreover have "getUser br cfg u = (Inr (Some (jd_user d)), u)" "isAuthenticated br cfg u = (Inr True, u)"
    using open_session id decoded by (simp_all add: getUser_def isAuthenticated_def andThen_def)
  ultimately show ?thesis using served by simp
qed

section \<open>Rotation\<close>

lemma touched_update:
  "touched (update_fun old new cid mrrt) j w = Some (Wrapped b x) \<Longrightarrow> ck_clientId (fromKey j) = Some cid \<Longrightarrow>
     old \<noteq> [] \<Longrightarrow> new \<noteq> old \<Longrightarrow> ce_refresh_token b \<noteq> Some old"
  by (auto simp: touched_def update_fun_def split: option.splits cacheable.splits if_splits)

text \<open>
  C11: After a refresh that brought a new refresh token (of rotating tokens, without online access and
  without the fallback to the iframe), no entry of the client holds the old one any more, whatever audience it was stored for; so the spent token cannot be sent again, which the
  server would take for theft.
\<close>

theorem rotation_complete:
  assumes store: "session_store cfg ok keys"
    and refresh: "refresh_exchange br cfg options (Some e) s = (Inr r, t)"
    and plain: "co_useRefreshTokensFallback (cc_options cfg) \<noteq> Some True" "\<not> cc_onlineAccess cfg"
    and old: "ce_refresh_token e = Some old" "old \<noteq> []"
    and new: "map_of r ''refresh_token'' = Some (JStr new)" "new \<noteq> []" "new \<noteq> old"
    and entry: "prefix CACHE_KEY_PREFIX j" "ck_clientId (fromKey j) = Some (cc_clientId cfg)"
      "ic_get (cm_cache (cc_manager cfg)) (st_cache t) j = Some (Wrapped b x)"
  shows "ce_refresh_token b \<noteq> Some old"
proof -
  let ?m = "cc_manager cfg"
  have listing: "listing_cache (cm_cache ?m) ok keys" by (rule session_store.axioms(1) [OF store])
  have laws: "cache_laws (cm_cache ?m) ok" by (rule listing_cache.axioms(1) [OF listing])
  obtain q u where "requestToken br cfg (refresh_params br cfg options (Some e))
      (no_extra\<lparr>rx_scopesToRequest := Some (scope_to_request cfg options (Some e))\<rparr>) s = (Inr q, u)" "fst q = r"
      and t: "(Inr (), t) = propagateRotatedRefreshToken cfg (Some old) (json_str (map_of r ''refresh_token'')) u"
    using refresh plain(1) old(1)
    by (auto simp: refresh_exchange_def andThen_Inr_iff andNext_def propagateRotatedRefreshToken_def on_cache_def
        Let_def split: if_splits)
  then have cache: "st_cache t = updateEntry ?m old new (cc_clientId cfg) (co_useMrrt (cc_options cfg)) (st_cache u)"
    using plain(2) old(2) new by (simp add: propagateRotatedRefreshToken_def on_cache_def json_str_def)
  have keys: "getCacheKeys ?m (st_cache u) = Some (keys (st_cache u))"
    using session_store.no_manifest [OF store] listing_cache.allKeys [OF listing] by (simp add: getCacheKeys_def)
  note updated = cache_laws.get_updateEntry [OF laws refl keys, of old new "cc_clientId cfg" "co_useMrrt (cc_options cfg)" j]
  have "j \<in> set (keys (st_cache u))"
    using entry updated listing_cache.keys_complete [OF listing, of "st_cache u" j] cache by (cases "j \<in> set (keys (st_cache u))") auto
  with entry(3) updated cache have "touched (update_fun old new (cc_clientId cfg) (co_useMrrt (cc_options cfg))) j
      (ic_get (cm_cache ?m) (st_cache u) j) = Some (Wrapped b x)" by simp
  from touched_update [OF this entry(2) old(2) new(3)] show ?thesis .
qed

section \<open>Alice\<close>

text \<open>Alice has a session and a token for an API when the endpoint answers the next request.\<close>

definition alice_claims :: "json obj" where
  "alice_claims = user_claims ''alice'' ''n''"

definition rotated :: "json obj" where
  "rotated = token_result alice_claims @ [(''refresh_token'', JStr ''rt2'')]"

definition rotation_state :: "(unit page_caches, unit, string obj) client_state" where
  "rotation_state = fresh_state\<lparr>st_cache := \<lparr>pc_memory =
      [(getIdTokenCacheKey (Some ''client''), IdTok (sample_user 100000)),
       (api_key, Wrapped (empty_entry\<lparr>ce_access_token := Some ''alice-at'', ce_refresh_token := Some ''rt1''\<rparr>) (Some 9000))],
      pc_local = [], pc_custom = ()\<rparr>\<rparr>"

lemma sample_cfg:
  "\<not> cc_worker (offline_client page_options)" "\<not> cc_dpop (offline_client page_options)"
  "cc_clientId (offline_client page_options) = ''client''" "\<not> cc_onlineAccess (offline_client page_options)"
  "co_useRefreshTokensFallback (cc_options (offline_client page_options)) \<noteq> Some True"
  "\<not> co_useMrrt (cc_options (offline_client page_options))"
  "cm_keyManifest (cc_manager (offline_client page_options)) = None"
  by (code_simp, code_simp, code_simp, code_simp, code_simp, code_simp)
    (simp add: offline_client_def build_config_def new_CacheManager_def on_part_def InMemoryCache_def Let_def)

lemma sample_cache:
  "cm_cache (cc_manager (offline_client page_options)) = on_part pc_memory (\<lambda>c p. p\<lparr>pc_memory := c\<rparr>) InMemoryCache"
  by (simp add: offline_client_def build_config_def new_CacheManager_def on_part_def InMemoryCache_def Let_def)

text \<open>A request of a client like this one, whatever its cache and the ceiling of its session.\<close>

lemma serving_request:
  fixes cfg :: "(unit page_caches, string obj) client_config"
  assumes plain: "\<not> cc_worker cfg" "\<not> cc_dpop cfg" "\<not> cc_onlineAccess cfg"
    and same: "cc_tokenIssuer cfg = cc_tokenIssuer (offline_client page_options)" "cc_clientId cfg = ''client''"
      "co_leeway (cc_options cfg) = co_leeway (cc_options (offline_client page_options))"
      "cc_params cfg = cc_params (offline_client page_options)"
    and opts: "map_of options ''baseUrl'' = None" "\<not> is_code_grant options"
    and pin: "pin_ceiling (serving 5000000 True rotated) cfg (decoded_claims alice_claims)
      (s\<lparr>st_log := st_log s @ [Fetched (cc_domainUrl cfg @ ''/oauth/token'')]\<rparr>) = (Inr d, u)"
    and ceiling: "session_expiry_error (jd_claims d) = None"
  obtains t where "requestToken (serving 5000000 True rotated) cfg options (no_extra\<lparr>rx_scopesToRequest := sc\<rparr>) s = (Inr (rotated, d), t)"
    and "establish_session (serving 5000000 True rotated) cfg options (no_extra\<lparr>rx_scopesToRequest := sc\<rparr>) rotated d u = (Inr (rotated, d), t)"
proof -
  let ?br = "serving 5000000 True rotated" and ?x = "no_extra\<lparr>rx_scopesToRequest := sc\<rparr>"
  let ?s = "s\<lparr>st_log := st_log s @ [Fetched (cc_domainUrl cfg @ ''/oauth/token'')]\<rparr>"
  have wf: "json_wf (JObj alice_claims)" "json_wf (JObj rotated)" "response_data rotated = rotated"
    by (simp_all add: alice_claims_def user_claims_def rotated_def token_result_def response_data_def)
  have "verifyIdToken ?br cfg (Some (issued alice_claims)) None None None ?s =
      verifyIdToken ?br (offline_client page_options) (Some (issued alice_claims)) None None None ?s"
    by (simp add: verifyIdToken_def same sample_cfg)
  also have "\<dots> = (Inr (decoded_claims alice_claims), ?s)"
    using serving_verify [of "''alice''" "''n''" None 5000000 True rotated ?s] wf(1) by (simp add: alice_claims_def)
  finally have verify: "verifyIdToken ?br cfg (Some (issued alice_claims)) None None None ?s = (Inr (decoded_claims alice_claims), ?s)" .
  from establish_returns [OF ceiling] obtain t where
    established: "establish_session ?br cfg options ?x rotated d u = (Inr (rotated, d), t)" by blast
  have token: "json_str (map_of rotated ''id_token'') = Some (issued alice_claims)" by (simp add: rotated_def token_result_def json_str_def)
  have carry: "carry_refresh_token ?br cfg options sc' rotated v = (Inr rotated, v)" for sc' v
    by (simp add: carry_refresh_token_def plain)
  have "requestToken ?br cfg options ?x s = (Inr (rotated, d), t)"
    using serving_oauth [OF wf(2,3) plain(1), of 5000000] established verify pin carry token
    by (simp add: requestToken_def client_dpop_def plain opts act_simps no_extra_def endpoint_base Let_def)
  then show thesis using established by (rule that)
qed

lemma rotation_user: "st_user rotation_state = None"
  by (simp add: rotation_state_def fresh_state_def)

lemma alice_request:
  assumes "map_of options ''baseUrl'' = None" and "\<not> is_code_grant options"
  shows "\<exists>d t u. requestToken (serving 5000000 True rotated) (offline_client page_options) options
        (no_extra\<lparr>rx_scopesToRequest := sc\<rparr>) rotation_state = (Inr (rotated, d), t) \<and>
      establish_session (serving 5000000 True rotated) (offline_client page_options) options
        (no_extra\<lparr>rx_scopesToRequest := sc\<rparr>) rotated d u = (Inr (rotated, d), t) \<and>
      st_cache u = st_cache rotation_state \<and> map_of (jd_claims d) ''session_expiry'' = Some (JNum 100000)"
proof -
  let ?cfg = "offline_client page_options :: (unit page_caches, string obj) client_config"
  let ?br = "serving 5000000 True rotated"
  let ?d = "(decoded_claims alice_claims)\<lparr>jd_claims := AList.update ''session_expiry'' (JNum 100000)
      (jd_claims (decoded_claims alice_claims))\<rparr>"
  let ?s = "rotation_state\<lparr>st_log := st_log rotation_state @ [Fetched (cc_domainUrl ?cfg @ ''/oauth/token'')]\<rparr>"
  have "ic_get (cm_cache (cc_manager ?cfg)) (st_cache ?s) (getIdTokenCacheKey (Some (cc_clientId ?cfg))) = Some (IdTok (sample_user 100000))"
    by (simp add: sample_cfg sample_cache rotation_state_def fresh_state_def on_part_def InMemoryCache_def)
  from id_token_found [OF this, of "''id''" ?br]
  have found: "getIdTokenFromCache ?br ?cfg ?s = (Inr (Some (sample_user 100000)), ?s\<lparr>st_user := Some (sample_user 100000)\<rparr>)"
    by (simp add: sample_user_def rotation_user)
  have pin: "pin_ceiling ?br ?cfg (decoded_claims alice_claims) ?s = (Inr ?d, ?s\<lparr>st_user := Some (sample_user 100000)\<rparr>)"
    by (simp add: pin_ceiling_def andThen_def found entry_claim_def) (simp add: sample_user_def)
  have "session_expiry_error (jd_claims ?d) = None"
    by (simp add: session_expiry_error_def decoded_claims_def alice_claims_def user_claims_def as_number_def update_conv')
  from serving_request [OF sample_cfg(1,2,4) refl sample_cfg(3) refl refl assms pin this] obtain t where
    "requestToken ?br ?cfg options (no_extra\<lparr>rx_scopesToRequest := sc\<rparr>) rotation_state = (Inr (rotated, ?d), t)"
    "establish_session ?br ?cfg options (no_extra\<lparr>rx_scopesToRequest := sc\<rparr>) rotated ?d
      (?s\<lparr>st_user := Some (sample_user 100000)\<rparr>) = (Inr (rotated, ?d), t)" .
  moreover have "map_of (jd_claims ?d) ''session_expiry'' = Some (JNum 100000)" by (simp add: update_conv')
  ultimately show ?thesis by fastforce
qed

definition orders_request :: params where
  "orders_request = [(''grant_type'', Some (JStr ''refresh_token'')), (''audience'', Some (JStr ''orders'')),
     (''scope'', Some (JStr ''openid profile email''))]"

theorem obtained_token_served_witness:
  "\<exists>e t. getTokenSilently (serving 5000000 True rotated) (offline_client page_options) None
      [(''audience'', Some (JStr ''orders''))] None t = (Inr (Some e), t) \<and> tr_access_token e = Some ''at'' \<and>
      isAuthenticated (serving 5000000 True rotated) (offline_client page_options) t = (Inr True, t)"
proof -
  let ?cfg = "offline_client page_options :: (unit page_caches, string obj) client_config"
  let ?br = "serving 5000000 True rotated"
  have "\<not> is_code_grant orders_request" "map_of orders_request ''baseUrl'' = None"
    by (simp_all add: is_code_grant_def orders_request_def opt_str_def json_str_def)
  then obtain d t where run: "requestToken ?br ?cfg orders_request no_extra rotation_state = (Inr (rotated, d), t)"
    and ceiling: "map_of (jd_claims d) ''session_expiry'' = Some (JNum 100000)"
    using alice_request [of orders_request None] by (auto simp: no_extra_def)
  have "''orders'' = or_default (opt_str orders_request ''audience'') DEFAULT_AUDIENCE"
    "canonical_key (new_CacheKey (Some (cc_clientId ?cfg)) (opt_str orders_request ''scope'') (Some ''orders''))"
    "gt_cacheMode (silent_options_of ?cfg None [(''audience'', Some (JStr ''orders''))] None) \<noteq> ''off''"
    "gt_audience (silent_options_of ?cfg None [(''audience'', Some (JStr ''orders''))] None) = ''orders''"
    "gt_scope (silent_options_of ?cfg None [(''audience'', Some (JStr ''orders''))] None) = opt_str orders_request ''scope''"
    by (code_simp, code_simp, code_simp, code_simp, code_simp)
  moreover have "map_of rotated ''access_token'' = Some (JStr ''at'')" "map_of rotated ''expires_in'' = Some (JNum 3600)"
    by (simp_all add: rotated_def token_result_def)
  moreover have "\<not> past_ceiling ?br t x" if "map_of (jd_claims d) ''session_expiry'' = Some (JNum x)" for x
    using that ceiling by (simp add: past_ceiling_def client_now_def serving_simps SESSION_EXPIRY_LEEWAY_SECONDS_def)
  ultimately have "(client_now ?br t div 1000 < client_now ?br t div 1000 + 3600 - 60 \<longrightarrow>
      (\<exists>e. getTokenSilently ?br ?cfg None [(''audience'', Some (JStr ''orders''))] None t = (Inr (Some e), t) \<and>
        tr_access_token e = Some ''at'' \<and> tr_expires_in e = Some 3600)) \<and>
    (client_now ?br t div 1000 + 3600 - 60 < client_now ?br t div 1000 \<longrightarrow>
      fst (getTokenSilently ?br ?cfg (Some ''cache-only'') [(''audience'', Some (JStr ''orders''))] None t) = Inr None) \<and>
    getUser ?br ?cfg t = (Inr (Some (jd_user d)), t) \<and> isAuthenticated ?br ?cfg t = (Inr True, t)"
    by (intro obtained_token_served [OF offline_session.session_store_axioms run]) (assumption | simp)+
  then show ?thesis by auto
qed

theorem rotation_complete_witness:
  "\<exists>r t b x. refresh_exchange (serving 5000000 True rotated) (offline_client page_options)
      \<lparr>gt_cacheMode = ''off'', gt_params = [(''audience'', Some (JStr ''orders'')), (''scope'', Some (JStr ''openid''))],
        gt_timeoutInSeconds = None\<rparr> (Some (empty_entry\<lparr>ce_refresh_token := Some ''rt1''\<rparr>)) rotation_state = (Inr r, t) \<and>
     ic_get (cm_cache (cc_manager (offline_client page_options))) (st_cache t) api_key = Some (Wrapped b x) \<and>
     ce_access_token b = Some ''alice-at'' \<and> ce_refresh_token b \<noteq> Some ''rt1''"
proof -
  let ?cfg = "offline_client page_options :: (unit page_caches, string obj) client_config"
  let ?br = "serving 5000000 True rotated" and ?e = "empty_entry\<lparr>ce_refresh_token := Some ''rt1''\<rparr>"
  let ?o = "\<lparr>gt_cacheMode = ''off'', gt_params = [(''audience'', Some (JStr ''orders'')), (''scope'', Some (JStr ''openid''))],
        gt_timeoutInSeconds = None\<rparr>"
  let ?ps = "refresh_params ?br ?cfg ?o (Some ?e)"
  have grant: "\<not> is_code_grant ?ps" "map_of ?ps ''baseUrl'' = None"
    by (simp_all add: is_code_grant_def refresh_params_def opt_str_def json_str_def)
  obtain d t u where run: "requestToken ?br ?cfg ?ps (no_extra\<lparr>rx_scopesToRequest := Some (scope_to_request ?cfg ?o (Some ?e))\<rparr>)
        rotation_state = (Inr (rotated, d), t)"
      and est: "establish_session ?br ?cfg ?ps (no_extra\<lparr>rx_scopesToRequest := Some (scope_to_request ?cfg ?o (Some ?e))\<rparr>)
        rotated d u = (Inr (rotated, d), t)" and u: "st_cache u = st_cache rotation_state"
    using alice_request [OF grant(2,1)] by blast
  let ?t = "t\<lparr>st_cache := updateEntry (cc_manager ?cfg) ''rt1'' ''rt2'' ''client'' False (st_cache t)\<rparr>"
  have refresh: "refresh_exchange ?br ?cfg ?o (Some ?e) rotation_state = (Inr rotated, ?t)"
    using run sample_cfg
    by (simp add: refresh_exchange_def andThen_def andNext_def propagateRotatedRefreshToken_def on_cache_def rotated_def
        token_result_def json_str_def Let_def)
  have keys: "api_key \<noteq> getIdTokenCacheKey (Some ''client'')"
    "api_key \<noteq> toKey (new_CacheKey (Some ''client'') (Some ''openid'') (Some ''orders''))" by (code_simp, code_simp)
  have "opt_str ?ps ''scope'' = Some ''openid''" "opt_str ?ps ''audience'' = Some ''orders''"
    by (simp_all add: refresh_params_def opt_str_def json_str_def)
  with establish_stores(4) [OF est] u keys
  have "ic_get (cm_cache (cc_manager ?cfg)) (st_cache t) api_key =
      Some (Wrapped (empty_entry\<lparr>ce_access_token := Some ''alice-at'', ce_refresh_token := Some ''rt1''\<rparr>) (Some 9000))"
    by (simp add: cm_set_def cm_setIdToken_def cm_track_def sample_cfg sample_cache entry_of_result_def on_part_def
        InMemoryCache_def rotation_state_def Let_def)
  note entry = this
  have stored: "\<exists>b x. ic_get (cm_cache (cc_manager ?cfg)) (st_cache ?t) api_key = Some (Wrapped b x) \<and> ce_access_token b = Some ''alice-at''"
  proof -
    have "getCacheKeys (cc_manager ?cfg) (st_cache t) = Some (obj_keys (pc_memory (st_cache t)))"
      by (simp add: getCacheKeys_def sample_cfg sample_cache on_part_def InMemoryCache_def)
    from page_memory.get_updateEntry [OF sample_cache this, of "''rt1''" "''rt2''" "''client''" False api_key] entry
    show ?thesis unfolding sample_cache by (auto simp: touched_def update_fun_def)
  qed
  moreover have "prefix CACHE_KEY_PREFIX api_key" "ck_clientId (fromKey api_key) = Some (cc_clientId ?cfg)" by (code_simp, code_simp)
  ultimately show ?thesis
    using rotation_complete [OF offline_session.session_store_axioms refresh sample_cfg(5,4), of "''rt1''" "''rt2''" api_key] refresh
    by (auto simp: rotated_def token_result_def)
qed

end
