(* ===== verification/StepUp.thy ===== *)
theory StepUp
  imports OnlinePage
begin

text \<open>
  Multi-factor step-up from end to end: a token request that was refused because a second factor
  is missing, and the verification that completes it.
\<close>

lemma refused_request:
  fixes br :: "('k, 'w) browser" and cfg :: "('c, 'w) client_config"
  assumes "requestToken br cfg options extra s = (Inl (MfaRequiredError code description (Some token) requirements), t)"
    and "\<not> is_code_grant options"
  shows "map_of (st_mfa t) token = Some \<lparr>mc_scope = or_else (rx_scopesToRequest extra) (opt_str options ''scope''),
     mc_audience = opt_str options ''audience'', mc_mfaRequirements = requirements, mc_createdAt = client_now br t\<rparr>"
proof -
  let ?store = "storeMfaContext br (MfaRequiredError code description (Some token) requirements)
      (or_else (rx_scopesToRequest extra) (opt_str options ''scope'')) (opt_str options ''audience'')"
  have step: "catching m (\<lambda>e. andNext (storeMfaContext br e scope audience) (throw e)) s = (Inl e, t) \<Longrightarrow>
      \<exists>u. m s = (Inl e, u) \<and> (Inr (), t) = storeMfaContext br e scope audience u"
    for m :: "(('c, 'k, 'w) client_state, js_error, json obj \<times> jwt_decoded) act" and e scope audience
    by (auto simp: catching_def andNext_def andThen_def storeMfaContext_def split: prod.splits sum.splits js_error.splits option.splits)
  from assms(1) obtain u where "(Inr (), t) = ?store u"
    unfolding requestToken_def Let_def by (simp add: assms(2)) (drule step, blast)
  then show ?thesis by (simp add: storeMfaContext_def modify_def mfa_set_def client_now_def)
qed

abbreviation context_missing :: js_error where
  "context_missing \<equiv> MfaVerifyError (Some ''mfa_context_not_found'')
     ''MFA context not found for this MFA token. Please retry the original request to get a new MFA token.''"

text \<open>The request that redeems the verification \<open>ps\<close>, and what follows it.\<close>

abbreviation redeem ::
  "('k, 'w) browser \<Rightarrow> ('c, 'w) client_config \<Rightarrow> string \<Rightarrow> string option \<Rightarrow> string option \<Rightarrow> verify_params
     \<Rightarrow> (('c, 'k, 'w) client_state, js_error, json obj) act" where
  "redeem br cfg grant scope audience ps \<equiv>
     andThen (requestTokenForMfa br cfg (vp_mfaToken ps)
        [(''grant_type'', Some (JStr grant)), (''scope'', str_param scope), (''audience'', str_param audience),
         (''otp'', str_param (vp_otp ps)), (''oob_code'', str_param (vp_oobCode ps)),
         (''binding_code'', str_param (vp_bindingCode ps)), (''recovery_code'', str_param (vp_recoveryCode ps))])
       (\<lambda>result. andNext (modify (\<lambda>v. v\<lparr>st_mfa := mfa_remove (vp_mfaToken ps) (st_mfa v)\<rparr>)) (ret result))"

text \<open>
  C23: When a token request is refused with an MFA token, verifying that token within ten minutes asks
  the token endpoint for exactly the scope and audience that were refused, whatever the
  application passes; later, or once it was redeemed, the token is refused without a request.
\<close>

theorem mfa_step_up_bound:
  assumes "requestToken br cfg options extra s = (Inl (MfaRequiredError code description (Some token) requirements), t)"
    and "\<not> is_code_grant options" and "st_mfa u = st_mfa t"
    and "vp_mfaToken ps = token" and "getGrantType ps = Some grant"
  shows "if client_now br u - client_now br t \<le> DEFAULT_TTL_MS
    then mfa_verify br cfg ps u = redeem br cfg grant (or_else (rx_scopesToRequest extra) (opt_str options ''scope''))
        (opt_str options ''audience'') ps u \<and>
      (\<forall>result v. mfa_verify br cfg ps u = (Inr result, v) \<longrightarrow> mfa_verify br cfg ps v = (Inl context_missing, v))
    else mfa_verify br cfg ps u = (Inl context_missing, u\<lparr>st_mfa := AList.delete token (st_mfa u)\<rparr>)"
proof -
  let ?scope = "or_else (rx_scopesToRequest extra) (opt_str options ''scope'')"
  from refused_request [OF assms(1,2)] assms(3)
  have c: "map_of (st_mfa u) token = Some \<lparr>mc_scope = ?scope, mc_audience = opt_str options ''audience'',
     mc_mfaRequirements = requirements, mc_createdAt = client_now br t\<rparr>" by simp
  show ?thesis
  proof (cases "client_now br u - client_now br t \<le> DEFAULT_TTL_MS")
    case True
    with c have "mfa_context_of br token u = (Inr (map_of (st_mfa u) token), u)"
      by (cases u) (simp add: mfa_context_of_def mfa_get_def mfa_expired_def)
    with c assms(4,5) have run: "mfa_verify br cfg ps u = redeem br cfg grant ?scope (opt_str options ''audience'') ps u"
      by (simp add: mfa_verify_def andThen_step)
    moreover have "mfa_verify br cfg ps v = (Inl context_missing, v)"
      if "mfa_verify br cfg ps u = (Inr result, v)" for result v
    proof -
      from that have "map_of (st_mfa v) (vp_mfaToken ps) = None"
        unfolding run by (auto simp: andThen_Inr_iff mfa_remove_def delete_conv)
      then show ?thesis
        by (cases v) (simp add: mfa_verify_def mfa_context_of_def mfa_get_def andThen_def)
    qed
    ultimately show ?thesis using True by simp
  next
    case False
    with c assms(4) show ?thesis
      by (simp add: mfa_verify_def mfa_context_of_def mfa_get_def mfa_expired_def andThen_def)
  qed
qed

definition refusal :: "json obj" where
  "refusal = [(''error'', JStr ''mfa_required''), (''error_description'', JStr ''Multifactor authentication required''),
     (''mfa_token'', JStr ''mfa'')]"

definition refresh_request :: params where
  "refresh_request = [(''grant_type'', Some (JStr ''refresh_token'')), (''audience'', Some (JStr ''api'')),
     (''scope'', Some (JStr ''openid read''))]"

definition sample_code :: verify_params where
  "sample_code = \<lparr>vp_mfaToken = ''mfa'', vp_otp = Some ''123456'', vp_oobCode = None, vp_bindingCode = None, vp_recoveryCode = None\<rparr>"

lemma refused_run:
  "\<exists>t. requestToken (serving 5 False refusal) (offline_client page_options) refresh_request no_extra fresh_state =
     (Inl (MfaRequiredError ''mfa_required'' ''Multifactor authentication required'' (Some ''mfa'') None), t)"
proof -
  let ?cfg = "offline_client page_options :: (unit page_caches, string obj) client_config"
  have cfg: "\<not> cc_worker ?cfg" "\<not> cc_dpop ?cfg" by (code_simp, code_simp)
  have "json_wf (JObj refusal)" by (simp add: refusal_def)
  from json_parse_stringify [OF this] have "json_parse (stringify (JObj refusal)) = Some (JObj refusal)" .
  moreover have "response_error url c refusal = Some (MfaRequiredError ''mfa_required''
      ''Multifactor authentication required'' (Some ''mfa'') None)" for url c
    by (simp add: response_error_def refusal_def response_data_def json_text_def json_str_def requirements_of_def)
  moreover have "map_of refusal ''error'' = Some (JStr ''mfa_required'')" by (simp add: refusal_def)
  ultimately show ?thesis
    using cfg
    by (simp add: requestToken_def oauthToken_def getJSON.simps with_proof_def switchFetch_def client_http_def fetchWithoutWorker_def
        fetchWithTimeout_def world_def logged_def handle_response_def own_properties.simps
        DEFAULT_SILENT_TOKEN_RETRY_COUNT_def act_simps serving_def Let_def numeral_eq_Suc client_dpop_def storeMfaContext_def refresh_request_def is_code_grant_def opt_str_def json_str_def)
qed

theorem mfa_step_up_bound_witness:
  "\<exists>t. mfa_verify (serving 5 False refusal) (offline_client page_options) sample_code t =
     redeem (serving 5 False refusal) (offline_client page_options) MFA_OTP (Some ''openid read'') (Some ''api'') sample_code t"
proof -
  let ?cfg = "offline_client page_options :: (unit page_caches, string obj) client_config"
  obtain t where "requestToken (serving 5 False refusal) ?cfg refresh_request no_extra fresh_state =
      (Inl (MfaRequiredError ''mfa_required'' ''Multifactor authentication required'' (Some ''mfa'') None), t)"
    using refused_run by blast
  moreover have "\<not> is_code_grant refresh_request" "vp_mfaToken sample_code = ''mfa''" "getGrantType sample_code = Some MFA_OTP"
    "opt_str refresh_request ''scope'' = Some ''openid read''" "opt_str refresh_request ''audience'' = Some ''api''"
    by code_simp+
  ultimately show ?thesis
    using mfa_step_up_bound [of "serving 5 False refusal" ?cfg refresh_request no_extra fresh_state _ _ "''mfa''" None t t sample_code]
    by (auto simp: no_extra_def or_else_def DEFAULT_TTL_MS_def)
qed

end
