(* ===== verification/LoginFlow.thy ===== *)
theory LoginFlow
  imports ClientSession OnlinePage
begin

text \<open>
  The redirect login from end to end: what the callback sends was fixed when the login was
  started, a callback with another state sends nothing, and a transaction is used once.
\<close>

section \<open>The transactions of a client\<close>

text \<open>Transactions are stored apart from the cookies of the client.\<close>

locale tx_store = storage_laws "tm_storage (cc_transactions cfg)" "tm_cookieDomain (cc_transactions cfg)"
  for cfg :: "('c, 'w) client_config" +
  assumes cookie_saved: "k \<in> client_cookies cfg \<Longrightarrow>
      tm_get (cc_transactions cfg) (cs_save (cc_cookieStorage cfg) k v o1 w) = tm_get (cc_transactions cfg) w"
    and cookie_removed: "k \<in> client_cookies cfg \<Longrightarrow>
      tm_get (cc_transactions cfg) (cs_remove (cc_cookieStorage cfg) k o1 w) = tm_get (cc_transactions cfg) w"
begin

lemma removed: "tm_get (cc_transactions cfg) (tm_remove (cc_transactions cfg) w) = Inr None"
  by (rule tm_get_remove) simp_all

end

definition no_transaction :: "('c, 'w) client_config \<Rightarrow> ('c, 'k, 'w) client_state \<Rightarrow> bool" where
  "no_transaction cfg s \<longleftrightarrow> tm_get (cc_transactions cfg) (st_web s) = Inr None"

sublocale tx_store \<subseteq> tx: callback_frame "keeps (no_transaction cfg)" br cfg for br :: "('k, 'w) browser"
proof unfold_locales
  show "effect (keeps (no_transaction cfg)) (client_send br ClearMsg)"
    by (auto simp: effect_def keeps_def no_transaction_def client_send_def split: prod.splits)
qed (auto intro!: with_lock_blind simp: keeps_def no_transaction_def cookie_saved cookie_removed removed)

lemma built_tx:
  assumes "cookie_laws (pf_cookies page) (co_cookieDomain options)"
  shows "tx_store (build_config page locks options access cache location)"
proof -
  let ?cfg = "build_config page locks options access cache location"
  let ?st = "if co_legacySameSiteCookie options = Some False
       then CookieStorage (pf_cookies page) (pf_https page)
       else CookieStorageWithLegacySameSite (pf_cookies page) (pf_https page)"
  have cfg: "cc_cookieStorage ?cfg = ?st"
    "tm_storage (cc_transactions ?cfg) = (if co_useCookiesForTransactions options then ?st else SessionStorage)"
    "tm_cookieDomain (cc_transactions ?cfg) = co_cookieDomain options"
    "tm_storageKey (cc_transactions ?cfg) = ''a0.spajs.txs.'' @ co_clientId options"
    by (simp_all add: build_config_def new_TransactionManager_def merge_options_def
        TRANSACTION_STORAGE_KEY_PREFIX_def Let_def)
  have st: "storage_laws ?st (co_cookieDomain options)"
    using cookie_laws.cookie_storage [OF assms] cookie_laws.legacy_storage [OF assms] by simp
  have sess: "storage_laws SessionStorage (co_cookieDomain options)" by (rule session.storage_laws_axioms)
  have apart: "apart k (''a0.spajs.txs.'' @ co_clientId options)" if "k \<in> client_cookies ?cfg" for k
    using that
    by (auto simp: client_cookies_def apart_def build_config_def buildIsAuthenticatedCookieName_def
        buildOrganizationHintCookieName_def OLD_IS_AUTHENTICATED_COOKIE_NAME_def LEGACY_PREFIX_def Let_def)
  have other: "cs_get SessionStorage j (cs_save ?st k v o1 w) = cs_get SessionStorage j w"
    "cs_get SessionStorage j (cs_remove ?st k o1 w) = cs_get SessionStorage j w" for j k v o1 w
    by (simp_all add: SessionStorage_def session_get_def CookieStorage_def CookieStorageWithLegacySameSite_def
        cookie_save_def cookie_remove_def legacy_save_def legacy_remove_def Let_def)
  show ?thesis
  proof (cases "co_useCookiesForTransactions options")
    case True
    with st apart storage_laws.save_frame [OF st] storage_laws.remove_frame [OF st] show ?thesis
      by (simp add: tx_store_def tx_store_axioms_def tm_get_def cfg)
  next
    case False
    with sess other show ?thesis by (simp add: tx_store_def tx_store_axioms_def tm_get_def cfg)
  qed
qed

interpretation offline_tx: tx_store "offline_client options" for options
  unfolding offline_client_def by (rule built_tx) (simp add: offline_page_def jar.cookie_laws_axioms)

section \<open>A transaction is used once\<close>

context tx_store
begin

lemma callback_consumes:
  assumes "drop 1 (split_str ''?'' url) \<noteq> []"
    and "tm_get (cc_transactions cfg) (st_web s) = Inr tx"
  shows "no_transaction cfg (snd (handleRedirectCallback br cfg url s))"
proof (cases tx)
  case None
  with assms have "snd (handleRedirectCallback br cfg url s) = s"
    by (simp add: handleRedirectCallback_def andThen_def Let_def)
  with None assms show ?thesis by (simp add: no_transaction_def)
next
  case (Some t)
  let ?s = "s\<lparr>st_web := tm_remove (cc_transactions cfg) (st_web s)\<rparr>"
  let ?r = "parseAuthenticationResult (concat (drop 1 (split_str ''?'' url)))"
  let ?m = "case t of
      ConnectTx t \<Rightarrow> andThen (handleConnectAccountRedirectCallback br cfg ?r t) (\<lambda>data. ret (ConnectResult data (ct_appState t)))
    | LoginTx t \<Rightarrow> andThen (handleLoginRedirectCallback br cfg ?r t) (\<lambda>a. ret (LoginResult a))"
  have "handleRedirectCallback br cfg url s = ?m ?s"
    using assms Some by (cases t) (simp_all add: handleRedirectCallback_def andThen_def andNext_def on_web_def Let_def)
  moreover have "effect (keeps (no_transaction cfg)) ?m"
    by (cases t) (auto intro!: effect_intro)
  moreover have "no_transaction cfg ?s" by (simp add: no_transaction_def removed)
  ultimately show ?thesis by (simp add: effect_def keeps_def)
qed

end

text \<open>
  C22: A transaction is used once: whatever comes of the first callback, with an error, a wrong
  state or a code, the transaction is gone after it, and a second callback is refused without a
  request and without a change.
\<close>

theorem transaction_single_use:
  assumes "tx_store cfg" and "drop 1 (split_str ''?'' url) \<noteq> []" and "drop 1 (split_str ''?'' url') \<noteq> []"
    and "tm_get (cc_transactions cfg) (st_web s) = Inr tx"
    and "t = snd (handleRedirectCallback br cfg url s)"
  shows "handleRedirectCallback br cfg url' t = (Inl (GenericError ''missing_transaction'' ''Invalid state'' None), t)"
proof -
  from tx_store.callback_consumes [OF assms(1,2,4), of br] assms(5)
  have "tm_get (cc_transactions cfg) (st_web t) = Inr None" by (simp add: no_transaction_def)
  with assms(3) show ?thesis by (simp add: handleRedirectCallback_def andThen_def Let_def)
qed

text \<open>A page that a login has left.\<close>

definition left_page :: "(unit page_caches, unit, string obj) client_state" where
  "left_page = fresh_state\<lparr>st_web := tm_create (cc_transactions (offline_client page_options)) (LoginTx
     \<lparr>lt_nonce = Some ''n'', lt_scope = Some ''openid'', lt_audience = Some ''default'', lt_appState = None,
      lt_code_verifier = Some ''v'', lt_redirect_uri = None, lt_organization = None, lt_state = Some ''s'',
      lt_max_age = None\<rparr>) (st_web fresh_state)\<rparr>"

lemma left_transaction: "\<exists>t. tm_get (cc_transactions (offline_client page_options)) (st_web left_page) = Inr (Some (LoginTx t))"
proof -
  let ?tm = "cc_transactions (offline_client page_options :: (unit page_caches, string obj) client_config)"
  have "storage_laws (tm_storage ?tm) (tm_cookieDomain ?tm)"
    using offline_tx.tx_store_axioms by (simp add: tx_store_def)
  from storage_laws.tm_get_create [OF this refl refl] show ?thesis
    by (auto simp: left_page_def)
qed

theorem transaction_single_use_witness:
  "(\<exists>t. tm_get (cc_transactions (offline_client page_options)) (st_web left_page) = Inr (Some (LoginTx t))) \<and>
   handleRedirectCallback (offline 5) (offline_client page_options) ''https://app.example?code=c&state=s''
     (snd (handleRedirectCallback (offline 5) (offline_client page_options) ''https://app.example?code=c&state=s'' left_page)) =
   (Inl (GenericError ''missing_transaction'' ''Invalid state'' None),
    snd (handleRedirectCallback (offline 5) (offline_client page_options) ''https://app.example?code=c&state=s'' left_page))"
proof -
  have "tx_store (offline_client page_options :: (unit page_caches, string obj) client_config)"
    by (rule offline_tx.tx_store_axioms)
  moreover have "drop 1 (split_str ''?'' ''https://app.example?code=c&state=s'') \<noteq> []" by code_simp
  ultimately show ?thesis using transaction_single_use left_transaction by blast
qed

section \<open>What the callback sends\<close>

definition params_wf :: "params \<Rightarrow> bool" where
  "params_wf ps = list_all (\<lambda>(_, v). pred_option json_wf v) ps"

lemma params_wf_spread: "params_wf a \<Longrightarrow> params_wf b \<Longrightarrow> params_wf (obj_spread a b)"
  using obj_spread_set [of a b] by (auto simp: params_wf_def list_all_iff)

lemma params_wf_lookup: "params_wf ps \<Longrightarrow> pred_option json_wf (Option.bind (map_of ps k) id)"
  by (cases "map_of ps k") (auto simp: params_wf_def list_all_iff dest!: map_of_SomeD)

lemma params_wf_str [simp]: "params_wf ((k, str_param v) # ps) = params_wf ps" "params_wf ((k, Some (JStr t)) # ps) = params_wf ps"
  "params_wf []"
  by (simp_all add: params_wf_def str_param_def option.pred_map comp_def option.pred_True)

lemma params_wf_update [simp]: "params_wf ps \<Longrightarrow> params_wf (AList.update k (Some (JStr v)) ps)"
  "params_wf ps \<Longrightarrow> params_wf (AList.update k (str_param w) ps)"
  using params_wf_spread [of ps "[(k, Some (JStr v))]"] params_wf_spread [of ps "[(k, str_param w)]"] by simp_all

text \<open>What a login asks for: the audience, scope and redirect URI of its parameters, or else those the client was
  configured with; the scopes of the audience and \<open>openid\<close> are added by the client.\<close>

definition asked_audience :: "('c, 'w) client_config \<Rightarrow> params \<Rightarrow> string option" where
  "asked_audience cfg ps = opt_str (obj_spread (obj_spread [] (cc_params cfg)) ps) ''audience''"

definition asked_scope :: "('c, 'w) client_config \<Rightarrow> params \<Rightarrow> string" where
  "asked_scope cfg ps = scopesToRequest (cc_scope cfg) (opt_str ps ''scope'') (opt_str ps ''audience'')"

definition asked_redirect_uri :: "('c, 'w) client_config \<Rightarrow> params \<Rightarrow> string option" where
  "asked_redirect_uri cfg ps =
     (if truthy (opt_str ps ''redirect_uri'') then opt_str ps ''redirect_uri'' else opt_str (cc_params cfg) ''redirect_uri'')"

text \<open>A request to \<open>/authorize\<close> for the parameters \<open>ps\<close> of a login is bound to them, and to the verifier, the
  state and the nonce kept for it: its URL carries the challenge of the one and the texts of the
  others, and asks for the audience, the scope and the redirect URI that are kept with them.\<close>

definition prepared_bound :: "('k, 'w) browser \<Rightarrow> ('c, 'w) client_config \<Rightarrow> params \<Rightarrow> prepared \<Rightarrow> bool" where
  "prepared_bound br cfg ps prep \<longleftrightarrow> pp_code_verifier prep \<noteq> [] \<and> pp_state prep \<noteq> [] \<and>
     pp_audience prep = or_default (asked_audience cfg ps) DEFAULT_AUDIENCE \<and>
     pp_scope prep = asked_scope cfg ps \<and> pp_redirect_uri prep = asked_redirect_uri cfg ps \<and>
     (\<exists>qs. pp_url prep = authorizeUrl cfg qs \<and>
        opt_str qs ''audience'' = asked_audience cfg ps \<and>
        map_of qs ''scope'' = Some (Some (JStr (asked_scope cfg ps))) \<and>
        map_of qs ''redirect_uri'' = Some (str_param (asked_redirect_uri cfg ps)) \<and>
        map_of qs ''code_challenge'' =
          Some (Some (JStr (bufferToBase64UrlEncoded (br_sha256 br (pp_code_verifier prep))))) \<and>
        map_of qs ''code_challenge_method'' = Some (Some (JStr ''S256'')) \<and>
        map_of qs ''response_type'' = Some (Some (JStr ''code'')) \<and>
        map_of qs ''state'' = Some (Some (JStr (pp_state prep))) \<and>
        map_of qs ''nonce'' = Some (Some (JStr (pp_nonce prep))) \<and>
        Option.bind (map_of qs ''max_age'') id = pp_max_age prep)"

text \<open>Parameters that ask for the same.\<close>

definition same_asked :: "params \<Rightarrow> params \<Rightarrow> bool" where
  "same_asked ps qs \<longleftrightarrow> (\<forall>k \<in> {''audience'', ''scope'', ''redirect_uri''}.
     map_of qs k = map_of ps k \<and> map_of (rev qs) k = map_of (rev ps) k)"

lemma rev_update: "j \<noteq> k \<Longrightarrow> map_of (rev (AList.update k v ps)) j = map_of (rev ps) j"
  by (induction ps) (auto simp: map_add_def split: option.split)

lemma same_asked_spread: "k \<notin> {''audience'', ''scope'', ''redirect_uri''} \<Longrightarrow> same_asked ps (obj_spread ps [(k, v)])"
  by (auto simp: same_asked_def rev_update)

lemma asked_cong:
  "same_asked ps qs \<Longrightarrow> asked_audience cfg qs = asked_audience cfg ps \<and> asked_scope cfg qs = asked_scope cfg ps \<and>
     asked_redirect_uri cfg qs = asked_redirect_uri cfg ps"
  by (simp add: same_asked_def asked_audience_def asked_scope_def asked_redirect_uri_def opt_str_def map_of_obj_spread)

lemma bound_cong: "same_asked ps qs \<Longrightarrow> prepared_bound br cfg qs prep \<Longrightarrow> prepared_bound br cfg ps prep"
  using asked_cong [of ps qs cfg] by (simp add: prepared_bound_def)

lemma js_encode_Nil: "js_encode t = [] \<longleftrightarrow> t = []"
  by (cases t) (simp_all add: js_encode_def btoa_def bytes_to_b64_def to_sextets_Nil b64_padding_def)

lemma random_string_returns:
  assumes "fair_generator (br_getRandomValues br)"
  shows "\<exists>t w. random_string br s = (Inr t, s\<lparr>st_world := w\<rparr>) \<and> t \<noteq> []"
proof -
  obtain t w where "random_loop (br_getRandomValues br) [] (st_world s) = Some (t, w)" "length t = 43"
    using random_loop_returns [OF assms, of "[]" "st_world s"] by auto
  then show ?thesis by (auto simp: random_string_def world_def createRandomString_def)
qed

lemma prepare_bound:
  assumes fair: "fair_generator (br_getRandomValues br)" and run: "prepareAuthorizeUrl br cfg ps mode None s = (Inr prep, t)"
    and wf: "params_wf ps" "params_wf (cc_params cfg)"
  shows "prepared_bound br cfg ps prep \<and> st_web t = st_web s \<and> st_log t = st_log s \<and> pred_option json_wf (pp_max_age prep)"
proof -
  obtain a w where a: "random_string br s = (Inr a, s\<lparr>st_world := w\<rparr>)" "a \<noteq> []"
    using random_string_returns [OF fair] by blast
  obtain n w' where n: "random_string br (s\<lparr>st_world := w\<rparr>) = (Inr n, s\<lparr>st_world := w'\<rparr>)" "n \<noteq> []"
    using random_string_returns [OF fair, of "s\<lparr>st_world := w\<rparr>"] by auto
  obtain v w'' where v: "random_string br (s\<lparr>st_world := w'\<rparr>) = (Inr v, s\<lparr>st_world := w''\<rparr>)" "v \<noteq> []"
    using random_string_returns [OF fair, of "s\<lparr>st_world := w'\<rparr>"] by auto
  let ?dp = "if cc_dpop cfg then andThen (on_dpop (dp_calculateThumbprint (br_dpop br) (cc_clientId cfg))) (\<lambda>t. ret (Some t))
              else ret None"
  let ?ps = "\<lambda>th. getAuthorizeParams cfg ps (js_encode a) (js_encode n) (bufferToBase64UrlEncoded (br_sha256 br v))
      (or_else (or_else (opt_str ps ''redirect_uri'') (opt_str (cc_params cfg) ''redirect_uri'')) None) mode th"
  from run a n v obtain th u where th: "?dp (s\<lparr>st_world := w''\<rparr>) = (Inr th, u)"
      and prep: "pp_url prep = authorizeUrl cfg (?ps th)" "pp_code_verifier prep = v" "pp_state prep = js_encode a"
        "pp_nonce prep = js_encode n" "pp_max_age prep = Option.bind (map_of (?ps th) ''max_age'') id" "t = u"
        "pp_scope prep = or_default (opt_str (?ps th) ''scope'') []"
        "pp_audience prep = or_default (opt_str (?ps th) ''audience'') DEFAULT_AUDIENCE"
        "pp_redirect_uri prep = opt_str (?ps th) ''redirect_uri''"
    unfolding prepareAuthorizeUrl_def andThen_def Let_def by (auto split: prod.splits sum.splits)
  have "st_web u = st_web s \<and> st_log u = st_log s"
    using th by (auto simp: on_dpop_def andThen_def zoom_def split: if_splits prod.splits sum.splits)
  moreover have "params_wf (?ps th)"
    unfolding getAuthorizeParams_def by (intro params_wf_spread wf) simp_all
  moreover have "prepared_bound br cfg ps prep"
  proof -
    have "opt_str (?ps th) ''audience'' = asked_audience cfg ps"
      "map_of (?ps th) ''scope'' = Some (Some (JStr (asked_scope cfg ps)))"
      "map_of (?ps th) ''redirect_uri'' = Some (str_param (asked_redirect_uri cfg ps))"
      by (simp_all add: getAuthorizeParams_def map_of_obj_spread opt_str_def asked_audience_def asked_scope_def
          asked_redirect_uri_def or_param_def or_else_def split: option.split)
    moreover from this have "pp_scope prep = asked_scope cfg ps" "pp_redirect_uri prep = asked_redirect_uri cfg ps"
      by (simp_all add: prep opt_str_def json_str_def str_param_def or_default_def truthy_def split: option.split)
    ultimately show ?thesis
      unfolding prepared_bound_def using a v
      by (auto simp: prep js_encode_Nil getAuthorizeParams_def map_of_obj_spread intro!: exI [of _ "?ps th"])
  qed
  ultimately show ?thesis using params_wf_lookup prep by metis
qed

lemma same_asked_refl [simp]: "same_asked ps ps"
  by (simp add: same_asked_def)

lemma applied_wf:
  assumes "apply_session_transfer cfg ps s = (Inr ps', t)" "params_wf ps"
  shows "params_wf ps'" "st_web t = st_web s" "st_log t = st_log s" "same_asked ps ps'"
  using assms by (auto simp: apply_session_transfer_def applySessionTransferToken_def Let_def
      split: prod.splits if_splits option.splits intro!: params_wf_spread same_asked_spread simp del: obj_spread.simps)

lemma minted_wf:
  assumes "applyAnonTransferToken br cfg ps s = (Inr ps', t)" "params_wf ps"
  shows "params_wf ps'" "st_web t = st_web s" "st_log t = st_log s" "same_asked ps ps'"
  using assms
  by (auto simp: applyAnonTransferToken_def client_mint_def anon_mintTransferToken_def client_anon_def world_try_def
      act_simps split: prod.splits if_splits option.splits sum.splits
      intro!: params_wf_spread same_asked_spread simp del: obj_spread.simps)

text \<open>The transaction of a login.\<close>

definition login_tx :: "('c, 'w) client_config \<Rightarrow> ('c, 'k, 'w) client_state redirect_options \<Rightarrow> prepared \<Rightarrow> login_transaction" where
  "login_tx cfg options prep =
     \<lparr>lt_nonce = Some (pp_nonce prep), lt_scope = Some (pp_scope prep), lt_audience = Some (pp_audience prep),
      lt_appState = rd_appState options, lt_code_verifier = Some (pp_code_verifier prep),
      lt_redirect_uri = pp_redirect_uri prep,
      lt_organization = or_undefined (or_param cfg (opt_str (rd_authorizationParams options) ''organization'') ''organization''),
      lt_state = Some (pp_state prep), lt_max_age = pp_max_age prep\<rparr>"

lemma loginWithRedirect_cases:
  assumes run: "loginWithRedirect br cfg options s = (Inr (), t)"
    and own: "\<forall>f. patchOpenUrlWithOnRedirect (rd_openUrl options) (rd_onRedirect options) \<noteq> OpenWith f"
    and fair: "fair_generator (br_getRandomValues br)"
    and wf: "params_wf (rd_authorizationParams options)" "params_wf (cc_params cfg)"
  obtains prep where "prepared_bound br cfg (rd_authorizationParams options) prep" "pred_option json_wf (pp_max_age prep)"
    "st_web t = tm_create (cc_transactions cfg) (LoginTx (login_tx cfg options prep)) (st_web s)"
    "st_log t = st_log s @ [Assigned (pp_url prep @
       (if truthy (rd_fragment options) then ''#'' @ the (rd_fragment options) else []))]"
proof -
  let ?open = "patchOpenUrlWithOnRedirect (rd_openUrl options) (rd_onRedirect options)"
  let ?send = "\<lambda>prep :: prepared. logged (Assigned (if truthy (rd_fragment options) then pp_url prep @ ''#'' @ the (rd_fragment options)
      else pp_url prep)) :: (('a, 'b, 'c) client_state, js_error, unit) act"
  from run own obtain ps s1 ps' s2 prep s3 where
    1: "apply_session_transfer cfg (rd_authorizationParams options) s = (Inr ps, s1)"
    and 2: "applyAnonTransferToken br cfg ps s1 = (Inr ps', s2)"
    and 3: "prepareAuthorizeUrl br cfg ps' None None s2 = (Inr prep, s3)"
    and 4: "t = snd (?send prep (s3\<lparr>st_web := tm_create (cc_transactions cfg) (LoginTx (login_tx cfg options prep)) (st_web s3)\<rparr>))"
    unfolding loginWithRedirect_def Let_def andThen_def andNext_def on_web_def login_tx_def [symmetric]
    by (auto split: prod.splits sum.splits open_url.splits)
  note A = applied_wf [OF 1 wf(1)]
  note B = minted_wf [OF 2 A(1)]
  note P = prepare_bound [OF fair 3 B(1) wf(2)]
  from bound_cong [OF A(4) bound_cong [OF B(4)]] P
  have bound: "prepared_bound br cfg (rd_authorizationParams options) prep" by blast
  from P A(2,3) B(2,3) 4 show thesis by (intro that [OF bound]) (simp_all add: logged_def)
qed

text \<open>
  C1: Whatever happened since: in a page that starts from the stored transaction (a fresh client after
  the redirect), the callback of a login redeems the code with the verifier whose challenge was
  in the URL the user was sent to, for the audience, scope and redirect URI that the login asked
  for and that URL carried, and checks the nonce of that URL; a response with another state is
  refused, and nothing is sent.
\<close>

theorem redirect_login_bound:
  assumes "tx_store cfg" and "loginWithRedirect br cfg options s = (Inr (), t)"
    and "\<forall>f. patchOpenUrlWithOnRedirect (rd_openUrl options) (rd_onRedirect options) \<noteq> OpenWith f"
    and "fair_generator (br_getRandomValues br)"
    and "params_wf (rd_authorizationParams options)" and "params_wf (cc_params cfg)"
    and "pred_option json_wf (rd_appState options)"
    and "st_web u = st_web t" and "drop 1 (split_str ''?'' url) \<noteq> []"
    and "r = parseAuthenticationResult (concat (drop 1 (split_str ''?'' url)))" and "ar_error r = None"
    and "v = u\<lparr>st_web := tm_remove (cc_transactions cfg) (st_web u)\<rparr>"
  shows "\<exists>prep. prepared_bound br cfg (rd_authorizationParams options) prep \<and>
    last (st_log t) = Assigned (pp_url prep @
      (if truthy (rd_fragment options) then ''#'' @ the (rd_fragment options) else [])) \<and>
    handleRedirectCallback br cfg url u =
      (if ar_state r = Some (pp_state prep) then
         andNext (requestToken br cfg
            ([(''audience'', Some (JStr (pp_audience prep))), (''scope'', Some (JStr (pp_scope prep))),
              (''code_verifier'', Some (JStr (pp_code_verifier prep))),
              (''grant_type'', Some (JStr ''authorization_code'')), (''code'', str_param (ar_code r))] @
             (if truthy (pp_redirect_uri prep) then [(''redirect_uri'', str_param (pp_redirect_uri prep))] else []))
            \<lparr>rx_nonceIn = Some (pp_nonce prep), rx_organization = or_undefined (or_param cfg (opt_str (rd_authorizationParams options) ''organization'') ''organization''),
             rx_scopesToRequest = None, rx_max_age = pp_max_age prep\<rparr>)
           (ret (LoginResult (rd_appState options))) v
       else (Inl (GenericError ''state_mismatch'' ''Invalid state'' None), v))"
proof -
  from loginWithRedirect_cases [OF assms(2-6)] obtain prep where
    prep: "prepared_bound br cfg (rd_authorizationParams options) prep" "pred_option json_wf (pp_max_age prep)"
      "st_web t = tm_create (cc_transactions cfg) (LoginTx (login_tx cfg options prep)) (st_web s)"
      "st_log t = st_log s @ [Assigned (pp_url prep @
         (if truthy (rd_fragment options) then ''#'' @ the (rd_fragment options) else []))]" by blast
  let ?tx = "login_tx cfg options prep"
  have "storage_laws (tm_storage (cc_transactions cfg)) (tm_cookieDomain (cc_transactions cfg))"
    using assms(1) by (simp add: tx_store_def)
  moreover have "transaction_wf (LoginTx ?tx)" using prep(2) assms(7) by (simp add: login_tx_def)
  ultimately have tx: "tm_get (cc_transactions cfg) (st_web u) = Inr (Some (LoginTx ?tx))"
    using storage_laws.tm_get_create [OF _ refl refl] prep(3) assms(8) by metis
  have ne: "pp_code_verifier prep \<noteq> []" "pp_state prep \<noteq> []" using prep(1) by (simp_all add: prepared_bound_def)
  have "handleRedirectCallback br cfg url u =
      andThen (handleLoginRedirectCallback br cfg r ?tx) (\<lambda>a. ret (LoginResult a)) v"
    using tx assms(9,10,12) by (simp add: handleRedirectCallback_def andThen_def andNext_def on_web_def Let_def)
  also have "\<dots> = (if ar_state r = Some (pp_state prep) then
         andNext (requestToken br cfg
            ([(''audience'', Some (JStr (pp_audience prep))), (''scope'', Some (JStr (pp_scope prep))),
              (''code_verifier'', Some (JStr (pp_code_verifier prep))),
              (''grant_type'', Some (JStr ''authorization_code'')), (''code'', str_param (ar_code r))] @
             (if truthy (pp_redirect_uri prep) then [(''redirect_uri'', str_param (pp_redirect_uri prep))] else []))
            \<lparr>rx_nonceIn = Some (pp_nonce prep), rx_organization = or_undefined (or_param cfg (opt_str (rd_authorizationParams options) ''organization'') ''organization''),
             rx_scopesToRequest = None, rx_max_age = pp_max_age prep\<rparr>)
           (ret (LoginResult (rd_appState options))) v
       else (Inl (GenericError ''state_mismatch'' ''Invalid state'' None), v))"
    using ne assms(11)
    by (auto simp: handleLoginRedirectCallback_def login_tx_def str_param_def act_simps split: prod.split sum.split)
  finally show ?thesis using prep by auto
qed

definition plain_redirect :: "'s redirect_options" where
  "plain_redirect = \<lparr>rd_authorizationParams = [], rd_appState = None, rd_fragment = None, rd_openUrl = OpenAbsent,
     rd_onRedirect = None\<rparr>"

lemma offline_fair: "fair_generator (br_getRandomValues (offline now))"
  unfolding fair_generator_def
  by (intro allI impI exI [of _ 0]) (simp add: nth_draw_def offline_def validMax_eq)

lemma prepare_returns:
  assumes "fair_generator (br_getRandomValues br)" and "\<not> cc_dpop cfg"
  shows "\<exists>prep w. prepareAuthorizeUrl br cfg ps mode fb s = (Inr prep, s\<lparr>st_world := w\<rparr>)"
proof -
  obtain a w where a: "random_string br s = (Inr a, s\<lparr>st_world := w\<rparr>)"
    using random_string_returns [OF assms(1)] by blast
  obtain n w' where n: "random_string br (s\<lparr>st_world := w\<rparr>) = (Inr n, s\<lparr>st_world := w'\<rparr>)"
    using random_string_returns [OF assms(1), of "s\<lparr>st_world := w\<rparr>"] by auto
  obtain v w'' where "random_string br (s\<lparr>st_world := w'\<rparr>) = (Inr v, s\<lparr>st_world := w''\<rparr>)"
    using random_string_returns [OF assms(1), of "s\<lparr>st_world := w'\<rparr>"] by auto
  with a n assms(2) show ?thesis by (simp add: prepareAuthorizeUrl_def andThen_def Let_def) blast
qed

lemma offline_redirect: "\<exists>t. loginWithRedirect (offline 5) (offline_client page_options) plain_redirect fresh_state = (Inr (), t)"
proof -
  have "\<not> cc_dpop (offline_client page_options)" by code_simp
  from prepare_returns [OF offline_fair this] obtain prep w where
    "prepareAuthorizeUrl (offline 5) (offline_client page_options) [] None None fresh_state =
      (Inr prep, fresh_state\<lparr>st_world := w\<rparr>)" by blast
  moreover have "apply_session_transfer (offline_client page_options) [] fresh_state = (Inr [], fresh_state)"
    by (simp add: apply_session_transfer_def applySessionTransferToken_def offline_client_def build_config_def
        merge_options_def page_options_def fresh_state_def Let_def)
  moreover have "applyAnonTransferToken (offline 5) (offline_client page_options) [] fresh_state = (Inr [], fresh_state)"
    by (simp add: applyAnonTransferToken_def client_mint_def anon_mintTransferToken_def client_anon_def andThen_def
        stored_session_token_def getSessionToken_def store_get_def local_value_def fresh_state_def)
  ultimately show ?thesis
    by (simp add: loginWithRedirect_def plain_redirect_def patchOpenUrlWithOnRedirect_def andThen_def andNext_def
        on_web_def logged_def Let_def)
qed

theorem redirect_login_bound_witness:
  "\<exists>prep. prepared_bound (offline 5) (offline_client page_options) [] prep \<and>
     last (st_log (snd (loginWithRedirect (offline 5) (offline_client page_options) plain_redirect fresh_state))) =
       Assigned (pp_url prep)"
proof -
  let ?cfg = "offline_client page_options :: (unit page_caches, string obj) client_config"
  let ?o = "plain_redirect :: (unit page_caches, unit, string obj) client_state redirect_options"
  obtain t where t: "loginWithRedirect (offline 5) ?cfg ?o fresh_state = (Inr (), t)" using offline_redirect by blast
  have "tx_store ?cfg" by (rule offline_tx.tx_store_axioms)
  moreover have "\<forall>f. patchOpenUrlWithOnRedirect (rd_openUrl ?o) (rd_onRedirect ?o) \<noteq> OpenWith f"
    by (simp add: plain_redirect_def patchOpenUrlWithOnRedirect_def)
  moreover have "params_wf (rd_authorizationParams ?o)" "pred_option json_wf (rd_appState ?o)"
    "params_wf (cc_params ?cfg)" "rd_fragment ?o = None"
    by (simp_all add: plain_redirect_def cc_params_def offline_client_def build_config_def merge_options_def
        page_options_def Let_def)
  moreover have "drop 1 (split_str ''?'' ''https://app.example?code=c&state=x'') \<noteq> []"
    "ar_error (parseAuthenticationResult (concat (drop 1 (split_str ''?'' ''https://app.example?code=c&state=x'')))) = None"
    by code_simp+
  ultimately obtain prep where "prepared_bound (offline 5) ?cfg (rd_authorizationParams ?o) prep"
      "last (st_log t) = Assigned (pp_url prep @ (if truthy (rd_fragment ?o) then ''#'' @ the (rd_fragment ?o) else []))"
    using redirect_login_bound [OF _ t _ offline_fair _ _ _ refl _ refl _ refl, of "''https://app.example?code=c&state=x''"] by blast
  with t show ?thesis by (auto simp: plain_redirect_def)
qed

end
