(* ===== verification/BareTokens.thy ===== *)
theory BareTokens
  imports ClientSession
begin

text \<open>
  What carries no refresh token: the replies of the worker, the answers of the token endpoint that
  came through it, the entries of a cache; and a judgement \<open>yields\<close> that follows them through a
  method.
\<close>

section \<open>Results and the state they leave\<close>

text \<open>\<open>yields I P m\<close>: \<open>m\<close> keeps \<open>I\<close>, and what it returns satisfies \<open>P\<close>.\<close>

definition yields :: "('s \<Rightarrow> bool) \<Rightarrow> ('a \<Rightarrow> bool) \<Rightarrow> ('s, 'e, 'a) act \<Rightarrow> bool" where
  "yields I P m \<longleftrightarrow> (\<forall>s r t. I s \<longrightarrow> m s = (r, t) \<longrightarrow> I t \<and> (\<forall>x. r = Inr x \<longrightarrow> P x))"

lemma yieldsI: "(\<And>s r t. I s \<Longrightarrow> m s = (r, t) \<Longrightarrow> I t \<and> (\<forall>x. r = Inr x \<longrightarrow> P x)) \<Longrightarrow> yields I P m"
  by (simp add: yields_def)

lemma yields_state: "yields I P m \<Longrightarrow> I s \<Longrightarrow> m s = (r, t) \<Longrightarrow> I t"
  by (simp add: yields_def)

lemma yields_result: "yields I P m \<Longrightarrow> I s \<Longrightarrow> m s = (Inr x, t) \<Longrightarrow> P x"
  by (simp add: yields_def)

lemma yields_effect: "yields I P m \<Longrightarrow> effect (\<lambda>s t. I s \<longrightarrow> I t) m"
  by (rule effectI) (simp add: yields_def)

lemma effect_yields:
  assumes "effect (\<lambda>s t. I s \<longrightarrow> I t) m"
  shows "yields I (\<lambda>_. True) m"
proof (rule yieldsI)
  fix s r t assume "I s" and "m s = (r, t)"
  with effectD [OF assms this(2)] show "I t \<and> (\<forall>x. r = Inr x \<longrightarrow> True)" by simp
qed

lemma yields_weaken: "yields I P m \<Longrightarrow> (\<And>x. P x \<Longrightarrow> Q x) \<Longrightarrow> yields I Q m"
  by (simp add: yields_def)

lemma yields_ret: "P x \<Longrightarrow> yields I P (ret x)"
  by (simp add: yields_def)

lemma yields_throw: "yields I P (throw e)"
  by (simp add: yields_def)

lemma yields_andThen:
  assumes m: "yields I P m" and f: "\<And>x. P x \<Longrightarrow> yields I Q (f x)"
  shows "yields I Q (andThen m f)"
proof (rule yieldsI)
  fix s r t assume I: "I s" and run: "andThen m f s = (r, t)"
  obtain q u where u: "m s = (q, u)" by force
  show "I t \<and> (\<forall>x. r = Inr x \<longrightarrow> Q x)"
  proof (cases q)
    case (Inl e)
    with u run yields_state [OF m I u] show ?thesis by (auto simp: andThen_def)
  next
    case (Inr x)
    with u run have "f x u = (r, t)" by (simp add: andThen_def)
    with f [OF yields_result [OF m I]] u Inr yields_state [OF m I u] show ?thesis
      by (simp add: yields_def)
  qed
qed

lemma yields_after: "effect (\<lambda>s t. I s \<longrightarrow> I t) m \<Longrightarrow> (\<And>x. yields I Q (f x)) \<Longrightarrow> yields I Q (andThen m f)"
  by (rule yields_andThen [OF effect_yields])

lemma yields_next: "effect (\<lambda>s t. I s \<longrightarrow> I t) m \<Longrightarrow> yields I Q n \<Longrightarrow> yields I Q (andNext m n)"
  unfolding andNext_def by (rule yields_after)

lemma yields_catching:
  assumes "yields I P m" and "\<And>e. yields I P (h e)"
  shows "yields I P (catching m h)"
proof (rule yieldsI)
  fix s r t assume I: "I s" and run: "catching m h s = (r, t)"
  obtain q u where u: "m s = (q, u)" by force
  show "I t \<and> (\<forall>x. r = Inr x \<longrightarrow> P x)"
  proof (cases q)
    case (Inl e)
    with u run have "h e u = (r, t)" by (simp add: catching_def)
    with assms(2) yields_state [OF assms(1) I u] show ?thesis unfolding yields_def by blast
  next
    case (Inr x)
    with u run have "r = Inr x" "t = u" by (simp_all add: catching_def)
    with yields_state [OF assms(1) I u] yields_result [OF assms(1) I] u Inr show ?thesis by blast
  qed
qed

lemma effect_after:
  assumes "yields I P m" and "\<And>x. P x \<Longrightarrow> effect (\<lambda>s t. I s \<longrightarrow> I t) (f x)"
  shows "effect (\<lambda>s t. I s \<longrightarrow> I t) (andThen m f)"
  by (rule yields_effect [OF yields_andThen [OF assms(1) effect_yields [OF assms(2)]]])

section \<open>What the worker answers\<close>

definition bare :: "json obj \<Rightarrow> bool" where
  "bare m \<longleftrightarrow> \<not> json_truthy (map_of m ''refresh_token'')"

lemma handler_clean: "reply_clean (fst (messageHandler net m tokens w))"
proof (cases "prepare m tokens")
  case (Inl r)
  then show ?thesis by (simp add: messageHandler_def prepare_clean)
next
  case (Inr p)
  obtain old o1 where "p = (old, o1)" by force
  moreover obtain outcome w' where "net (rm_fetchUrl m) o1 (rm_timeout m) w = (outcome, w')" by force
  ultimately show ?thesis
    using Inr finish_clean [of m old outcome tokens]
    by (cases "finish m old outcome tokens") (simp add: messageHandler_def)
qed

lemma handle_message_clean:
  assumes "handle_message parse_url net msg st w = (Some r, st', w')"
  shows "reply_clean r"
proof -
  obtain d st1 where d: "messageRouter parse_url msg st = (d, st1)" by force
  show ?thesis
  proof (cases d)
    case (Reply x)
    with d assms show ?thesis by (auto simp: handle_message_def dest: router_reply_clean)
  next
    case (StartRevoke m)
    with d assms revoke_clean [of net m "wk_refreshTokens st1" w] show ?thesis
      by (cases "revokeMessageHandler net m (wk_refreshTokens st1) w") (auto simp: handle_message_def)
  next
    case (StartRefresh m)
    with d assms handler_clean [of net m "wk_refreshTokens st1" w] show ?thesis
      by (cases "messageHandler net m (wk_refreshTokens st1) w") (auto simp: handle_message_def)
  qed (use d assms in \<open>simp add: handle_message_def\<close>)
qed

lemma send_clean:
  assumes "client_send br msg s = (Inr r, t)"
  shows "reply_clean r"
proof -
  obtain reply wk w where h: "handle_message (br_parse_url br) (br_network br) msg (st_worker s) (st_world s) = (reply, wk, w)"
    by (metis prod_cases3)
  with assms have res: "sendMessage_result reply = Inr r" by (simp add: client_send_def)
  show ?thesis
  proof (cases reply)
    case None
    with res show ?thesis by (auto simp: sendMessage_result_def)
  next
    case (Some x)
    with h have "reply_clean x" by (auto dest: handle_message_clean)
    with Some res show ?thesis by (cases x) (auto simp: sendMessage_result_def split: if_splits)
  qed
qed

lemma response_clean:
  "reply_clean reply \<Longrightarrow> reply_response reply = Inr r \<Longrightarrow> \<not> json_truthy (json_get (fr_json r) ''refresh_token'')"
  by (cases reply) (auto simp: reply_response_def json_get_def json_truthy_def)

lemma index_key: "map_of (zip (map show_nat ns) vs) ''refresh_token'' = None"
proof -
  have "show_nat n \<noteq> ''refresh_token''" for n
    using is_digit_hd_show_nat [of n] by (auto simp: is_digit_def)
  then have "\<forall>n. ''refresh_token'' \<noteq> show_nat n" by metis
  then show ?thesis by (auto simp: map_of_eq_None_iff dest!: set_zip_leftD)
qed

lemma own_bare: "own_properties v = Inr m \<Longrightarrow> \<not> json_truthy (json_get v ''refresh_token'') \<Longrightarrow> bare m"
  by (cases v) (use json_truthy_def [of None] in \<open>auto simp: bare_def json_get_def index_key\<close>)

lemma yields_both: "effect (\<lambda>s t. I s \<longrightarrow> I t) m \<Longrightarrow> yields (\<lambda>_. True) P m \<Longrightarrow> yields I P m"
  unfolding yields_def by (blast dest: effectD)

lemma free_effect: "effect (\<lambda>s t. True \<longrightarrow> True) m"
  by (simp add: effect_def)

lemma attempts_yield: "yields I P m \<Longrightarrow> yields I P (fetch_attempts m k)"
  by (induction k) (auto intro: yields_catching)

lemma response_of_reply:
  "(case reply_response v of Inl e \<Rightarrow> throw e | Inr r \<Rightarrow> ret r) s = (Inr x, t) \<longleftrightarrow> reply_response v = Inr x \<and> s = t"
  by (auto split: sum.split)

lemma switch_bare:
  assumes "cc_worker cfg"
  shows "yields (\<lambda>_. True) (\<lambda>r. \<not> json_truthy (json_get (fr_json r) ''refresh_token'')) (switchFetch (client_http br cfg) u o1 c)"
proof (rule yieldsI)
  fix s r t assume "switchFetch (client_http br cfg) u o1 c s = (r, t)"
  moreover obtain send where send: "ho_worker (client_http br cfg) = Some send" "send = client_send br"
    using assms by (simp add: client_http_def)
  ultimately have "\<not> json_truthy (json_get (fr_json x) ''refresh_token'')" if r: "r = Inr x" for x
  proof -
    obtain msg reply v where "client_send br msg s = (Inr reply, v)" "reply_response reply = Inr x"
      using \<open>switchFetch _ _ _ _ s = (r, t)\<close> r send
      by (auto simp: switchFetch_def fetchWithWorker_def andThen_Inr_iff response_of_reply)
    then show ?thesis using response_clean [OF send_clean] by blast
  qed
  then show "True \<and> (\<forall>x. r = Inr x \<longrightarrow> \<not> json_truthy (json_get (fr_json x) ''refresh_token''))" by blast
qed

lemma handle_bare:
  assumes "yields (\<lambda>_. True) bare retry" and "\<not> json_truthy (json_get (fr_json response) ''refresh_token'')"
  shows "yields (\<lambda>_. True) bare (handle_response dpop u c again retry response)"
proof (cases "own_properties (fr_json response)")
  case (Inr m)
  have "bare (response_data m)" using own_bare [OF Inr assms(2)]
    by (simp add: bare_def response_data_def map_of_filter_key [of "\<lambda>k. k \<noteq> ''error'' \<and> k \<noteq> ''error_description''"])
  with Inr assms(1) show ?thesis
    unfolding handle_response_def Let_def
    by (auto intro!: yields_next free_effect yields_ret yields_throw split: option.split)
qed (simp add: handle_response_def yields_throw)

lemma getJSON_bare:
  assumes "cc_worker cfg"
  shows "yields (\<lambda>_. True) bare (getJSON (client_http br cfg) dpop u o1 c again)"
proof -
  have step: "yields (\<lambda>_. True) bare (getJSON (client_http br cfg) dpop u o1 c again)"
    if "\<And>o2. yields (\<lambda>_. True) bare (if again then throw (UseDpopNonceError None) else getJSON (client_http br cfg) dpop u o2 c True)"
    for o1 again
    unfolding getJSON.simps [of _ _ _ _ _ again]
    by (intro yields_after free_effect yields_andThen [OF attempts_yield [OF switch_bare [OF assms]] handle_bare] that)
  have "yields (\<lambda>_. True) bare (getJSON (client_http br cfg) dpop u o2 c True)" for o2
    by (rule step) (simp add: yields_throw)
  then show ?thesis by (intro step) (simp add: yields_throw)
qed

section \<open>What the cache of the page holds\<close>

definition bare_cache :: "'c icache \<Rightarrow> 'c \<Rightarrow> bool" where
  "bare_cache ic c \<longleftrightarrow> (\<forall>j b x. ic_get ic c j = Some (Wrapped b x) \<longrightarrow> \<not> truthy (ce_refresh_token b))"

lemma bareD: "bare_cache ic c \<Longrightarrow> ic_get ic c j = Some (Wrapped b x) \<Longrightarrow> \<not> truthy (ce_refresh_token b)"
  unfolding bare_cache_def by blast

context cache_laws
begin

lemma bare_set:
  "bare_cache ic c \<Longrightarrow> ok v \<Longrightarrow> (\<And>b x. v = Wrapped b x \<Longrightarrow> \<not> truthy (ce_refresh_token b)) \<Longrightarrow> bare_cache ic (ic_set ic k v c)"
  by (auto simp: bare_cache_def get_set)

lemma bare_remove: "bare_cache ic c \<Longrightarrow> bare_cache ic (ic_remove ic k c)"
  by (auto simp: bare_cache_def get_remove)

lemma bare_refresh_entry:
  assumes "cm_cache m = ic" "bare_cache ic c"
  shows "getEntryWithRefreshToken m k keys c = None"
  using getEntryWithRefreshToken_Some [of m k keys c] bareD [OF assms(2)] assms(1)
  by (cases "getEntryWithRefreshToken m k keys c") blast+

lemma bare_found:
  assumes m: "cm_cache m = ic" "cm_keyManifest m = None" and c: "bare_cache ic c" and w: "ic_get ic c j = Some w"
    and run: "cm_get_found m now adj w k c = (e, c')"
  shows "bare_cache ic c' \<and> (\<forall>b. e = Some b \<longrightarrow> \<not> truthy (ce_refresh_token b))"
proof (cases w)
  case (Wrapped b x)
  with bareD [OF c] w have "\<not> truthy (ce_refresh_token b)" by blast
  with Wrapped run c m bare_remove [OF c, of "toKey k"] show ?thesis
    by (auto simp: cm_get_found_def cm_untrack_def Let_def split: if_splits)
qed (use run c in \<open>auto simp: cm_get_found_def\<close>)

lemma bare_get:
  assumes m: "cm_cache m = ic" "cm_keyManifest m = None" and c: "bare_cache ic c"
    and run: "cm_get m now k adj mrrt mode c = (e, c')"
  shows "bare_cache ic c' \<and> (\<forall>b. e = Some b \<longrightarrow> \<not> truthy (ce_refresh_token b))"
  using run c bare_found [OF m c] bare_refresh_entry [OF m(1) c]
  by (auto simp: cm_get_def m Let_def bind_eq_Some_conv split: option.splits if_splits)

lemma bare_id_token:
  assumes m: "cm_cache m = ic" "cm_keyManifest m = None" and c: "bare_cache ic c"
  shows "bare_cache ic (snd (cm_getIdToken m now k c))"
  using bare_get [OF m c, of now k 0 False None] c
  by (auto simp: cm_getIdToken_def split: option.split cacheable.split prod.split)

lemma bare_clear:
  assumes m: "cm_cache m = ic" "cm_keyManifest m = None" and c: "bare_cache ic c"
  shows "bare_cache ic (cm_clear m cid c)"
  using c get_fold_remove by (auto simp: cm_clear_def m bare_cache_def Let_def split: option.split if_splits)

lemma bare_strip:
  assumes m: "cm_cache m = ic" and c: "bare_cache ic c"
  shows "bare_cache ic (stripRefreshToken m rt c)"
proof -
  have "bare_cache ic (strip_step m rt k d)" if "bare_cache ic d" for k d
    using that by (auto simp: strip_step_def m truthy_def intro!: bare_set dest: get_ok ok_refresh split: option.split cacheable.split)
  then have "bare_cache ic (fold (strip_step m rt) ks d)" if "bare_cache ic d" for ks d
    using that by (induction ks arbitrary: d) simp_all
  with c show ?thesis by (simp add: stripRefreshToken_def split: option.split)
qed

end

end
