(* ===== verification/WorkerCalls.thy ===== *)
theory WorkerCalls
  imports BareTokens OnlinePage
begin

text \<open>
  A call of the token endpoint through the worker, from the form the page sends to the answer the
  page gets: a run of the client with a worker that succeeds.
\<close>

section \<open>The form\<close>

text \<open>The worker reads the body the page has built as the same parameters, as strings.\<close>

lemma map_of_strip: "obj_wf ps \<Longrightarrow> map_of (stripUndefined ps) k = Option.bind (map_of ps k) id"
proof (induction ps)
  case (Cons p ps)
  obtain j v where p: "p = (j, v)" by force
  with Cons.prems have "map_of ps j = None" "obj_wf ps" by (simp_all add: obj_wf_def map_of_eq_None_iff)
  with Cons.IH p show ?case by (cases v) (simp_all add: stripUndefined_def)
qed (simp add: stripUndefined_def)

lemma form_body:
  "map_of (formDataToObject (createQueryParams ps)) k =
     map_option (\<lambda>v. JStr (js_to_string v))
       (Option.bind (map_of (obj_spread [(''client_id'', Option.bind (map_of ps ''clientId'') id)]
          (AList.delete ''clientId'' ps)) k) id)"
proof -
  let ?all = "obj_spread [(''client_id'', Option.bind (map_of ps ''clientId'') id)] (AList.delete ''clientId'' ps)"
  let ?m = "map (\<lambda>(k, v). (k, JStr (js_to_string v))) (stripUndefined ?all)"
  have wf: "obj_wf ?all" by (rule obj_wf_spread) (simp add: obj_wf_def)
  have "map fst ?m = map fst (filter (\<lambda>(k, v). v \<noteq> None) ?all)"
    by (simp add: stripUndefined_def case_prod_beta)
  with distinct_map_filter [OF wf [unfolded obj_wf_def], of "\<lambda>(k, v). v \<noteq> None"]
  have "distinct (map fst [] @ map fst ?m)" by (simp del: map_map)
  from obj_spread_distinct [OF this] have "formDataToObject (createQueryParams ps) = ?m"
    by (simp add: formDataToObject_def createQueryParams_parse split_def comp_def)
  then show ?thesis
    using map_of_strip [OF wf, of k] by (simp add: map_of_map)
qed

section \<open>The answer\<close>

lemma other_grant_prepared:
  assumes "rm_useFormData m" and "fo_body (rm_fetchOptions m) = Some (createQueryParams ps)"
    and "map_of (obj_spread [(''client_id'', Option.bind (map_of ps ''clientId'') id)] (AList.delete ''clientId'' ps)) ''grant_type'' =
      Some (Some (JStr g))" "g \<noteq> ''refresh_token''"
  shows "\<exists>old. prepare m tokens = Inr (old, rm_fetchOptions m)"
proof -
  have given: "or_default (Some x) [] = x" for x by (simp add: or_default_def truthy_def)
  have "json_get (JObj (formDataToObject (createQueryParams ps))) ''grant_type'' \<noteq> Some (JStr ''refresh_token'')"
    using assms(3,4) form_body [of ps "''grant_type''"] by (simp add: json_get_def)
  with assms(1,2) show ?thesis by (simp add: prepare_def parse_body_def given Let_def)
qed

lemma worker_oauth:
  assumes cfg: "cc_worker cfg"
    and allowed: "isAuthorizedWorkerRequest (br_parse_url br) (wk_allowedBaseUrl (st_worker s)) (te_baseUrl o1 @ ''/oauth/token'') ''/oauth/token''"
    and form: "te_useFormData o1" "token_params o1 = ps" "opt_str (te_options o1) ''grant_type'' = Some g" "g \<noteq> ''refresh_token''"
      "g \<noteq> ''urn:okta:params:oauth:grant-type:webauthn''"
      "map_of (obj_spread [(''client_id'', Option.bind (map_of ps ''clientId'') id)] (AList.delete ''clientId'' ps)) ''grant_type'' =
        Some (Some (JStr g))"
    and answer: "json_wf (JObj result)" "\<And>u options timeout w. br_network br u options timeout w =
      (Response \<lparr>rr_status = 200, rr_ok = True, rr_headers = [], rr_text = stringify (JObj result)\<rparr>, w)"
  shows "\<exists>t. oauthToken (client_http br cfg) None o1 True s = (Inr (response_data (AList.delete ''refresh_token'' result)), t) \<and>
    st_user t = st_user s \<and> st_cache t = st_cache s"
proof -
  have parse: "json_parse (stringify (JObj result)) = Some (JObj result)"
    by (rule json_parse_stringify [OF answer(1)])
  have "client_send br (RefreshMsg m) s = (Inr (ReplyJson True (JObj (AList.delete ''refresh_token'' result)) []),
      s\<lparr>st_log := st_log s @ [Messaged (RefreshMsg m)]\<rparr>)"
    if m: "rm_fetchUrl m = te_baseUrl o1 @ ''/oauth/token''" "rm_useFormData m" "fo_body (rm_fetchOptions m) = Some (createQueryParams ps)"
      "rm_skipTokenStorage m" for m
  proof -
    obtain old where "prepare m (wk_refreshTokens (st_worker s)) = Inr (old, rm_fetchOptions m)"
      using other_grant_prepared [OF m(2,3) form(6,4)] by blast
    with m(1,4) allowed answer(2) parse show ?thesis
      by (simp add: client_send_def handle_message_def messageRouter_def messageHandler_def finish_def without_refresh_token_def
          sendMessage_result_def fromEntries_def)
  qed
  with cfg form show ?thesis
    by (simp add: oauthToken_def getJSON.simps with_proof_def switchFetch_def client_http_def fetchWithWorker_def reply_response_def
        handle_response_def own_properties.simps uses_json_def DEFAULT_SILENT_TOKEN_RETRY_COUNT_def act_simps Let_def numeral_eq_Suc)
qed

end
