(* ===== verification/PageTokens.thy ===== *)
theory PageTokens
  imports WorkerCalls
begin

text \<open>
  Refresh tokens and the page: a client that keeps them in the worker (\<open>cacheLocation: 'memory'\<close>
  with \<open>useRefreshTokens\<close> in a browser with workers) never holds one itself. No method stores one
  in the cache of the page or returns one to the application, in whatever order the methods are
  called and whatever the token endpoint answers.
\<close>

section \<open>The methods of the client\<close>

definition page_bare :: "('c, 'w) client_config \<Rightarrow> ('c, 'k, 'w) client_state \<Rightarrow> bool" where
  "page_bare cfg s \<longleftrightarrow> bare_cache (cm_cache (cc_manager cfg)) (st_cache s)"

text \<open>
  With online access a token of the caller's is carried over into the cache when the answer has
  none; so no caller may pass one.
\<close>

definition no_token_given :: "('c, 'w) client_config \<Rightarrow> params \<Rightarrow> bool" where
  "no_token_given cfg ps \<longleftrightarrow> cc_onlineAccess cfg \<longrightarrow> ''refresh_token'' \<notin> fst ` set ps"

lemma no_token_simps [simp]:
  "no_token_given cfg []"
  "no_token_given cfg ((k, v) # ps) \<longleftrightarrow> (cc_onlineAccess cfg \<longrightarrow> k \<noteq> ''refresh_token'') \<and> no_token_given cfg ps"
  "no_token_given cfg (ps @ qs) \<longleftrightarrow> no_token_given cfg ps \<and> no_token_given cfg qs"
  by (auto simp: no_token_given_def)

lemma no_token_spread: "no_token_given cfg a \<Longrightarrow> no_token_given cfg b \<Longrightarrow> no_token_given cfg (obj_spread a b)"
  using obj_spread_set [of a b] by (auto simp: no_token_given_def)

lemma no_token_opt:
  assumes "no_token_given cfg ps" "cc_onlineAccess cfg"
  shows "opt_str ps ''refresh_token'' = None"
proof -
  have "map_of ps ''refresh_token'' = None"
    using assms by (simp add: no_token_given_def map_of_eq_None_iff)
  then show ?thesis by (simp add: opt_str_def json_str_def)
qed

interpretation bare_page: net_frame "\<lambda>s t. page_bare cfg s \<longrightarrow> page_bare cfg t" for cfg
  by unfold_locales (simp_all add: page_bare_def preorder_rel_def)

locale worker_page =
  cache: cache_laws "cm_cache (cc_manager cfg)" "\<lambda>_. True"
  for cfg :: "('c, 'w) client_config" +
  fixes br :: "('k, 'w) browser"
  assumes worker: "cc_worker cfg" and no_manifest: "cm_keyManifest (cc_manager cfg) = None"
    and configured: "no_token_given cfg (cc_params cfg)"
begin

abbreviation kept :: "(('c, 'k, 'w) client_state, js_error, 'a) act \<Rightarrow> bool" where
  "kept m \<equiv> effect (\<lambda>s t. page_bare cfg s \<longrightarrow> page_bare cfg t) m"

lemma pre: "preorder_rel (\<lambda>s t. page_bare cfg s \<longrightarrow> page_bare cfg t)"
  by (auto simp: preorder_rel_def)

lemma kept_cache: "(\<And>c. bare_cache (cm_cache (cc_manager cfg)) c \<Longrightarrow> bare_cache (cm_cache (cc_manager cfg)) (snd (f c))) \<Longrightarrow>
    kept (on_cache f)"
  by (auto simp: effect_def on_cache_def page_bare_def split: prod.splits) (metis snd_conv)

lemma kept_same [effect_intro]: "(\<And>s. st_cache (f s) = st_cache s) \<Longrightarrow> kept (modify f)"
  by (rule effect_modify) (simp add: page_bare_def)

lemma kept_web [effect_intro]: "kept (on_web f)"
  unfolding on_web_def by (rule kept_same) simp

lemma kept_clear_cache [effect_intro]: "kept (on_cache (\<lambda>c. ((), cm_clear (cc_manager cfg) cid c)))"
  by (rule kept_cache) (simp add: cache.bare_clear no_manifest)

lemma kept_remove [effect_intro]: "kept (on_cache (\<lambda>c. ((), cm_remove (cc_manager cfg) cid a sc c)))"
  by (rule kept_cache) (simp add: cm_remove_def cache.bare_remove)

lemma kept_strip [effect_intro]: "kept (on_cache (\<lambda>c. ((), stripRefreshToken (cc_manager cfg) rt c)))"
  by (rule kept_cache) (simp add: cache.bare_strip)

lemma got_bare:
  "yields (page_bare cfg) (\<lambda>e. \<not> truthy (Option.bind e ce_refresh_token))
     (client_get br cfg scope audience adj mode :: (('c, 'k, 'w) client_state, js_error, cache_entry option) act)"
proof (rule yieldsI)
  fix s r and t :: "('c, 'k, 'w) client_state"
  assume I: "page_bare cfg s" and run: "client_get br cfg scope audience adj mode s = (r, t)"
  obtain e c where g: "cm_get (cc_manager cfg) (client_now br s) (new_CacheKey (Some (cc_clientId cfg)) scope (Some audience))
      adj (co_useMrrt (cc_options cfg)) mode (st_cache s) = (e, c)" by force
  from cache.bare_get [OF refl no_manifest _ g] I run g
  show "page_bare cfg t \<and> (\<forall>x. r = Inr x \<longrightarrow> \<not> truthy (Option.bind x ce_refresh_token))"
    by (cases e) (auto simp: client_get_def on_cache_def page_bare_def truthy_def)
qed

lemmas kept_get [effect_intro] = yields_effect [OF got_bare]

lemma kept_id_token [effect_intro]: "kept (getIdTokenFromCache br cfg)"
  using cache.bare_id_token [OF refl no_manifest]
  by (auto simp: effect_def getIdTokenFromCache_def page_bare_def Let_def split: prod.split) (metis snd_conv)+

lemma kept_entry [effect_intro]: "kept (getEntryFromCache br cfg scope audience mode)"
  unfolding getEntryFromCache_def by (auto intro!: effect_intro pre split: option.split)

lemma kept_ceiling_read [effect_intro]: "kept (\<lambda>s. case st_user s of
    Some i \<Rightarrow> (Inr (Some i), s)
  | None \<Rightarrow> on_cache (cm_getIdToken (cc_manager cfg) (client_now br s) k) s)"
  using cache.bare_id_token [OF refl no_manifest]
  by (auto simp: effect_def on_cache_def page_bare_def split: option.split prod.split) (metis snd_conv)

lemma kept_clear [effect_intro]: "kept (clearLocalSession br cfg cid)"
  unfolding clearLocalSession_def by (auto intro!: effect_intro pre)

lemma kept_ceiling [effect_intro]: "kept (isSessionCeilingReached br cfg)"
  unfolding isSessionCeilingReached_def Let_def by (auto intro!: effect_intro pre split: option.split)

lemma kept_user [effect_intro]: "kept (getUser br cfg)" "kept (getIdTokenClaims br cfg)" "kept (isAuthenticated br cfg)"
  unfolding getUser_def getIdTokenClaims_def isAuthenticated_def by (auto intro!: effect_intro pre)

lemma kept_check_user [effect_intro]: "kept (check_user br cfg d)"
  unfolding check_user_def by (auto intro!: effect_intro pre simp: Let_def)

lemma kept_pin [effect_intro]: "kept (pin_ceiling br cfg d)"
  unfolding pin_ceiling_def by (auto intro!: effect_intro pre)

lemma oauth_bare:
  "yields (page_bare cfg) bare (oauthToken (client_http br cfg) (client_dpop br cfg) o1 skip
     :: (('c, 'k, 'w) client_state, js_error, json obj) act)"
  by (rule yields_both [OF bare_page.oauth_step]) (simp add: oauthToken_def Let_def getJSON_bare [OF worker])

lemma carry_bare:
  assumes given: "cc_onlineAccess cfg \<longrightarrow> \<not> truthy (opt_str ps ''refresh_token'')" and r: "bare r"
  shows "yields (page_bare cfg) bare (carry_refresh_token br cfg ps scope r
     :: (('c, 'k, 'w) client_state, js_error, json obj) act)"
proof (cases "cc_onlineAccess cfg")
  case True
  have put: "yields (page_bare cfg) bare (ret (case t of None \<Rightarrow> AList.delete ''refresh_token'' r
      | Some v \<Rightarrow> AList.update ''refresh_token'' (JStr v) r) :: (('c, 'k, 'w) client_state, js_error, json obj) act)"
    if "\<not> truthy t" for t
    using that by (intro yields_ret) (auto simp: bare_def json_truthy_def truthy_def update_conv' split: option.split)
  have "yields (page_bare cfg) (\<lambda>t. \<not> truthy t) ((case opt_str ps ''refresh_token'' of Some t \<Rightarrow> ret (Some t)
     | None \<Rightarrow> andThen (client_get br cfg scope audience 0 None) (\<lambda>e. ret (Option.bind e ce_refresh_token)))
     :: (('c, 'k, 'w) client_state, js_error, string option) act)" for audience
    using given True by (auto intro!: yields_ret yields_andThen [OF got_bare] split: option.split)
  from yields_andThen [OF this put] r show ?thesis
    unfolding carry_refresh_token_def by (auto intro: yields_ret)
qed (use r in \<open>simp add: carry_refresh_token_def yields_ret\<close>)

lemma kept_save:
  assumes "\<not> truthy (ce_refresh_token e)"
  shows "kept (saveEntryInCache br cfg e t d)"
proof -
  have "kept (on_cache (\<lambda>c. ((), cm_setIdToken (cc_manager cfg) (cc_clientId cfg) t d c)))"
    by (rule kept_cache) (auto simp: cm_setIdToken_def cm_track_def no_manifest Let_def intro: cache.bare_set)
  moreover have "kept (\<lambda>s. on_cache (\<lambda>c. ((), cm_set (cc_manager cfg) (client_now br s) e c)) s)"
    using assms by (auto simp: effect_def on_cache_def page_bare_def cm_set_def cm_track_def no_manifest wrapCacheEntry_def
        Let_def intro!: cache.bare_set)
  ultimately show ?thesis
    unfolding saveEntryInCache_def by (auto intro!: effect_intro pre split: option.split)
qed

lemma json_str_truthy: "truthy (json_str v) \<Longrightarrow> json_truthy v"
  by (auto simp: json_str_def json_truthy_def truthy_def split: option.splits json.splits)

lemma establish_bare:
  assumes "bare r"
  shows "yields (page_bare cfg) (\<lambda>p. bare (fst p)) (establish_session br cfg ps extra r d
     :: (('c, 'k, 'w) client_state, js_error, json obj \<times> jwt_decoded) act)"
proof -
  have "\<not> truthy (ce_refresh_token (entry_of_result cfg ps r))"
    using assms json_str_truthy by (auto simp: bare_def entry_of_result_def)
  with assms show ?thesis
    unfolding establish_session_def processOrgHint_def
    by (intro yields_next kept_save kept_web effect_if yields_ret) simp_all
qed

lemma request_bare:
  assumes "cc_onlineAccess cfg \<longrightarrow> \<not> truthy (opt_str ps ''refresh_token'')"
  shows "yields (page_bare cfg) (\<lambda>p. bare (fst p)) (requestToken br cfg ps extra
     :: (('c, 'k, 'w) client_state, js_error, json obj \<times> jwt_decoded) act)"
proof -
  have decided: "kept (if is_code_grant ps then andNext (check_user br cfg d) (ret d) else pin_ceiling br cfg d)" for d
    by (auto intro!: effect_intro pre)
  show ?thesis
    unfolding requestToken_def Let_def
    by (intro yields_catching yields_andThen [OF oauth_bare] yields_after [OF bare_page.verify_step] yields_after [OF decided]
        yields_andThen [OF carry_bare [OF assms]] establish_bare yields_next yields_throw)
      (auto intro!: effect_intro pre)
qed

lemma granted_bare:
  "no_token_given cfg ps \<Longrightarrow> yields (page_bare cfg) (\<lambda>p. bare (fst p)) (requestToken br cfg ps extra
     :: (('c, 'k, 'w) client_state, js_error, json obj \<times> jwt_decoded) act)"
  by (rule request_bare) (simp add: no_token_opt truthy_def)

lemmas kept_request = yields_effect [OF granted_bare]

lemma kept_propagate: "bare r \<Longrightarrow> kept (propagateRotatedRefreshToken cfg old (json_str (map_of r ''refresh_token'')))"
  using json_str_truthy by (auto simp: bare_def propagateRotatedRefreshToken_def intro!: effect_intro pre)

lemma kept_lock [effect_intro]: "kept m \<Longrightarrow> kept (with_lock br cfg key t m)"
  by (rule with_lock_blind [OF pre]) (simp_all add: page_bare_def)

lemma kept_awaited [effect_intro]: "kept (awaited wt)"
  unfolding awaited_def by (auto intro!: effect_intro pre split: sum.split)

lemma kept_popup [effect_intro]: "kept (loginWithPopup br cfg ps config)"
  unfolding loginWithPopup_def open_popup_def
  by (auto intro!: effect_intro kept_request pre simp: code_request_def split: option.split)

lemma kept_silent_logout [effect_intro]: "kept (logout br cfg logout_silently)"
  unfolding logout_def logout_silently_def patchOpenUrlWithOnRedirect_def by (auto intro!: effect_intro pre)

lemma kept_revoke [effect_intro]: "kept (revokeRefreshToken br cfg audience)"
  unfolding revokeRefreshToken_def Let_def by (auto intro!: effect_intro pre)

lemma kept_iframe [effect_intro]:
  "no_token_given cfg (gt_params options) \<Longrightarrow> kept (getTokenFromIFrame br cfg options)"
  unfolding getTokenFromIFrame_def iframe_callback_def
  by (auto intro!: effect_intro kept_request no_token_spread pre)

lemma refresh_params_bare:
  "\<not> truthy (Option.bind entry ce_refresh_token) \<Longrightarrow> \<not> truthy (opt_str (refresh_params br cfg options entry) ''refresh_token'')"
  by (auto simp: refresh_params_def opt_str_def map_of_obj_spread str_param_def json_str_def truthy_def
      split: option.splits)

lemma kept_refresh [effect_intro]:
  assumes "no_token_given cfg (gt_params options)"
  shows "kept (getTokenUsingRefreshToken br cfg options)"
proof -
  have exchange: "kept (refresh_exchange br cfg options entry)" if "\<not> truthy (Option.bind entry ce_refresh_token)" for entry
    unfolding refresh_exchange_def Let_def
  proof (rule effect_after [OF request_bare], goal_cases)
    case 1
    show ?case using refresh_params_bare [OF that] by blast
  next
    case (2 p)
    with assms show ?case by (auto intro!: effect_intro kept_propagate pre simp: Let_def)
  qed
  have failed: "kept (refresh_failed br cfg options e)" for e
    unfolding refresh_failed_def using assms by (auto intro!: effect_intro pre)
  show ?thesis
    unfolding getTokenUsingRefreshToken_def
    by (intro effect_after [OF got_bare]) (use assms in \<open>auto intro!: effect_intro exchange failed pre\<close>)
qed

lemma merged_free: "no_token_given cfg ps \<Longrightarrow> no_token_given cfg (merged_params cfg ps)"
  unfolding merged_params_def by (intro no_token_spread configured) simp_all

lemma kept_interactive [effect_intro]: "kept (handleInteractiveErrorWithPopup br cfg options)"
  unfolding handleInteractiveErrorWithPopup_def by (auto intro!: effect_intro pre split: option.split)

lemma kept_locked [effect_intro]:
  "no_token_given cfg (gt_params options) \<Longrightarrow> kept (locked_request br cfg options)"
  unfolding locked_request_def Let_def by (auto intro!: effect_intro pre split: option.split)

lemma kept_silently [effect_intro]:
  assumes "no_token_given cfg ps"
  shows "kept (getTokenSilently br cfg mode ps timeout)"
  unfolding getTokenSilently_def getTokenSilently_inner_def
  by (auto intro!: effect_intro pre merged_free assms simp: silent_options_of_def split: option.split)

lemma kept_store [effect_intro]: "kept (on_store (client_anon br cfg) f)"
  unfolding on_store_def client_anon_simps by (auto intro!: effect_intro pre)

lemma kept_maybe_anonymous [effect_intro]: "kept (maybeCreateAnonymousSession br cfg)"
  unfolding maybeCreateAnonymousSession_def anon_getTokenSilently_def anon_renew_def put_slot_def
  by (auto intro!: effect_intro pre simp: client_anon_simps split: prod.split js_error.split)

lemma kept_check_session [effect_intro]:
  assumes "no_token_given cfg ps"
  shows "kept (checkSession br cfg mode ps timeout)"
  by (rule check_session_effect [OF pre kept_silently [OF assms] kept_maybe_anonymous]) (rule kept_web)+

lemma kept_token_popup [effect_intro]: "kept (getTokenWithPopup br cfg ps config)"
  unfolding getTokenWithPopup_def Let_def by (auto intro!: effect_intro pre split: option.split)

lemma kept_hooks:
  "kept (fh_getAccessToken (createFetcher_hooks br cfg i) a)"
  "kept (fh_getDpopNonce (createFetcher_hooks br cfg i))"
  "kept (fh_setDpopNonce (createFetcher_hooks br cfg i) n)"
  "kept (fh_generateDpopProof (createFetcher_hooks br cfg i) u m nn t)"
  unfolding createFetcher_hooks_def getDpopNonce_def setDpopNonce_def generateDpopProof_def assertDpop_def
  by (auto intro!: effect_intro pre simp: fetcher_params_def)

lemma kept_window_fetch [effect_intro]: "kept (window_fetch br r)"
  unfolding window_fetch_def logged_def by (auto intro!: effect_intro pre)

lemma kept_fetcher [effect_intro]: "kept (createFetcher br cfg baseUrl i info init a)"
  unfolding createFetcher_def
  by (rule fetchWithAuth_effect) (auto intro!: pre kept_window_fetch kept_hooks simp: ft_getAccessToken_def)

lemma kept_my_account [effect_intro]: "kept (my_account_fetch br cfg u init a)"
  unfolding my_account_fetch_def Let_def
  by (auto intro!: effect_intro fetchWithAuth_effect pre kept_window_fetch kept_hooks
      simp: ft_getAccessToken_def fetcher_params_def)

lemma kept_account_call [effect_intro]: "kept (ma_call (my_account_fetch br cfg) u init scope)"
  unfolding ma_call_def ma_result_def by (auto intro!: effect_intro pre split: sum.split)

lemma kept_redirect_callback [effect_intro]: "kept (handleRedirectCallback br cfg url)"
proof -
  have read: "kept (\<lambda>s. (tm_get (cc_transactions cfg) (st_web s), s))" by (simp add: effect_def)
  show ?thesis
    unfolding handleRedirectCallback_def handleLoginRedirectCallback_def handleConnectAccountRedirectCallback_def
      completeAccount_def Let_def
    by (auto intro!: effect_intro pre read kept_request split: transaction.split option.split)
qed

lemma kept_redirect [effect_intro]:
  "rd_openUrl options = OpenAbsent \<Longrightarrow> rd_onRedirect options = None \<Longrightarrow> kept (loginWithRedirect br cfg options)"
  unfolding loginWithRedirect_def Let_def patchOpenUrlWithOnRedirect_def by (auto intro!: effect_intro pre)

lemma kept_logout [effect_intro]:
  "lo_openUrl options \<in> {OpenAbsent, OpenFalse} \<Longrightarrow> lo_onRedirect options = None \<Longrightarrow> kept (logout br cfg options)"
  unfolding logout_def Let_def patchOpenUrlWithOnRedirect_def by (auto intro!: effect_intro pre)

lemma kept_connect [effect_intro]:
  assumes "cn_openUrl options = None"
  shows "kept (connectAccountWithRedirect br cfg options)"
proof -
  have opened: "kept (case cn_openUrl options of Some f \<Rightarrow> f u | None \<Rightarrow> logged (Assigned u))" for u
    using assms by (auto intro!: effect_intro pre)
  show ?thesis
    unfolding connectAccountWithRedirect_def connectAccount_def Let_def
    by (auto intro!: effect_intro pre opened split: prod.split)
qed

lemma login_exchange_bare:
  assumes "no_token_given cfg ps"
  shows "yields (page_bare cfg) bare (loginWithCustomTokenExchange br cfg ps
     :: (('c, 'k, 'w) client_state, js_error, json obj) act)"
proof -
  have "no_token_given cfg (buildTokenExchangeParams cfg ps)"
    unfolding buildTokenExchangeParams_def Let_def given_def using assms by (intro no_token_spread) simp_all
  then show ?thesis
    unfolding loginWithCustomTokenExchange_def Let_def
    by (intro yields_andThen [OF granted_bare] yields_ret)
qed

lemma exchange_bare:
  "yields (page_bare cfg) bare (customTokenExchange br cfg ps :: (('c, 'k, 'w) client_state, js_error, json obj) act)"
proof -
  have checked: "yields (page_bare cfg) bare (if b then andNext (verifyIdToken br cfg u n org mx) (ret r) else ret r
      :: (('c, 'k, 'w) client_state, js_error, json obj) act)" if "bare r" for b u n org mx r
    using that by (auto intro!: yields_next bare_page.verify_step yields_ret)
  show ?thesis
    unfolding customTokenExchange_def Let_def
    by (intro yields_catching yields_andThen [OF oauth_bare checked] yields_next bare_page.store_mfa_step yields_throw)
qed

lemma passkey_bare:
  "yields (page_bare cfg) bare (requestTokenForPasskey br cfg g :: (('c, 'k, 'w) client_state, js_error, json obj) act)"
  unfolding requestTokenForPasskey_def Let_def
  by (intro yields_catching yields_andThen [OF granted_bare] yields_ret yields_throw) simp_all

lemma mfa_bare:
  "yields (page_bare cfg) bare (mfa_verify br cfg ps :: (('c, 'k, 'w) client_state, js_error, json obj) act)"
proof -
  have grant: "yields (page_bare cfg) bare (requestTokenForMfa br cfg tok qs
      :: (('c, 'k, 'w) client_state, js_error, json obj) act)" if "no_token_given cfg qs" for tok qs
    unfolding requestTokenForMfa_def using that
    by (intro yields_andThen [OF got_bare] yields_andThen [OF granted_bare] yields_next kept_propagate yields_ret no_token_spread)
      simp_all
  have looked: "kept (mfa_context_of br tok)" for tok
    by (auto simp: effect_def mfa_context_of_def page_bare_def split: prod.split)
  show ?thesis
    unfolding mfa_verify_def
    by (auto intro!: yields_after looked yields_throw yields_andThen [OF grant] yields_next effect_intro pre yields_ret
        split: option.split)
qed

end

section \<open>Runs of a page\<close>

fun call_params :: "page_call \<Rightarrow> params" where
  "call_params (GetTokenSilently _ ps _) = ps"
| "call_params (CheckSession _ ps _) = ps"
| "call_params (LoginWithCustomTokenExchange ps) = ps"
| "call_params _ = []"

text \<open>
  A run of the page: calls of the methods in any order, and between them anything that leaves the
  cache of the page alone: the world, the worker, the cookies, the locks, the query. \<open>rs\<close> are the
  answers the calls returned.
\<close>

inductive page_run ::
  "('k, 'w) browser \<Rightarrow> ('c, 'w) client_config \<Rightarrow> ('c, 'k, 'w) client_state \<Rightarrow> json obj list
     \<Rightarrow> ('c, 'k, 'w) client_state \<Rightarrow> bool" for br cfg s where
  page_start: "page_run br cfg s [] s"
| page_call: "page_run br cfg s rs t \<Longrightarrow> no_token_given cfg (call_params call) \<Longrightarrow> run_call br cfg call t = (r, u) \<Longrightarrow>
    page_run br cfg s (rs @ (case r of Inr (Some a) \<Rightarrow> [a] | _ \<Rightarrow> [])) u"
| page_meanwhile: "page_run br cfg s rs t \<Longrightarrow> st_cache u = st_cache t \<Longrightarrow> page_run br cfg s rs u"

context worker_page
begin

lemma run_call_bare:
  assumes "no_token_given cfg (call_params call)"
  shows "yields (page_bare cfg) (\<lambda>a. \<forall>m. a = Some m \<longrightarrow> bare m) (run_call br cfg call
     :: (('c, 'k, 'w) client_state, js_error, json obj option) act)"
proof -
  have quiet: "yields (page_bare cfg) (\<lambda>a. \<forall>m. a = Some m \<longrightarrow> bare m) (quietly m
     :: (('c, 'k, 'w) client_state, js_error, json obj option) act)" if "kept m"
    for m :: "(('c, 'k, 'w) client_state, js_error, 'a) act"
    using that by (intro yields_next yields_ret) simp_all
  have answer: "yields (page_bare cfg) (\<lambda>a. \<forall>m. a = Some m \<longrightarrow> bare m) (andThen m (\<lambda>r. ret (Some r))
     :: (('c, 'k, 'w) client_state, js_error, json obj option) act)" if "yields (page_bare cfg) bare m" for m
    using that by (rule yields_andThen) (simp add: yields_ret)
  from assms show ?thesis
    by (cases call)
      (auto intro!: quiet answer exchange_bare login_exchange_bare passkey_bare mfa_bare kept_silently kept_check_session
        kept_token_popup kept_popup kept_redirect kept_redirect_callback kept_connect kept_logout kept_revoke kept_user kept_fetcher)
qed

lemma run_bare: "page_run br cfg s rs t \<Longrightarrow> page_bare cfg s \<Longrightarrow> page_bare cfg t \<and> list_all bare rs"
proof (induction rule: page_run.induct)
  case (page_call rs t call r u)
  then have t: "page_bare cfg t" "list_all bare rs" by simp_all
  from run_call_bare [OF page_call.hyps(2)] t(1) page_call.hyps(3)
  have "page_bare cfg u" "\<And>x. r = Inr x \<Longrightarrow> \<forall>m. x = Some m \<longrightarrow> bare m" unfolding yields_def by blast+
  with t(2) show ?case by (auto split: sum.split option.split)
qed (simp_all add: page_bare_def)

end

section \<open>Clients of the constructor\<close>

lemma merged_scope_free:
  "no_token_given cfg ps \<Longrightarrow> no_token_given cfg (obj_spread [(''scope'', v)] ps)"
  by (intro no_token_spread) simp_all

lemma constructed_worker_page:
  assumes built: "new_Auth0Client page managers options = Inr (cfg, warnings)" and worker: "cc_worker cfg"
    and params: "''refresh_token'' \<notin> fst ` set (co_authorizationParams options)"
  shows "worker_page cfg"
proof -
  obtain online cache location where choice: "choose_cache options = Inr (cache, location)"
    and cfg: "cfg = build_config page (fst (getLockManager (pf_webLocks page) managers)) options online cache location"
    using built by (auto simp: new_Auth0Client_def split: sum.splits option.splits prod.splits)
  have "location = Some ''memory''" using worker by (simp add: cfg build_config_def Let_def)
  with choice have cache: "cache = on_part pc_memory (\<lambda>c p. p\<lparr>pc_memory := c\<rparr>) InMemoryCache"
    by (auto simp: choose_cache_def cacheFactory_def Let_def split: option.splits if_splits)
  have laws: "listing_cache cache (\<lambda>_. True) (\<lambda>p. obj_keys (pc_memory p))"
    unfolding cache by (rule page_memory.listing_cache_axioms)
  moreover have "cm_cache (cc_manager cfg) = cache" "cm_keyManifest (cc_manager cfg) = None"
    using listing_cache.allKeys [OF laws] by (simp_all add: cfg build_config_def new_CacheManager_def Let_def)
  moreover have "no_token_given cfg (cc_params cfg)"
    using params merged_scope_free [of cfg "co_authorizationParams options"]
    by (simp add: cfg cc_params_def build_config_def merge_options_def no_token_given_def Let_def)
  ultimately show ?thesis
    using worker listing_cache.axioms(1) [OF laws] by (simp add: worker_page_def worker_page_axioms_def)
qed

text \<open>A page with workers, and a client on it.\<close>

definition worker_facts :: "string obj page_facts" where
  "worker_facts = offline_page\<lparr>pf_workers := True\<rparr>"

definition worker_options :: "unit page_caches client_options" where
  "worker_options = page_options\<lparr>co_useRefreshTokens := True\<rparr>"

definition worker_client :: "(unit page_caches, string obj) client_config" where
  "worker_client = build_config worker_facts LegacyLocks worker_options False
     (on_part pc_memory (\<lambda>c p. p\<lparr>pc_memory := c\<rparr>) InMemoryCache) (Some ''memory'')"

lemma worker_client_built: "new_Auth0Client worker_facts None worker_options = Inr (worker_client, [])" "cc_worker worker_client"
proof -
  show "cc_worker worker_client"
    by (simp add: worker_client_def build_config_def worker_facts_def worker_options_def page_options_def offline_page_def
        merge_options_def Let_def)
  show "new_Auth0Client worker_facts None worker_options = Inr (worker_client, [])"
    by (simp add: new_Auth0Client_def worker_client_def worker_facts_def worker_options_def page_options_def offline_page_def
        resolveOnlineAccess_def choose_cache_def cacheFactory_def warnEnterpriseConnectConfig_def
        getLockManager_def createLockManager_def Let_def)
qed

interpretation offline_worker: worker_page worker_client br for br
  by (rule constructed_worker_page [OF worker_client_built]) (simp add: worker_options_def page_options_def)

section \<open>Properties\<close>

text \<open>
  C2: A client that keeps the refresh tokens in the worker never lets the page have one. Over any
  run of its methods, in any order and whatever the endpoint answers, no entry of the cache
  holds a refresh token and no answer returned to the application does, for every client the
  constructor makes with a worker, as long as the application passes none in itself.
\<close>

theorem refresh_tokens_stay_in_worker:
  assumes "new_Auth0Client page managers options = Inr (cfg, warnings)" and "cc_worker cfg"
    and "''refresh_token'' \<notin> fst ` set (co_authorizationParams options)"
    and "page_run br cfg s rs t" and "page_bare cfg s"
  shows "page_bare cfg t \<and> list_all bare rs"
  using worker_page.run_bare [OF constructed_worker_page [OF assms(1-3)] assms(4,5)] .

definition answer_with_token :: "json obj" where
  "answer_with_token = [(''access_token'', JStr ''at''), (''refresh_token'', JStr ''rt'')]"

definition answering :: "(unit, string obj) browser" where
  "answering = (serving 5 True answer_with_token)
     \<lparr>br_parse_url := (\<lambda>_. Some \<lparr>url_origin = ''https://tenant.example'', url_pathname = ''/oauth/token''\<rparr>)\<rparr>"

definition worker_state0 :: "(unit page_caches, unit, string obj) client_state" where
  "worker_state0 = fresh_state\<lparr>st_worker := worker_init\<lparr>wk_allowedBaseUrl := Some ''https://tenant.example''\<rparr>\<rparr>"

text \<open>The answer has a refresh token; the page gets it without.\<close>

lemma worker_exchange:
  "\<exists>t. customTokenExchange answering worker_client [] worker_state0 = (Inr [(''access_token'', JStr ''at'')], t)"
proof -
  let ?o = "exchange_options worker_client (buildTokenExchangeParams worker_client [])"
  have dpop: "client_dpop answering worker_client = None"
    by (simp add: client_dpop_def worker_client_def build_config_def merge_options_def worker_options_def page_options_def Let_def)
  have form: "te_useFormData ?o" "opt_str (te_options ?o) ''grant_type'' = Some TOKEN_EXCHANGE_GRANT"
    "map_of (obj_spread [(''client_id'', Option.bind (map_of (token_params ?o) ''clientId'') id)]
       (AList.delete ''clientId'' (token_params ?o))) ''grant_type'' = Some (Some (JStr TOKEN_EXCHANGE_GRANT))"
    by (code_simp, code_simp, code_simp)
  have grant: "TOKEN_EXCHANGE_GRANT \<noteq> ''refresh_token''" "TOKEN_EXCHANGE_GRANT \<noteq> ''urn:okta:params:oauth:grant-type:webauthn''"
    by (simp_all add: TOKEN_EXCHANGE_GRANT_def)
  have allowed: "isAuthorizedWorkerRequest (br_parse_url answering) (wk_allowedBaseUrl (st_worker worker_state0)) u ''/oauth/token''" for u
    by (simp add: isAuthorizedWorkerRequest_def answering_def worker_state0_def truthy_def)
  have wf: "json_wf (JObj answer_with_token)" by (simp add: answer_with_token_def)
  have "br_network answering u options timeout w = (Response \<lparr>rr_status = 200, rr_ok = True, rr_headers = [],
      rr_text = stringify (JObj answer_with_token)\<rparr>, w)" for u options timeout w
    by (simp add: answering_def serving_def)
  from worker_oauth [OF worker_client_built(2) allowed form(1) refl form(2) grant form(3) wf this]
  show ?thesis
    by (auto simp: customTokenExchange_def dpop act_simps answer_with_token_def response_data_def json_truthy_def Let_def)
qed

theorem refresh_tokens_stay_in_worker_witness:
  "\<exists>u. run_call answering worker_client (CustomTokenExchange []) worker_state0 = (Inr (Some [(''access_token'', JStr ''at'')]), u) \<and>
     page_bare worker_client u \<and> bare [(''access_token'', JStr ''at'')] \<and> \<not> bare answer_with_token"
proof -
  obtain u where run: "run_call answering worker_client (CustomTokenExchange []) worker_state0 = (Inr (Some [(''access_token'', JStr ''at'')]), u)"
    using worker_exchange by (auto simp: act_simps)
  have "page_bare worker_client worker_state0"
    by (simp add: page_bare_def bare_cache_def worker_client_def build_config_def new_CacheManager_def on_part_def InMemoryCache_def
        fresh_state_def worker_state0_def Let_def)
  moreover have "no_token_given worker_client (call_params (CustomTokenExchange []))" by simp
  moreover have "''refresh_token'' \<notin> fst ` set (co_authorizationParams worker_options)"
    by (simp add: worker_options_def page_options_def)
  ultimately have "page_bare worker_client u \<and> list_all bare [[(''access_token'', JStr ''at'')]]"
    using refresh_tokens_stay_in_worker [OF worker_client_built _ page_call [OF page_start _ run]] by simp
  with run show ?thesis by (simp add: answer_with_token_def bare_def json_truthy_def)
qed

end
