(* ===== verification/Tabs.thy ===== *)
theory Tabs
  imports SilentTokens
begin

text \<open>
  Tabs of one application: each has a client of its own, all of them share the cache in the browser's
  storage and the lock of a token request. \<open>getTokenSilently\<close> looks into the cache, waits for
  the lock, and looks again before it asks for a token; here the calls of several tabs are
  interleaved at these points.
\<close>

section \<open>A call up to the lock\<close>

text \<open>What \<open>getTokenSilently\<close> does before it waits for the lock; \<^const>\<open>None\<close> is that it has to wait.\<close>

definition ask ::
  "('k, 'w) browser \<Rightarrow> ('c, 'w) client_config \<Rightarrow> silent_options
     \<Rightarrow> (('c, 'k, 'w) client_state, js_error, token_response option option) act" where
  "ask br cfg options =
     andThen (isSessionCeilingReached br cfg) (\<lambda>reached.
       if reached then ret (Some None)
       else
         andThen (if gt_cacheMode options \<noteq> ''off''
                  then getEntryFromCache br cfg (gt_scope options) (gt_audience options) (Some (gt_cacheMode options))
                  else ret None) (\<lambda>entry.
         case entry of
           Some e \<Rightarrow> ret (Some (Some e))
         | None \<Rightarrow> ret (if gt_cacheMode options = ''cache-only'' then Some None else None)))"

lemma getTokenSilently_asks:
  "getTokenSilently_inner br cfg options =
     andThen (ask br cfg options) (\<lambda>answer. case answer of
       Some r \<Rightarrow> ret r
     | None \<Rightarrow>
         catching (with_lock br cfg (buildGetTokenSilentlyLockKey (cc_clientId cfg) (gt_audience options)) 5000
              (locked_request br cfg options))
           (\<lambda>e. if isInteractiveError e \<and> popup_handler cfg
                then handleInteractiveErrorWithPopup br cfg options else throw e))"
  by (rule ext)
    (auto simp: getTokenSilently_inner_def ask_def andThen_def split: prod.split sum.split option.split if_splits)

section \<open>Tabs\<close>

datatype tab_phase = Idle | Queued | is_Answered: Answered "token_response option" | is_Gone: Gone js_error

type_synonym ('c, 'k, 'w) tab = "tab_phase \<times> ('c, 'k, 'w) client_state"

text \<open>
  A step of one tab, over the cache they share: it makes its call, or gets the lock and runs what
  the lock protects, or time passes (until \<open>horizon\<close>, in seconds). The lock is exclusive, so
  no other tab has its turn meanwhile.
\<close>

inductive tabs_step ::
  "('k, 'w) browser \<Rightarrow> ('c, 'w) client_config \<Rightarrow> silent_options \<Rightarrow> int \<Rightarrow> 'c \<times> ('c, 'k, 'w) tab list
     \<Rightarrow> 'c \<times> ('c, 'k, 'w) tab list \<Rightarrow> bool" for br cfg options horizon where
  tab_asks: "i < length tabs \<Longrightarrow> tabs ! i = (Idle, s) \<Longrightarrow> ask br cfg options (s\<lparr>st_cache := c\<rparr>) = (r, t) \<Longrightarrow>
    tabs_step br cfg options horizon (c, tabs)
      (st_cache t, tabs[i := (case r of Inl e \<Rightarrow> Gone e | Inr None \<Rightarrow> Queued | Inr (Some a) \<Rightarrow> Answered a, t)])"
| tab_turn: "i < length tabs \<Longrightarrow> tabs ! i = (Queued, s) \<Longrightarrow> locked_request br cfg options (s\<lparr>st_cache := c\<rparr>) = (r, t) \<Longrightarrow>
    tabs_step br cfg options horizon (c, tabs)
      (st_cache t, tabs[i := (case r of Inl e \<Rightarrow> Gone e | Inr a \<Rightarrow> Answered a, t)])"
| tab_time: "i < length tabs \<Longrightarrow> tabs ! i = (p, s) \<Longrightarrow> br_now br w div 1000 \<le> horizon \<Longrightarrow>
    tabs_step br cfg options horizon (c, tabs) (c, tabs[i := (p, s\<lparr>st_world := w\<rparr>)])"

inductive tabs_reach ::
  "('k, 'w) browser \<Rightarrow> ('c, 'w) client_config \<Rightarrow> silent_options \<Rightarrow> int \<Rightarrow> 'c \<times> ('c, 'k, 'w) tab list
     \<Rightarrow> 'c \<times> ('c, 'k, 'w) tab list \<Rightarrow> bool" for br cfg options horizon where
  tabs_start: "tabs_reach br cfg options horizon x x"
| tabs_more: "tabs_reach br cfg options horizon x y \<Longrightarrow> tabs_step br cfg options horizon y z \<Longrightarrow>
    tabs_reach br cfg options horizon x z"

section \<open>A token in the shared cache\<close>

text \<open>\<open>e\<close> and the id token are in the cache until after the horizon, and so is the session.\<close>

definition session_until :: "int \<Rightarrow> id_token_entry option \<Rightarrow> bool" where
  "session_until horizon i \<longleftrightarrow> (case Option.bind (entry_claim i ''session_expiry'') as_number of
     None \<Rightarrow> True | Some x \<Rightarrow> horizon < x - SESSION_EXPIRY_LEEWAY_SECONDS)"

definition token_ready ::
  "('c, 'w) client_config \<Rightarrow> silent_options \<Rightarrow> int \<Rightarrow> cache_entry \<Rightarrow> id_token_entry \<Rightarrow> 'c \<Rightarrow> bool" where
  "token_ready cfg options horizon e i c \<longleftrightarrow>
     (\<exists>x. ic_get (cm_cache (cc_manager cfg)) c
         (toKey (new_CacheKey (Some (cc_clientId cfg)) (gt_scope options) (Some (gt_audience options)))) = Some (Wrapped e (Some x)) \<and>
       horizon + 60 < x) \<and>
     ic_get (cm_cache (cc_manager cfg)) c (getIdTokenCacheKey (Some (cc_clientId cfg))) = Some (IdTok i) \<and>
     truthy (ce_access_token e) \<and> ide_id_token i \<noteq> None \<and> session_until horizon (Some i)"

text \<open>A tab whose own session does not end before the horizon.\<close>

definition tab_alive :: "('k, 'w) browser \<Rightarrow> int \<Rightarrow> ('c, 'k, 'w) client_state \<Rightarrow> bool" where
  "tab_alive br horizon s \<longleftrightarrow> client_now br s div 1000 \<le> horizon \<and> session_until horizon (st_user s)"

text \<open>With the token in the cache a tab is served from it and sends nothing.\<close>

definition served :: "cache_entry \<Rightarrow> ('c, 'k, 'w) tab \<Rightarrow> ('c, 'k, 'w) tab \<Rightarrow> bool" where
  "served e before now \<longleftrightarrow> st_log (snd now) = st_log (snd before) \<and>
     (case fst now of
        Answered (Some r) \<Rightarrow> tr_access_token r = ce_access_token e \<and> tr_expires_in r = ce_expires_in e
      | Idle \<Rightarrow> True | Queued \<Rightarrow> True | _ \<Rightarrow> False)"

lemma served_entry:
  assumes ready: "token_ready cfg options horizon e i (st_cache s)" and alive: "tab_alive br horizon s"
  shows "\<exists>r t. getEntryFromCache br cfg (gt_scope options) (gt_audience options) mode s = (Inr (Some r), t) \<and>
     tr_access_token r = ce_access_token e \<and> tr_expires_in r = ce_expires_in e \<and>
     st_cache t = st_cache s \<and> st_log t = st_log s \<and> tab_alive br horizon t"
proof -
  let ?k = "new_CacheKey (Some (cc_clientId cfg)) (gt_scope options) (Some (gt_audience options))"
  obtain x where e: "ic_get (cm_cache (cc_manager cfg)) (st_cache s) (toKey ?k) = Some (Wrapped e (Some x))" "horizon + 60 < x"
    and i: "ic_get (cm_cache (cc_manager cfg)) (st_cache s) (getIdTokenCacheKey (Some (cc_clientId cfg))) = Some (IdTok i)"
    and token: "truthy (ce_access_token e)" "ide_id_token i \<noteq> None" "session_until horizon (Some i)"
    using ready by (auto simp: token_ready_def)
  have "cm_get (cc_manager cfg) (client_now br s) ?k 60 mrrt mode (st_cache s) = (Some e, st_cache s)" for mrrt
    using e alive by (simp add: cm_get_def cm_get_found_def tab_alive_def Let_def)
  then have get: "client_get br cfg (gt_scope options) (gt_audience options) 60 mode s = (Inr (Some e), s)"
    by (cases s) (simp add: client_get_def on_cache_def)
  obtain t where t: "getIdTokenFromCache br cfg s = (Inr (st_user t), t)" "t = s \<or> t = s\<lparr>st_user := Some i\<rparr>" "st_user t \<noteq> None"
  proof (cases "ide_id_token i = Option.bind (st_user s) ide_id_token")
    case True
    with i token(2) that [of s] show thesis
      by (cases s) (auto simp: getIdTokenFromCache_def cm_getIdToken_def new_CacheKey_def Let_def bind_eq_None_conv)
  next
    case False
    with i that [of "s\<lparr>st_user := Some i\<rparr>"] show thesis
      by (cases s) (auto simp: getIdTokenFromCache_def cm_getIdToken_def new_CacheKey_def Let_def)
  qed
  have "getEntryFromCache br cfg (gt_scope options) (gt_audience options) mode s =
      (Inr (Some \<lparr>tr_id_token = ide_id_token (the (st_user t)), tr_token_type = Some (or_default (ce_token_type e) ''Bearer''),
         tr_access_token = ce_access_token e, tr_scope = or_undefined (ce_oauthTokenScope e), tr_expires_in = ce_expires_in e\<rparr>), t)"
    using get t(1,3) token(1) by (auto simp: getEntryFromCache_def andThen_def)
  moreover have "tab_alive br horizon t"
    using t(2) alive token(3) by (auto simp: tab_alive_def client_now_def)
  ultimately show ?thesis using t(2) by auto
qed

lemma open_until:
  assumes ready: "token_ready cfg options horizon e i (st_cache s)" and alive: "tab_alive br horizon s"
  shows "isSessionCeilingReached br cfg s = (Inr False, s)"
proof -
  have reached: "\<not> (case as_number v of None \<Rightarrow> False | Some x \<Rightarrow> client_now br s div 1000 \<ge> x - SESSION_EXPIRY_LEEWAY_SECONDS)"
    if "session_until horizon u" "entry_claim u ''session_expiry'' = Some v" for u v
    using that alive by (auto simp: session_until_def tab_alive_def split: option.splits)
  show ?thesis
  proof (cases "st_user s")
    case (Some u)
    with alive have "session_until horizon (Some u)" by (simp add: tab_alive_def)
    with Some reached [OF this] show ?thesis
      by (auto simp: isSessionCeilingReached_def andThen_def Let_def split: option.splits)
  next
    case None
    have "cm_getIdToken (cc_manager cfg) now (new_CacheKey (Some (cc_clientId cfg)) None None) (st_cache s) = (Some i, st_cache s)" for now
      using ready by (simp add: cm_getIdToken_def new_CacheKey_def token_ready_def)
    moreover have "session_until horizon (Some i)" using ready by (simp add: token_ready_def)
    ultimately show ?thesis using None reached [of "Some i"]
      by (cases s) (auto simp: isSessionCeilingReached_def andThen_def on_cache_def Let_def split: option.splits)
  qed
qed

section \<open>Every tab is served\<close>

definition tabs_ok ::
  "('k, 'w) browser \<Rightarrow> int \<Rightarrow> cache_entry \<Rightarrow> ('c, 'k, 'w) tab list \<Rightarrow> ('c, 'k, 'w) tab list \<Rightarrow> bool" where
  "tabs_ok br horizon e tabs0 tabs \<longleftrightarrow>
     list_all2 (served e) tabs0 tabs \<and> list_all (\<lambda>tab. tab_alive br horizon (snd tab)) tabs"

lemma tabs_ok_upd:
  assumes "tabs_ok br horizon e tabs0 tabs" "i < length tabs" "tabs ! i = (p, s)"
    and "st_log t = st_log s" "tab_alive br horizon t"
    and "q = p \<or> q = Queued \<or> (\<exists>r. q = Answered (Some r) \<and> tr_access_token r = ce_access_token e \<and> tr_expires_in r = ce_expires_in e)"
  shows "tabs_ok br horizon e tabs0 (tabs[i := (q, t)])"
proof -
  have "served e (tabs0 ! i) (p, s)" using assms(1-3) unfolding tabs_ok_def by (metis list_all2_nthD2)
  then have "served e (tabs0 ! i) (q, t)" using assms(4,6) by (auto simp: served_def)
  moreover have "i < length tabs0" using assms(1,2) by (auto simp: tabs_ok_def dest: list_all2_lengthD)
  ultimately have "list_all2 (served e) (tabs0[i := tabs0 ! i]) (tabs[i := (q, t)])"
    using assms(1) by (intro list_all2_update_cong) (simp_all add: tabs_ok_def)
  moreover have "list_all (\<lambda>tab. tab_alive br horizon (snd tab)) (tabs[i := (q, t)])"
    using assms(1,5) by (auto simp: tabs_ok_def list_all_iff dest!: set_update_subset_insert [THEN subsetD])
  ultimately show ?thesis by (simp add: tabs_ok_def)
qed

lemma alive_at: "tabs_ok br horizon e tabs0 tabs \<Longrightarrow> i < length tabs \<Longrightarrow> tabs ! i = (p, s) \<Longrightarrow> tab_alive br horizon (s\<lparr>st_cache := c\<rparr>)"
  by (auto simp: tabs_ok_def list_all_length tab_alive_def client_now_def)

lemma tabs_step_ok:
  assumes "tabs_step br cfg options horizon x y" and "gt_cacheMode options \<noteq> ''off''"
    and "token_ready cfg options horizon e i (fst x)" and "tabs_ok br horizon e tabs0 (snd x)"
  shows "fst y = fst x \<and> tabs_ok br horizon e tabs0 (snd y)"
  using assms
proof (induction rule: tabs_step.induct)
  case (tab_asks j tabs s c r t)
  let ?s = "s\<lparr>st_cache := c\<rparr>"
  have alive: "tab_alive br horizon ?s" using alive_at [of br horizon e tabs0 tabs j Idle s c] tab_asks by simp
  have ready: "token_ready cfg options horizon e i (st_cache ?s)" using tab_asks by simp
  obtain a u where a: "getEntryFromCache br cfg (gt_scope options) (gt_audience options) (Some (gt_cacheMode options)) ?s = (Inr (Some a), u)"
    "tr_access_token a = ce_access_token e" "tr_expires_in a = ce_expires_in e"
    "st_cache u = c" "st_log u = st_log s" "tab_alive br horizon u"
    using served_entry [OF ready alive, of "Some (gt_cacheMode options)"] by auto
  with tab_asks.prems(1) open_until [OF ready alive] have "ask br cfg options ?s = (Inr (Some (Some a)), u)"
    by (simp add: ask_def andThen_def)
  with tab_asks.hyps have "r = Inr (Some (Some a))" "t = u" by simp_all
  with a tab_asks tabs_ok_upd [of br horizon e tabs0 tabs j Idle s u "Answered (Some a)"] show ?case by simp
next
  case (tab_turn j tabs s c r t)
  let ?s = "s\<lparr>st_cache := c\<rparr>"
  have alive: "tab_alive br horizon ?s" using alive_at [of br horizon e tabs0 tabs j Queued s c] tab_turn by simp
  have ready: "token_ready cfg options horizon e i (st_cache ?s)" using tab_turn by simp
  obtain a u where a: "getEntryFromCache br cfg (gt_scope options) (gt_audience options) None ?s = (Inr (Some a), u)"
    "tr_access_token a = ce_access_token e" "tr_expires_in a = ce_expires_in e"
    "st_cache u = c" "st_log u = st_log s" "tab_alive br horizon u"
    using served_entry [OF ready alive, of None] by auto
  with tab_turn.prems(1) have "locked_request br cfg options ?s = (Inr (Some a), u)"
    by (simp add: locked_request_def andThen_def)
  with tab_turn.hyps have "r = Inr (Some a)" "t = u" by simp_all
  with a tab_turn tabs_ok_upd [of br horizon e tabs0 tabs j Queued s u "Answered (Some a)"] show ?case by simp
next
  case (tab_time j tabs p s w c)
  have "tab_alive br horizon s" using alive_at [of br horizon e tabs0 tabs j p s "st_cache s"] tab_time by simp
  then have "tab_alive br horizon (s\<lparr>st_world := w\<rparr>)" using tab_time.hyps(3) by (simp add: tab_alive_def client_now_def)
  with tab_time tabs_ok_upd [of br horizon e tabs0 tabs j p s "s\<lparr>st_world := w\<rparr>" p] show ?case by simp
qed

lemma tabs_reach_ok:
  assumes "tabs_reach br cfg options horizon x y" and "gt_cacheMode options \<noteq> ''off''"
    and "token_ready cfg options horizon e i (fst x)" and "tabs_ok br horizon e tabs0 (snd x)"
  shows "fst y = fst x \<and> tabs_ok br horizon e tabs0 (snd y)"
  using assms
proof (induction rule: tabs_reach.induct)
  case (tabs_more x y z)
  then have "fst y = fst x" "tabs_ok br horizon e tabs0 (snd y)" by blast+
  with tabs_step_ok [OF tabs_more.hyps(2) tabs_more.prems(1), of e i tabs0] tabs_more.prems(2) show ?case by simp
qed simp

section \<open>Properties\<close>

text \<open>
  C12: Among the tabs of an application one request is enough. Once a tab has obtained a token and
  stored it, then in any interleaving of tabs whose own sessions last (the users they have in
  memory are not past their ceiling), and as long as the token has more than sixty seconds left,
  every tab that asks for the same audience and scope, or is already waiting for the lock, gets
  that token from the shared cache when it has its turn, without a request. A tab that outlived
  its own session is the exception (\<open>stale_tab_clears_cache\<close> below).
\<close>

theorem tabs_share_token:
  assumes store: "session_store cfg ok keys"
    and request: "requestToken br cfg ps extra s = (Inr (r, d), t)"
    and audience: "gt_audience options = or_default (opt_str ps ''audience'') DEFAULT_AUDIENCE"
    and scope: "gt_scope options = opt_str ps ''scope''" "gt_cacheMode options \<noteq> ''off''"
    and key: "canonical_key (new_CacheKey (Some (cc_clientId cfg)) (opt_str ps ''scope'') (Some (gt_audience options)))"
    and fits: "ok (IdTok (id_entry_of r d))" "\<And>x. ok (Wrapped (entry_of_result cfg ps r) (Some x))"
    and token: "map_of r ''access_token'' = Some (JStr token)" "token \<noteq> []" "map_of r ''expires_in'' = Some (JNum n)"
    and horizon: "horizon + 60 < client_now br t div 1000 + n" "session_until horizon (Some (id_entry_of r d))"
    and tabs: "list_all (\<lambda>(p, s). p \<in> {Idle, Queued} \<and> tab_alive br horizon s) tabs"
    and run: "tabs_reach br cfg options horizon (st_cache t, tabs) (c, tabs')"
  shows "c = st_cache t \<and> list_all2 (served (entry_of_result cfg ps r)) tabs tabs'"
proof -
  let ?e = "entry_of_result cfg ps r"
  note stored = request_stores [OF store request audience key fits token(3)]
  have "truthy (ce_access_token ?e)" using token by (simp add: entry_of_result_def json_str_def)
  then have "token_ready cfg options horizon ?e (id_entry_of r d) (st_cache t)"
    using stored(1,2) horizon scope(1) by (auto simp: token_ready_def id_entry_of_def)
  moreover have "list_all2 (served ?e) tabs tabs"
    using tabs by (auto simp: list_all2_conv_all_nth list_all_length served_def)
  then have "tabs_ok br horizon ?e tabs tabs"
    using tabs by (auto simp: tabs_ok_def list_all_iff)
  ultimately show ?thesis
    using tabs_reach_ok [OF run scope(2), of ?e "id_entry_of r d" tabs] by (simp add: tabs_ok_def)
qed

text \<open>Two tabs of a page that keeps its tokens in the storage.\<close>

definition local_client :: "(unit page_caches, string obj) client_config" where
  "local_client = build_config offline_page LegacyLocks (page_options\<lparr>co_cacheLocation := Some ''localstorage''\<rparr>) False
     (on_part pc_local (\<lambda>c p. p\<lparr>pc_local := c\<rparr>) LocalStorageCache) (Some ''localstorage'')"

lemma local_store: "session_store local_client cacheable_wf (\<lambda>p. ls_allKeys (pc_local p))"
  unfolding local_client_def
  by (rule built_store [OF page_local.listing_cache_axioms]) (simp add: offline_page_def jar.cookie_laws_axioms)

lemma local_cfg:
  "\<not> cc_worker local_client" "\<not> cc_dpop local_client" "\<not> cc_onlineAccess local_client" "cc_clientId local_client = ''client''"
  "cc_tokenIssuer local_client = cc_tokenIssuer (offline_client page_options)"
  "cc_clientId (offline_client page_options :: (unit page_caches, string obj) client_config) = ''client''"
  "co_leeway (cc_options local_client) = co_leeway (cc_options (offline_client page_options))"
  "cc_params local_client = cc_params (offline_client page_options)"
  by (code_simp, code_simp, code_simp, code_simp, code_simp, code_simp, code_simp, code_simp)

lemma local_cache:
  "cm_cache (cc_manager local_client) = on_part pc_local (\<lambda>c p. p\<lparr>pc_local := c\<rparr>) LocalStorageCache"
  "cm_keyManifest (cc_manager local_client) = None"
  by (simp_all add: local_client_def build_config_def new_CacheManager_def on_part_def LocalStorageCache_def Let_def)

lemma local_request:
  "\<exists>t. requestToken (serving 5000000 True rotated) local_client orders_request no_extra fresh_state =
     (Inr (rotated, decoded_claims alice_claims), t) \<and> client_now (serving 5000000 True rotated) t = 5000000"
proof -
  let ?br = "serving 5000000 True rotated"
  let ?s = "fresh_state\<lparr>st_log := st_log fresh_state @ [Fetched (cc_domainUrl local_client @ ''/oauth/token'')]\<rparr>"
  have "getIdTokenFromCache ?br local_client ?s = (Inr None, ?s)"
    by (simp add: getIdTokenFromCache_def cm_getIdToken_def cm_get_def getCacheKeys_def local_cache matchExistingCacheKey_def on_part_def
        LocalStorageCache_def ls_get_def ls_allKeys_def obj_keys_def fresh_state_def new_CacheKey_def Let_def)
  then have pin: "pin_ceiling ?br local_client (decoded_claims alice_claims) ?s = (Inr (decoded_claims alice_claims), ?s)"
    by (simp add: pin_ceiling_def andThen_def entry_claim_def)
  have request: "map_of orders_request ''baseUrl'' = None" "\<not> is_code_grant orders_request"
    by (simp_all add: orders_request_def is_code_grant_def opt_str_def json_str_def)
  have "session_expiry_error (jd_claims (decoded_claims alice_claims)) = None"
    by (simp add: session_expiry_error_def decoded_claims_def alice_claims_def user_claims_def)
  from serving_request [OF local_cfg(1-3,5,4,7,8) request pin this, of None] obtain t where
    "requestToken ?br local_client orders_request no_extra fresh_state = (Inr (rotated, decoded_claims alice_claims), t)"
    by (auto simp: no_extra_def)
  then show ?thesis by (auto simp: client_now_def serving_simps)
qed

definition orders_options :: silent_options where
  "orders_options = \<lparr>gt_cacheMode = ''on'', gt_params = orders_request, gt_timeoutInSeconds = None\<rparr>"

theorem tabs_share_token_witness:
  "\<exists>d t r u. requestToken (serving 5000000 True rotated) local_client orders_request no_extra fresh_state = (Inr (rotated, d), t) \<and>
     locked_request (serving 5000000 True rotated) local_client orders_options (fresh_state\<lparr>st_cache := st_cache t\<rparr>) = (Inr (Some r), u) \<and>
     tr_access_token r = Some ''at'' \<and> st_log u = []"
proof -
  let ?br = "serving 5000000 True rotated" and ?d = "decoded_claims alice_claims"
  let ?tabs = "[(Queued, fresh_state), (Idle, fresh_state)]"
  obtain t where t: "requestToken ?br local_client orders_request no_extra fresh_state = (Inr (rotated, ?d), t)"
    "client_now ?br t = 5000000" using local_request by blast
  obtain a u where turn: "locked_request ?br local_client orders_options (fresh_state\<lparr>st_cache := st_cache t\<rparr>) = (a, u)" by force
  let ?q = "(case a of Inl e \<Rightarrow> Gone e | Inr x \<Rightarrow> Answered x, u)"
  have "tabs_step ?br local_client orders_options 8000 (st_cache t, ?tabs) (st_cache u, ?tabs[0 := ?q])"
    by (rule tab_turn [OF _ _ turn]) simp_all
  from tabs_more [OF tabs_start this] have run:
    "tabs_reach ?br local_client orders_options 8000 (st_cache t, ?tabs) (st_cache u, [?q, (Idle, fresh_state)])" by simp
  have "gt_audience orders_options = or_default (opt_str orders_request ''audience'') DEFAULT_AUDIENCE"
    "gt_scope orders_options = opt_str orders_request ''scope''" "gt_cacheMode orders_options \<noteq> ''off''"
    "canonical_key (new_CacheKey (Some (cc_clientId local_client)) (opt_str orders_request ''scope'') (Some (gt_audience orders_options)))"
    by (code_simp, code_simp, code_simp, code_simp)
  moreover have "cacheable_wf (IdTok (id_entry_of rotated ?d))"
    by (simp add: id_entry_of_def decoded_wf_def decoded_claims_def alice_claims_def user_claims_def idTokendecoded_def)
  moreover have "cacheable_wf (Wrapped (entry_of_result local_client orders_request rotated) (Some x))" for x
    by (simp add: entry_of_result_def)
  moreover have "map_of rotated ''access_token'' = Some (JStr ''at'')" "map_of rotated ''expires_in'' = Some (JNum 3600)"
    by (simp_all add: rotated_def token_result_def)
  moreover have "session_until 8000 (Some (id_entry_of rotated ?d))"
    by (simp add: session_until_def entry_claim_def id_entry_of_def decoded_claims_def alice_claims_def user_claims_def)
  moreover have "list_all (\<lambda>(p, s). p \<in> {Idle, Queued} \<and> tab_alive ?br 8000 s) ?tabs"
    by (simp add: tab_alive_def client_now_def serving_simps session_until_def entry_claim_def fresh_state_def)
  ultimately have "list_all2 (served (entry_of_result local_client orders_request rotated)) ?tabs [?q, (Idle, fresh_state)]"
    using tabs_share_token [OF local_store t(1) _ _ _ _ _ _ _ _ _ _ _ _ run, of "''at''" 3600] t(2) by simp
  then have "served (entry_of_result local_client orders_request rotated) (Queued, fresh_state) ?q" by simp
  then obtain r where "a = Inr (Some r)" "tr_access_token r = Some ''at''" "st_log u = []"
    by (auto simp: served_def fresh_state_def entry_of_result_def rotated_def token_result_def json_str_def split: sum.splits option.splits)
  with turn t(1) show ?thesis by blast
qed

section \<open>A tab of the former session\<close>

text \<open>
  What the hypothesis on the tabs' own sessions is for: a tab that still has the user of an earlier
  session in its memory judges by that session. Whatever the shared cache holds meanwhile, its
  first call after the old ceiling removes the entries of the client from it.
\<close>

lemma stale_tab_clears_cache:
  assumes "session_store cfg ok keys" and "entry_claim (st_user s) ''session_expiry'' = Some (JNum x)" and "past_ceiling br s x"
  shows "st_user (snd (ask br cfg options (s\<lparr>st_cache := c\<rparr>))) = None \<and>
    no_entries (cc_manager cfg) (cc_clientId cfg) (st_cache (snd (ask br cfg options (s\<lparr>st_cache := c\<rparr>))))"
proof -
  let ?s = "s\<lparr>st_cache := c\<rparr>"
  have "past_ceiling br ?s x" using assms(3) by (simp add: past_ceiling_def client_now_def)
  with ceiling_check [of ?s x br cfg] assms(2)
  have "isSessionCeilingReached br cfg ?s = (Inr True, snd (clearLocalSession br cfg ClientDefault ?s))" by simp
  then have "snd (ask br cfg options ?s) = snd (clearLocalSession br cfg ClientDefault ?s)"
    by (simp add: ask_def andThen_def)
  with session_store.cleared [OF assms(1), of br ?s] show ?thesis by (simp add: logged_out_def)
qed

section \<open>Two audiences at once\<close>

text \<open>
  The lock is one per audience, and with multi-resource refresh tokens the stored token that is
  found does not depend on the audience: two calls for different audiences do not wait for each
  other, and refresh with the same token.
\<close>

lemma refresh_entry_any_audience:
  "ck_clientId k = ck_clientId k' \<Longrightarrow> getEntryWithRefreshToken m k keys c = getEntryWithRefreshToken m k' keys c"
  by (induction keys) (simp_all add: Let_def split: option.split)

lemma overlapping_refreshes:
  assumes "a \<noteq> b"
  shows "buildGetTokenSilentlyLockKey cid a \<noteq> buildGetTokenSilentlyLockKey cid b \<and>
    getEntryWithRefreshToken m (new_CacheKey (Some cid) sa (Some a)) keys c =
      getEntryWithRefreshToken m (new_CacheKey (Some cid) sb (Some b)) keys c"
  using assms by (auto simp: buildGetTokenSilentlyLockKey_def new_CacheKey_def intro: refresh_entry_any_audience)

end
