(* ===== verification/TokenReturned.thy ===== *)
theory TokenReturned
  imports SilentTokens
begin

text \<open>
  What \<open>getTokenSilently\<close> returns, on whichever way: from the cache, from the iframe, by a refresh,
  or after the popup of the interactive error handler. Each way is followed up to the state it leaves.
\<close>

section \<open>An answer and the state with it\<close>

text \<open>The cache serves the call with the token that was returned, and its id token is that of the user
  who is signed in.\<close>

definition held :: "('c, 'w) client_config \<Rightarrow> silent_options \<Rightarrow> token_response \<Rightarrow> ('c, 'k, 'w) client_state \<Rightarrow> bool" where
  "held cfg options r t \<longleftrightarrow>
     (\<exists>j e x. resolved_key (cc_manager cfg)
          (new_CacheKey (Some (cc_clientId cfg)) (gt_scope options) (Some (gt_audience options))) (st_cache t) = Some j \<and>
        ic_get (cm_cache (cc_manager cfg)) (st_cache t) j = Some (Wrapped e x) \<and>
        ce_access_token e = tr_access_token r \<and> ce_expires_in e = tr_expires_in r) \<and>
     Option.bind (st_user t) ide_id_token = tr_id_token r"

lemma held_same: "held cfg options r s \<Longrightarrow> st_cache t = st_cache s \<Longrightarrow> st_user t = st_user s \<Longrightarrow> held cfg options r t"
  by (simp add: held_def)

lemma held_lock: "held cfg options r s \<Longrightarrow> lock_only s t \<Longrightarrow> held cfg options r t"
  by (auto simp: lock_only_def elim: held_same)

section \<open>From the cache\<close>

lemma cm_get_whole:
  assumes "cm_get m now k adj mrrt mode c = (Some e, c')" and "truthy (ce_id_token e)"
  shows "c' = c"
proof -
  have found: "cm_get_found m now adj w r c = (Some e, c') \<Longrightarrow> c' = c" for w r
    using assms(2)
    by (auto simp: cm_get_found_def modifiedCachedEntry_def refresh_part_def empty_entry_def truthy_def Let_def split: cacheable.splits if_splits)
  show ?thesis
    using assms(1) by (auto simp: cm_get_def Let_def dest: found split: option.splits if_splits)
qed

lemma cm_getIdToken_keeps: "cm_getIdToken m now k c = (Some i, c') \<Longrightarrow> c' = c"
  by (auto simp: cm_getIdToken_def split: option.splits cacheable.splits prod.splits if_splits dest: cm_get_whole)

lemma id_token_keeps:
  "getIdTokenFromCache br cfg s = (Inr (Some i), t) \<Longrightarrow> st_cache t = st_cache s \<and> st_user t = Some i"
  by (auto simp: getIdTokenFromCache_def Let_def dest!: cm_getIdToken_keeps split: prod.splits if_splits)

lemma entry_held:
  assumes "getEntryFromCache br cfg (gt_scope options) (gt_audience options) mode s = (Inr (Some r), t)"
  shows "held cfg options r t"
proof -
  obtain e u i where get: "client_get br cfg (gt_scope options) (gt_audience options) 60 mode s = (Inr (Some e), u)"
    and token: "truthy (ce_access_token e)" and id: "getIdTokenFromCache br cfg u = (Inr (Some i), t)"
    and r: "tr_access_token r = ce_access_token e" "tr_expires_in r = ce_expires_in e" "tr_id_token r = ide_id_token i"
    using assms by (fastforce simp: getEntryFromCache_def andThen_Inr_iff split: option.splits if_splits)
  obtain a where a: "ce_access_token e = Some a" using token by (cases "ce_access_token e") (simp_all add: truthy_def)
  obtain c where run: "cm_get (cc_manager cfg) (client_now br s)
      (new_CacheKey (Some (cc_clientId cfg)) (gt_scope options) (Some (gt_audience options))) 60
      (co_useMrrt (cc_options cfg)) mode (st_cache s) = (Some e, c)" and u: "u = s\<lparr>st_cache := c\<rparr>"
    using get by (auto simp: client_get_def on_cache_def split: prod.splits)
  from run a show ?thesis
  proof (rule cm_get_fresh_cases)
    fix j x
    assume "resolved_key (cc_manager cfg) (new_CacheKey (Some (cc_clientId cfg)) (gt_scope options) (Some (gt_audience options)))
        (st_cache s) = Some j" "ic_get (cm_cache (cc_manager cfg)) (st_cache s) j = Some (Wrapped e x)" "c = st_cache s"
    then show ?thesis using id_token_keeps [OF id] r u by (auto simp: held_def)
  qed
qed

section \<open>From a request\<close>

text \<open>A request that was answered puts its token under the very key of the call.\<close>

definition stored :: "('c, 'w) client_config \<Rightarrow> silent_options \<Rightarrow> json obj \<Rightarrow> ('c, 'k, 'w) client_state \<Rightarrow> bool" where
  "stored cfg options a t \<longleftrightarrow>
     (\<exists>e x. ic_get (cm_cache (cc_manager cfg)) (st_cache t)
          (toKey (new_CacheKey (Some (cc_clientId cfg)) (gt_scope options) (Some (gt_audience options)))) = Some (Wrapped e x) \<and>
        ce_access_token e = json_str (map_of a ''access_token'') \<and> ce_expires_in e = json_num (map_of a ''expires_in'')) \<and>
     Option.bind (st_user t) ide_id_token = json_str (map_of a ''id_token'')"

lemma stored_held: "stored cfg options a t \<Longrightarrow> held cfg options (silent_result a) t"
  by (auto simp: stored_def held_def resolved_key_def silent_result_def)

lemma stored_across_lock: "stored cfg options a s \<Longrightarrow> lock_only s t \<Longrightarrow> stored cfg options a t"
  by (auto simp: lock_only_def stored_def)

text \<open>The requests of the silent flow keep the audience and the scope of the call; nothing else of
  the parameters goes into the entry.\<close>

definition same_target :: "silent_options \<Rightarrow> params \<Rightarrow> bool" where
  "same_target options ps \<longleftrightarrow> opt_str ps ''audience'' = opt_str (gt_params options) ''audience'' \<and>
     opt_str ps ''scope'' = opt_str (gt_params options) ''scope''"

lemma verified_present: "verifyIdToken br cfg idt nonce org age s = (Inr d, t) \<Longrightarrow> idt \<noteq> None"
  by (cases idt) (auto simp: verifyIdToken_def verify_def truthy_def Let_def split: if_splits)

lemma carried_id_token:
  "carry_refresh_token br cfg ps scope a s = (Inr b, t) \<Longrightarrow> map_of b ''id_token'' = map_of a ''id_token''"
  by (auto simp: carry_refresh_token_def andThen_Inr_iff split: option.splits if_splits)

lemma requested_id_token:
  assumes "requestToken br cfg ps extra s = (Inr (r, d), t)"
  shows "json_str (map_of r ''id_token'') \<noteq> None"
proof -
  obtain a d1 d2 u v w w' q where
    verify: "verifyIdToken br cfg (json_str (map_of a ''id_token'')) (rx_nonceIn extra) (rx_organization extra)
        (rx_max_age extra) u = (Inr d1, v)"
    and carry: "carry_refresh_token br cfg ps (or_else (rx_scopesToRequest extra) (opt_str ps ''scope'')) a w = (Inr q, w')"
    and establish: "establish_session br cfg ps extra q d2 w' = (Inr (r, d), t)"
    using catching_rethrow [OF assms [unfolded requestToken_def Let_def]] by (auto simp: andThen_Inr_iff)
  from establish_stores(1) [OF establish] have "q = r" by simp
  with carried_id_token [OF carry] verified_present [OF verify] show ?thesis by simp
qed

section \<open>The ways of a silent request\<close>

context session_store
begin

lemma request_stored:
  assumes request: "requestToken br cfg ps extra s = (Inr (a, d), t)" and target: "same_target options ps"
    and fits: "\<And>a x. ok (Wrapped (entry_of_result cfg (gt_params options) a) (Some x))"
    and expiry: "json_num (map_of a ''expires_in'') = Some n"
  shows "stored cfg options a t"
proof -
  let ?m = "cc_manager cfg" and ?e = "entry_of_result cfg (gt_params options) a"
  let ?k = "new_CacheKey (Some (cc_clientId cfg)) (gt_scope options) (Some (gt_audience options))"
  obtain u where "establish_session br cfg ps extra a d u = (Inr (a, d), t)"
    using requestToken_establishes [OF request] .
  note established = establish_stores [OF this]
  have "st_cache t = ic_set (cm_cache ?m) (toKey ?k) (Wrapped ?e (Some (client_now br t div 1000 + n)))
      (cm_setIdToken ?m (cc_clientId cfg) (tmpl (json_str (map_of a ''id_token'')))
        \<lparr>dt_claims = jd_claims d, dt_user = jd_user d\<rparr> (st_cache u))"
    using established(4) expiry no_manifest target [unfolded same_target_def]
    by (simp add: cm_set_def cm_track_def wrapCacheEntry_def entry_of_result_def
        gt_audience_def gt_scope_def Let_def)
  then have get: "ic_get (cm_cache ?m) (st_cache t) (toKey ?k) = Some (Wrapped ?e (Some (client_now br t div 1000 + n)))"
    using cache.get_set [OF fits] by simp
  obtain idt where "json_str (map_of a ''id_token'') = Some idt" using requested_id_token [OF request] by blast
  then have "Option.bind (st_user t) ide_id_token = json_str (map_of a ''id_token'')" using established(2) by (simp add: tmpl_def)
  with get show ?thesis by (auto simp: stored_def entry_of_result_def)
qed

text \<open>The new refresh token goes into the entries and leaves their access tokens as they are.\<close>

lemma propagate_stored:
  assumes "propagateRotatedRefreshToken cfg previous new s = (r, t)" and k: "stored cfg options a s"
  shows "stored cfg options a t"
proof (cases "cc_onlineAccess cfg \<or> \<not> truthy new \<or> \<not> truthy previous")
  case False
  let ?f = "update_fun (the previous) (the new) (cc_clientId cfg) (co_useMrrt (cc_options cfg))"
  have t: "t = s\<lparr>st_cache := updateEntry (cc_manager cfg) (the previous) (the new) (cc_clientId cfg)
      (co_useMrrt (cc_options cfg)) (st_cache s)\<rparr>"
    using False assms(1) by (auto simp: propagateRotatedRefreshToken_def on_cache_def)
  have keys: "getCacheKeys (cc_manager cfg) (st_cache s) = Some (keys (st_cache s))"
    using no_manifest cache.allKeys by (simp add: getCacheKeys_def)
  have "\<exists>b'. touched ?f j (Some (Wrapped b x)) = Some (Wrapped b' x) \<and> ce_access_token b' = ce_access_token b \<and>
      ce_expires_in b' = ce_expires_in b" for j b x
    by (simp add: touched_def update_fun_def)
  with k show ?thesis
    using cache.get_updateEntry [OF refl keys] t by (auto simp: stored_def) metis+
qed (use assms in \<open>auto simp: propagateRotatedRefreshToken_def\<close>)

lemma iframe_stored:
  assumes "getTokenFromIFrame br cfg options s = (Inr a, t)"
    and fits: "\<And>a x. ok (Wrapped (entry_of_result cfg (gt_params options) a) (Some x))"
    and expiry: "json_num (map_of a ''expires_in'') = Some n"
  shows "stored cfg options a t"
proof -
  have "with_lock br cfg (buildIframeLockKey (cc_clientId cfg)) 5000 (iframe_callback br cfg options) s = (Inr a, t)"
    using catching_rethrow [OF assms(1) [unfolded getTokenFromIFrame_def]] .
  then show ?thesis
  proof (rule with_lock_cases)
    fix v x assume run: "iframe_callback br cfg options v = (Inr a, x)" and x: "lock_only x t"
    from run have "stored cfg options a x"
      by (auto simp: iframe_callback_def andThen_Inr_iff andNext_def same_target_def opt_str_def split: if_splits
          dest!: request_stored [OF _ _ fits expiry])
    with x show ?thesis by (metis stored_across_lock)
  qed blast
qed

lemma refresh_stored:
  assumes run: "getTokenUsingRefreshToken br cfg options s = (Inr a, t)"
    and fits: "\<And>a x. ok (Wrapped (entry_of_result cfg (gt_params options) a) (Some x))"
    and expiry: "json_num (map_of a ''expires_in'') = Some n"
  shows "stored cfg options a t"
proof -
  note iframe = iframe_stored [OF _ fits expiry]
  have exchange: "stored cfg options a t" if "refresh_exchange br cfg options e v = (Inr a, t)" for e v
  proof -
    obtain q d u r w where request: "requestToken br cfg (refresh_params br cfg options e)
        (no_extra\<lparr>rx_scopesToRequest := Some (scope_to_request cfg options e)\<rparr>) v = (Inr (q, d), u)"
      and rotate: "propagateRotatedRefreshToken cfg (Option.bind e ce_refresh_token) (json_str (map_of q ''refresh_token'')) u = (r, w)"
      and rest: "getTokenFromIFrame br cfg options w = (Inr a, t) \<or> q = a \<and> w = t"
      using \<open>refresh_exchange br cfg options e v = (Inr a, t)\<close>
      by (auto simp: refresh_exchange_def andThen_Inr_iff andNext_def Let_def split: if_splits)
    have "same_target options (refresh_params br cfg options e)"
      by (simp add: same_target_def refresh_params_def opt_str_def split: option.split)
    from request_stored [OF request this fits] rest iframe propagate_stored [OF rotate] expiry
    show ?thesis by auto
  qed
  have failed: "stored cfg options a t" if "refresh_failed br cfg options err v = (Inr a, t)" for err v
    using that iframe by (auto simp: refresh_failed_def andThen_Inr_iff andNext_def split: if_splits)
  obtain c u where "(if \<not> truthy (Option.bind c ce_refresh_token) \<and> \<not> cc_worker cfg
       then (if co_useRefreshTokensFallback (cc_options cfg) = Some True
             then getTokenFromIFrame br cfg options
             else throw (MissingRefreshTokenError (Some (gt_audience options)) (gt_scope options)))
       else catching (refresh_exchange br cfg options c) (refresh_failed br cfg options)) u = (Inr a, t)"
    using run by (auto simp: getTokenUsingRefreshToken_def andThen_Inr_iff)
  then show ?thesis
    using iframe exchange failed by (auto simp: catching_def split: if_splits prod.splits sum.splits)
qed

lemma locked_held:
  assumes run: "locked_request br cfg options s = (Inr (Some r), t)"
    and fits: "\<And>a x. ok (Wrapped (entry_of_result cfg (gt_params options) a) (Some x))"
    and expiry: "tr_expires_in r \<noteq> None"
  shows "held cfg options r t"
proof -
  obtain q u where look: "(if gt_cacheMode options \<noteq> ''off''
      then getEntryFromCache br cfg (gt_scope options) (gt_audience options) None else ret None) s = (Inr q, u)"
    and rest: "(case q of Some e \<Rightarrow> ret (Some e)
     | None \<Rightarrow> andThen (if co_useRefreshTokens (cc_options cfg) then getTokenUsingRefreshToken br cfg options
                  else getTokenFromIFrame br cfg options) (\<lambda>authResult.
           let r = silent_result authResult in ret (Some (r\<lparr>tr_scope := or_undefined (tr_scope r)\<rparr>)))) u = (Inr (Some r), t)"
    using run by (auto simp: locked_request_def andThen_Inr_iff)
  show ?thesis
  proof (cases q)
    case (Some e)
    with rest have "q = Some r" "u = t" by simp_all
    with look show ?thesis by (auto intro: entry_held split: if_splits)
  next
    case None
    with rest obtain a where a: "(if co_useRefreshTokens (cc_options cfg) then getTokenUsingRefreshToken br cfg options
          else getTokenFromIFrame br cfg options) u = (Inr a, t)"
      and r: "r = (silent_result a)\<lparr>tr_scope := or_undefined (tr_scope (silent_result a))\<rparr>"
      by (auto simp: andThen_Inr_iff Let_def)
    from expiry r obtain n where "json_num (map_of a ''expires_in'') = Some n" by (auto simp: silent_result_def)
    with a refresh_stored [OF _ fits] iframe_stored [OF _ fits] have "stored cfg options a t" by (auto split: if_splits)
    from stored_held [OF this] show ?thesis by (simp add: held_def r)
  qed
qed

end

lemma popup_held: "handleInteractiveErrorWithPopup br cfg options s = (Inr (Some r), t) \<Longrightarrow> held cfg options r t"
  by (auto simp: handleInteractiveErrorWithPopup_def andThen_Inr_iff andNext_def intro: entry_held split: option.splits)

section \<open>The answer of the call\<close>

lemma silent_cases:
  assumes "getTokenSilently_inner br cfg options s = (Inr (Some r), t)"
  obtains (cached) m u where "getEntryFromCache br cfg (gt_scope options) (gt_audience options) m u = (Inr (Some r), t)"
    | (requested) v x where "locked_request br cfg options v = (Inr (Some r), x)" "lock_only x t"
    | (popup) u where "handleInteractiveErrorWithPopup br cfg options u = (Inr (Some r), t)"
proof -
  let ?look = "if gt_cacheMode options \<noteq> ''off''
      then getEntryFromCache br cfg (gt_scope options) (gt_audience options) (Some (gt_cacheMode options)) else ret None"
  let ?request = "with_lock br cfg (buildGetTokenSilentlyLockKey (cc_clientId cfg) (gt_audience options)) 5000
      (locked_request br cfg options)"
  let ?handle = "\<lambda>e. if isInteractiveError e \<and> popup_handler cfg
      then handleInteractiveErrorWithPopup br cfg options else throw e"
  obtain q u v where look: "?look u = (Inr q, v)"
    and rest: "(case q of Some e \<Rightarrow> ret (Some e)
      | None \<Rightarrow> if gt_cacheMode options = ''cache-only'' then ret None else catching ?request ?handle) v = (Inr (Some r), t)"
    using assms by (auto simp: getTokenSilently_inner_def andThen_Inr_iff split: if_splits)
  show thesis
  proof (cases q)
    case (Some e)
    with rest look show thesis by (intro cached [of _ u]) (auto split: if_splits)
  next
    case None
    with rest have "catching ?request ?handle v = (Inr (Some r), t)" by (simp split: if_splits)
    then consider "?request v = (Inr (Some r), t)" | e w where "?handle e w = (Inr (Some r), t)"
      by (auto simp: catching_def split: prod.splits sum.splits)
    then show thesis
    proof cases
      case 1
      then show thesis by (rule with_lock_cases) (auto intro: requested)
    next
      case 2
      then show thesis by (intro popup [of w]) (auto split: if_splits)
    qed
  qed
qed

text \<open>
  C10: What \<open>getTokenSilently\<close> returns is what the client now holds: whichever way the token came, when the call
  returns it (with an \<open>expires_in\<close>) the cache has it, with its lifetime, in the entry that answers a call for the same client,
  audience and scope, and the id token returned with it is the one of the user who is signed in. So
  no caller gets a token for another audience or scope, or of a session that has been replaced.
\<close>

theorem returned_token_held:
  assumes store: "session_store cfg ok keys"
    and run: "getTokenSilently br cfg mode ps timeout s = (Inr (Some r), t)"
    and options: "options = silent_options_of cfg mode ps timeout"
    and fits: "\<And>a x. ok (Wrapped (entry_of_result cfg (gt_params options) a) (Some x))"
    and expiry: "tr_expires_in r \<noteq> None"
  shows "(\<exists>j e x. resolved_key (cc_manager cfg)
        (new_CacheKey (Some (cc_clientId cfg)) (gt_scope options) (Some (gt_audience options))) (st_cache t) = Some j \<and>
      ic_get (cm_cache (cc_manager cfg)) (st_cache t) j = Some (Wrapped e x) \<and>
      ce_access_token e = tr_access_token r \<and> ce_expires_in e = tr_expires_in r) \<and>
    Option.bind (st_user t) ide_id_token = tr_id_token r"
proof -
  have "held cfg options r t"
  proof (rule silent_cases [OF run [unfolded getTokenSilently_def, folded options]])
    fix m u assume "getEntryFromCache br cfg (gt_scope options) (gt_audience options) m u = (Inr (Some r), t)"
    then show ?thesis by (rule entry_held)
  next
    fix v x assume "locked_request br cfg options v = (Inr (Some r), x)" and x: "lock_only x t"
    from session_store.locked_held [OF store this(1) fits expiry] x show ?thesis by (rule held_lock)
  next
    fix u assume "handleInteractiveErrorWithPopup br cfg options u = (Inr (Some r), t)"
    then show ?thesis by (rule popup_held)
  qed
  then show ?thesis by (simp add: held_def)
qed

section \<open>A refresh\<close>

text \<open>A client with refresh tokens: the entry for the API is passed over and its refresh token exchanged.\<close>

lemma free_lock_runs:
  assumes lock: "cc_lockManager cfg = LegacyLocks" "st_lockWorld s = []"
    and m: "\<And>v. lock_only s v \<Longrightarrow> \<exists>x. m v = (Inr y, x)"
  shows "\<exists>t. with_lock (serving now success result) cfg key limit m s = (Inr y, t)"
proof -
  let ?br = "serving now success result"
  let ?v = "s\<lparr>st_lockWorld := [(key, [])]\<rparr>"
  have acquired: "acquire_loop (lift_lib (br_locks ?br)) key limit retryAttempts s = (True, ?v)"
    using lock(2) by (simp add: retryAttempts_def numeral_eq_Suc lift_lib_def jar_locks_def serving_def offline_def)
  let ?l = "lock_acquired key \<lparr>lk_active = st_active s, lk_listener = st_listener s, lk_world = ?v\<rparr>"
  have "lock_only s (unlock_part ?l)" by (simp add: unlock_part_def lock_acquired_def Let_def)
  from m [OF this] obtain x where "m (unlock_part ?l) = (Inr y, x)" by blast
  with lock(1) acquired show ?thesis by (simp add: with_lock_def runWithLock_def lock_part_def ensuring_def)
qed

definition refreshing_client :: "(unit page_caches, string obj) client_config" where
  "refreshing_client = offline_client (page_options\<lparr>co_useRefreshTokens := True\<rparr>)"

definition waiting_state :: "(unit page_caches, unit, string obj) client_state" where
  "waiting_state = fresh_state\<lparr>st_cache := \<lparr>pc_memory =
      [(getIdTokenCacheKey (Some ''client''), IdTok (sample_user 100000)),
       (toKey (new_CacheKey (Some ''client'') (Some ''openid profile email offline_access'') (Some ''orders'')),
        Wrapped (empty_entry\<lparr>ce_access_token := Some ''old-at'', ce_refresh_token := Some ''rt1''\<rparr>) (Some 9000))],
      pc_local = [], pc_custom = ()\<rparr>\<rparr>"

abbreviation fresh_orders :: silent_options where
  "fresh_orders \<equiv> silent_options_of refreshing_client (Some ''off'') [(''audience'', Some (JStr ''orders''))] None"

lemma refreshing_cfg:
  "\<not> cc_worker refreshing_client" "\<not> cc_dpop refreshing_client" "\<not> cc_onlineAccess refreshing_client"
  "cc_tokenIssuer refreshing_client = cc_tokenIssuer (offline_client page_options)" "cc_clientId refreshing_client = ''client''"
  "co_leeway (cc_options refreshing_client) = co_leeway (cc_options (offline_client page_options))"
  "cc_params refreshing_client = cc_params (offline_client page_options)"
  "co_useRefreshTokens (cc_options refreshing_client)" "\<not> co_useMrrt (cc_options refreshing_client)"
  "cc_lockManager refreshing_client = LegacyLocks"
  "cc_manager refreshing_client = cc_manager (offline_client page_options)"
  by (simp_all add: refreshing_client_def offline_client_def build_config_def merge_options_def page_options_def offline_page_def
      cc_params_def cc_clientId_def Let_def)

lemma fresh_orders:
  "gt_cacheMode fresh_orders = ''off''" "gt_audience fresh_orders = ''orders''"
  "map_of (gt_params fresh_orders) ''baseUrl'' = None" "gt_timeoutInSeconds fresh_orders = None"
  by (simp_all add: silent_options_of_def gt_audience_def opt_str_def json_str_def merged_params_def map_of_obj_spread
      refreshing_cfg(7)) (simp add: cc_params_def offline_client_def build_config_def merge_options_def page_options_def Let_def)

lemma fresh_scope: "gt_scope fresh_orders = Some ''openid profile email offline_access''"
  by code_simp

lemma waiting_request:
  assumes v: "lock_only waiting_state v" and grant: "map_of ps ''baseUrl'' = None" "\<not> is_code_grant ps"
  shows "\<exists>d t. requestToken (serving 5000000 True rotated) refreshing_client ps (no_extra\<lparr>rx_scopesToRequest := sc\<rparr>) v =
     (Inr (rotated, d), t)"
proof -
  let ?br = "serving 5000000 True rotated"
  let ?v = "v\<lparr>st_log := st_log v @ [Fetched (cc_domainUrl refreshing_client @ ''/oauth/token'')]\<rparr>"
  let ?d = "(decoded_claims alice_claims)\<lparr>jd_claims := AList.update ''session_expiry'' (JNum 100000)
      (jd_claims (decoded_claims alice_claims))\<rparr>"
  have "ic_get (cm_cache (cc_manager refreshing_client)) (st_cache ?v) (getIdTokenCacheKey (Some (cc_clientId refreshing_client))) =
      Some (IdTok (sample_user 100000))"
    using v by (auto simp: lock_only_def refreshing_cfg sample_cache waiting_state_def fresh_state_def on_part_def InMemoryCache_def)
  from id_token_found [OF this, of "''id''" ?br]
  have found: "getIdTokenFromCache ?br refreshing_client ?v = (Inr (Some (sample_user 100000)), ?v\<lparr>st_user := Some (sample_user 100000)\<rparr>)"
    using v by (auto simp: sample_user_def lock_only_def waiting_state_def fresh_state_def)
  have pin: "pin_ceiling ?br refreshing_client (decoded_claims alice_claims) ?v = (Inr ?d, ?v\<lparr>st_user := Some (sample_user 100000)\<rparr>)"
    by (simp add: pin_ceiling_def andThen_def found entry_claim_def) (simp add: sample_user_def)
  have "session_expiry_error (jd_claims ?d) = None"
    by (simp add: session_expiry_error_def decoded_claims_def alice_claims_def user_claims_def as_number_def update_conv')
  from serving_request [OF refreshing_cfg(1-7) grant pin this] show ?thesis by blast
qed

lemma waiting_refresh:
  assumes v: "lock_only waiting_state v"
  shows "\<exists>t. locked_request (serving 5000000 True rotated) refreshing_client fresh_orders v =
     (Inr (Some ((silent_result rotated)\<lparr>tr_scope := None\<rparr>)), t)"
proof -
  let ?br = "serving 5000000 True rotated"
  let ?e = "empty_entry\<lparr>ce_access_token := Some ''old-at'', ce_refresh_token := Some ''rt1''\<rparr>"
  let ?ps = "refresh_params ?br refreshing_client fresh_orders (Some ?e)"
  have "getIdTokenCacheKey (Some ''client'') \<noteq>
      toKey (new_CacheKey (Some ''client'') (Some ''openid profile email offline_access'') (Some ''orders''))" by code_simp
  then have "cm_get (cc_manager refreshing_client) (client_now ?br v)
      (new_CacheKey (Some ''client'') (Some ''openid profile email offline_access'') (Some ''orders'')) 0 False None (st_cache v) =
      (Some ?e, st_cache v)"
    using v by (auto simp: cm_get_def cm_get_found_def lock_only_def refreshing_cfg sample_cache waiting_state_def fresh_state_def
        on_part_def InMemoryCache_def client_now_def serving_simps Let_def)
  then have get: "client_get ?br refreshing_client (gt_scope fresh_orders) (gt_audience fresh_orders) 0 None v = (Inr (Some ?e), v)"
    by (cases v) (simp add: client_get_def on_cache_def refreshing_cfg fresh_orders fresh_scope)
  have "map_of ?ps ''baseUrl'' = None" "\<not> is_code_grant ?ps"
    by (simp_all add: is_code_grant_def refresh_params_def opt_str_def json_str_def fresh_orders)
  from waiting_request [OF v this] obtain d t where
    "requestToken ?br refreshing_client ?ps (no_extra\<lparr>rx_scopesToRequest := Some (scope_to_request refreshing_client fresh_orders (Some ?e))\<rparr>) v =
      (Inr (rotated, d), t)" by blast
  moreover obtain w where "propagateRotatedRefreshToken refreshing_client (Some ''rt1'') (json_str (map_of rotated ''refresh_token'')) t = (Inr (), w)"
    by (cases "truthy (json_str (map_of rotated ''refresh_token''))")
      (simp_all add: propagateRotatedRefreshToken_def on_cache_def refreshing_cfg(3))
  ultimately have "refresh_exchange ?br refreshing_client fresh_orders (Some ?e) v = (Inr rotated, w)"
    by (simp add: refresh_exchange_def andThen_def andNext_def refreshing_cfg Let_def)
  then show ?thesis
    using get by (simp add: locked_request_def getTokenUsingRefreshToken_def andThen_def catching_def fresh_orders refreshing_cfg
        silent_result_def rotated_def token_result_def json_str_def or_undefined_def truthy_def)
qed

theorem returned_token_held_witness:
  "\<exists>r t j e x. getTokenSilently (serving 5000000 True rotated) refreshing_client (Some ''off'') [(''audience'', Some (JStr ''orders''))] None
      waiting_state = (Inr (Some r), t) \<and> tr_access_token r = Some ''at'' \<and>
     resolved_key (cc_manager refreshing_client)
       (new_CacheKey (Some ''client'') (Some ''openid profile email offline_access'') (Some ''orders'')) (st_cache t) = Some j \<and>
     ic_get (cm_cache (cc_manager refreshing_client)) (st_cache t) j = Some (Wrapped e x) \<and> ce_access_token e = Some ''at''"
proof -
  let ?br = "serving 5000000 True rotated"
  let ?r = "(silent_result rotated)\<lparr>tr_scope := None\<rparr>"
  have r: "tr_access_token ?r = Some ''at''" "tr_expires_in ?r \<noteq> None"
    by (simp_all add: silent_result_def rotated_def token_result_def json_str_def json_num_def)
  have start: "st_user waiting_state = None" "st_lockWorld waiting_state = []"
    by (simp_all add: waiting_state_def fresh_state_def)
  have "cm_getIdToken (cc_manager refreshing_client) now (new_CacheKey (Some ''client'') None None) (st_cache waiting_state) =
      (Some (sample_user 100000), st_cache waiting_state)" for now
    by (simp add: cm_getIdToken_def new_CacheKey_def refreshing_cfg sample_cache waiting_state_def fresh_state_def on_part_def InMemoryCache_def)
  then have ceiling: "isSessionCeilingReached ?br refreshing_client waiting_state = (Inr False, waiting_state)"
    using start(1) by (simp add: isSessionCeilingReached_def andThen_def on_cache_def refreshing_cfg entry_claim_def Let_def)
      (simp add: sample_user_def as_number_def client_now_def serving_simps SESSION_EXPIRY_LEEWAY_SECONDS_def)
  obtain t where "with_lock ?br refreshing_client (buildGetTokenSilentlyLockKey (cc_clientId refreshing_client) (gt_audience fresh_orders)) 5000
      (locked_request ?br refreshing_client fresh_orders) waiting_state = (Inr (Some ?r), t)"
    using free_lock_runs [where m = "locked_request ?br refreshing_client fresh_orders",
        OF refreshing_cfg(10) start(2) waiting_refresh] by blast
  then have run: "getTokenSilently ?br refreshing_client (Some ''off'') [(''audience'', Some (JStr ''orders''))] None waiting_state =
      (Inr (Some ?r), t)"
    using ceiling by (simp add: getTokenSilently_def getTokenSilently_inner_def andThen_def catching_def fresh_orders)
  have "session_store refreshing_client (\<lambda>_. True) (\<lambda>p. obj_keys (pc_memory p))"
    unfolding refreshing_client_def by (rule offline_session.session_store_axioms)
  from returned_token_held [OF this run refl _ r(2)] run r(1) show ?thesis
    by (auto simp: refreshing_cfg fresh_orders fresh_scope)
qed

end
