(* ===== verification/LateAnswers.thy ===== *)
theory LateAnswers
  imports SilentTokens
begin

text \<open>
  An answer of the token endpoint that arrives after something else happened to the client.
  \<open>_requestToken\<close> gives up control while its request is under way; here it is cut in two at this point,
  and what the second half does to a session that has ended or changed meanwhile is computed.
\<close>

section \<open>The two halves of a request\<close>

text \<open>What is sent, and what happens to the answer, up to the handler of errors around both.\<close>

definition request_sent ::
  "('k, 'w) browser \<Rightarrow> ('c, 'w) client_config \<Rightarrow> params \<Rightarrow> request_extra
     \<Rightarrow> (('c, 'k, 'w) client_state, js_error, json obj) act" where
  "request_sent br cfg options extra =
     oauthToken (client_http br cfg) (client_dpop br cfg)
       (endpoint_options cfg options (or_else (rx_scopesToRequest extra) (opt_str options ''scope''))
         (co_useMrrt (cc_options cfg)) (cc_onlineAccess cfg)) False"

definition request_answered ::
  "('k, 'w) browser \<Rightarrow> ('c, 'w) client_config \<Rightarrow> params \<Rightarrow> request_extra \<Rightarrow> json obj
     \<Rightarrow> (('c, 'k, 'w) client_state, js_error, json obj \<times> jwt_decoded) act" where
  "request_answered br cfg options extra authResult =
     andThen (verifyIdToken br cfg (json_str (map_of authResult ''id_token'')) (rx_nonceIn extra)
        (rx_organization extra) (rx_max_age extra)) (\<lambda>decodedToken.
     andThen (if is_code_grant options then andNext (check_user br cfg decodedToken) (ret decodedToken)
              else pin_ceiling br cfg decodedToken) (\<lambda>decodedToken1.
     andThen (carry_refresh_token br cfg options (or_else (rx_scopesToRequest extra) (opt_str options ''scope'')) authResult)
       (\<lambda>authResult1. establish_session br cfg options extra authResult1 decodedToken1)))"

lemma requestToken_halves:
  "requestToken br cfg options extra =
     catching (andThen (request_sent br cfg options extra) (request_answered br cfg options extra))
       (\<lambda>e. andNext (if is_code_grant options then ret ()
          else storeMfaContext br e (or_else (rx_scopesToRequest extra) (opt_str options ''scope'')) (opt_str options ''audience''))
          (throw e))"
  by (simp add: requestToken_def request_sent_def request_answered_def [abs_def] Let_def)

section \<open>After the session has ended\<close>

text \<open>
  Nothing in the second half looks at whether the session still is the one the request was made for.
  Every valid answer to a refresh that arrives after a logout signs its user in again.
\<close>

lemma late_answer_revives_session:
  assumes out: "logged_out cfg s"
    and verified: "verifyIdToken br cfg (json_str (map_of a ''id_token'')) (rx_nonceIn extra) (rx_organization extra)
      (rx_max_age extra) s = (Inr d, s)" "session_expiry_error (jd_claims d) = None"
    and grant: "\<not> is_code_grant options" "\<not> cc_onlineAccess cfg"
  shows "\<exists>t. request_answered br cfg options extra a s = (Inr (a, d), t) \<and> st_user s = None \<and>
    st_user t = Some (id_entry_of a d) \<and> \<not> logged_out cfg t"
proof -
  have user: "st_user s = None" and none: "no_entries (cc_manager cfg) (cc_clientId cfg) (st_cache s)"
    using out by (simp_all add: logged_out_def)
  have same: "s\<lparr>st_cache := st_cache s\<rparr> = s" "s\<lparr>st_user := None\<rparr> = s" using user by (cases s, simp)+
  have "getIdTokenFromCache br cfg s = (Inr None, s)"
    using user same by (simp add: getIdTokenFromCache_def no_entries_id_token [OF none] Let_def)
  then have pin: "pin_ceiling br cfg d s = (Inr d, s)" by (simp add: pin_ceiling_def andThen_def entry_claim_def)
  obtain t where t: "establish_session br cfg options extra a d s = (Inr (a, d), t)"
    using establish_returns [OF verified(2)] by blast
  from establish_stores(2) [OF this] have "st_user t = Some (id_entry_of a d)" by (simp add: id_entry_of_def)
  moreover have "request_answered br cfg options extra a s = (Inr (a, d), t)"
    using verified(1) pin t grant by (simp add: request_answered_def carry_refresh_token_def andThen_def)
  ultimately show ?thesis using user by (auto simp: logged_out_def)
qed

section \<open>After another user has signed in\<close>

text \<open>
  Only the answer to a code is compared with the user who is signed in. The answer to a refresh of
  the former user makes that user the present one, beside all the entries of the other.
\<close>

lemma late_answer_mixes_users:
  assumes store: "session_store cfg ok keys"
    and answer: "request_answered br cfg options extra a s = (Inr (r, d), t)"
    and grant: "\<not> is_code_grant options" "\<not> cc_onlineAccess cfg"
    and present: "ic_get (cm_cache (cc_manager cfg)) (st_cache s) (getIdTokenCacheKey (Some (cc_clientId cfg))) = Some (IdTok i)"
    and fits: "ok (IdTok (id_entry_of r d))" "\<And>x. ok (Wrapped (entry_of_result cfg options r) x)"
    and other: "j \<noteq> getIdTokenCacheKey (Some (cc_clientId cfg))"
      "j \<noteq> toKey (new_CacheKey (Some (cc_clientId cfg)) (opt_str options ''scope'')
        (Some (or_default (opt_str options ''audience'') DEFAULT_AUDIENCE)))"
  shows "st_user t = Some (id_entry_of r d)"
    and "ic_get (cm_cache (cc_manager cfg)) (st_cache t) j = ic_get (cm_cache (cc_manager cfg)) (st_cache s) j"
proof -
  have read: "st_cache u = st_cache v" if "getIdTokenFromCache br cfg v = (x, u)" "st_cache v = st_cache s" for x u v
    using that present
    by (auto simp: getIdTokenFromCache_def cm_getIdToken_def new_CacheKey_def Let_def split: if_splits)
  obtain d1 q d2 u v where verify: "verifyIdToken br cfg (json_str (map_of a ''id_token'')) (rx_nonceIn extra)
        (rx_organization extra) (rx_max_age extra) s = (Inr d1, u)"
    and pin: "pin_ceiling br cfg d1 u = (Inr d2, v)" and est: "establish_session br cfg options extra a d2 v = (Inr (r, d), t)"
    using answer grant by (auto simp: request_answered_def carry_refresh_token_def andThen_Inr_iff)
  from verify have "u = s" by (simp add: verifyIdToken_def Let_def)
  with pin read have v: "st_cache v = st_cache s" by (auto simp: pin_ceiling_def andThen_Inr_iff)
  note stored = establish_stores [OF est]
  from stored(1) have "a = r" "d2 = d" by simp_all
  with stored(2) show "st_user t = Some (id_entry_of r d)" by (simp add: id_entry_of_def)
  have laws: "cache_laws (cm_cache (cc_manager cfg)) ok"
    using session_store.axioms(1) [OF store] listing_cache.axioms(1) by blast
  show "ic_get (cm_cache (cc_manager cfg)) (st_cache t) j = ic_get (cm_cache (cc_manager cfg)) (st_cache s) j"
    using stored(4) v \<open>a = r\<close> \<open>d2 = d\<close> other fits session_store.no_manifest [OF store]
    by (simp add: cm_set_def cm_setIdToken_def cm_track_def wrapCacheEntry_def id_entry_of_def entry_of_result_def
        cache_laws.get_set [OF laws] Let_def split: option.split)
qed

end
