(* ===== verification/SessionSteps.thy ===== *)
theory SessionSteps
  imports LateAnswers
begin

text \<open>
  The user of a client in its two places: in the memory of the page and, as an id token, in the cache.
  The pieces of the methods that write or read either run one after another here, in any order, as
  they do when calls overlap: answers of the token endpoint arrive whenever they do.
\<close>

section \<open>Keys\<close>

text \<open>The key of an access token is not the key of the id token.\<close>

lemma own_key:
  assumes "ck_prefix k = CACHE_KEY_PREFIX" "ck_clientId k = Some cid" "truthy (ck_audience k)" "truthy (ck_scope k)"
  shows "toKey k \<noteq> getIdTokenCacheKey (Some cid)"
proof
  assume eq: "toKey k = getIdTokenCacheKey (Some cid)"
  obtain a b where ab: "ck_audience k = Some a" "ck_scope k = Some b" "a \<noteq> []" "b \<noteq> []"
    using assms(3,4) by (cases "ck_audience k"; cases "ck_scope k") (auto simp: truthy_def)
  have "\<exists>c. a @ CHR '':'' # c = CACHE_KEY_ID_TOKEN_SUFFIX"
    using eq ab assms(1,2)
    by (cases "ck_suffix k"; cases "cid = []")
      (auto simp: toKey_def getIdTokenCacheKey_def truthy_def CACHE_KEY_ID_TOKEN_SUFFIX_def split: if_splits)
  then have "CHR '':'' \<in> set CACHE_KEY_ID_TOKEN_SUFFIX" by (metis in_set_conv_decomp)
  then show False by (simp add: CACHE_KEY_ID_TOKEN_SUFFIX_def)
qed

lemma own_match:
  assumes "key_matches k j" "ck_clientId k = Some cid" "truthy (ck_audience k)"
  shows "toKey (fromKey j) \<noteq> getIdTokenCacheKey (Some cid)"
  using assms by (intro own_key) (auto simp: key_matches_def Let_def)

section \<open>The user in the cache\<close>

text \<open>No entry of an access token carries an id token, and the key of the id token holds one.\<close>

definition tidy :: "('c, 'w) client_config \<Rightarrow> 'c \<Rightarrow> bool" where
  "tidy cfg c \<longleftrightarrow>
     (\<forall>j b x. ic_get (cm_cache (cc_manager cfg)) c j = Some (Wrapped b x) \<longrightarrow> \<not> truthy (ce_id_token b)) \<and>
     (\<forall>w. ic_get (cm_cache (cc_manager cfg)) c (getIdTokenCacheKey (Some (cc_clientId cfg))) = Some w \<longrightarrow> (\<exists>i. w = IdTok i))"

text \<open>The user in memory, when there is one, is the user of the id token in the cache.\<close>

definition in_step :: "('c, 'w) client_config \<Rightarrow> ('c, 'k, 'w) client_state \<Rightarrow> bool" where
  "in_step cfg s \<longleftrightarrow> tidy cfg (st_cache s) \<and>
     (\<forall>i. st_user s = Some i \<longrightarrow>
        ic_get (cm_cache (cc_manager cfg)) (st_cache s) (getIdTokenCacheKey (Some (cc_clientId cfg))) = Some (IdTok i))"

text \<open>What the other operations of the cache do: nothing to the id token.\<close>

definition spares :: "('c, 'w) client_config \<Rightarrow> 'c \<Rightarrow> 'c \<Rightarrow> bool" where
  "spares cfg c c' \<longleftrightarrow> (tidy cfg c \<longrightarrow> tidy cfg c' \<and>
     ic_get (cm_cache (cc_manager cfg)) c' (getIdTokenCacheKey (Some (cc_clientId cfg))) =
     ic_get (cm_cache (cc_manager cfg)) c (getIdTokenCacheKey (Some (cc_clientId cfg))))"

lemma spares_refl [simp]: "spares cfg c c"
  by (simp add: spares_def)

lemma in_step_spared: "in_step cfg s \<Longrightarrow> spares cfg (st_cache s) c \<Longrightarrow> in_step cfg (s\<lparr>st_cache := c\<rparr>)"
  by (simp add: in_step_def spares_def)

locale own_cache = session_store cfg "\<lambda>_. True" keys
  for cfg :: "('c, 'w) client_config" and keys :: "'c \<Rightarrow> string list"
begin

lemma spares_touched:
  assumes "\<And>j. ic_get (cm_cache (cc_manager cfg)) c' j = ic_get (cm_cache (cc_manager cfg)) c j \<or>
      ic_get (cm_cache (cc_manager cfg)) c' j = touched f j (ic_get (cm_cache (cc_manager cfg)) c j)"
    and "\<And>j b b'. f j b = Some b' \<Longrightarrow> ce_id_token b' = ce_id_token b"
  shows "spares cfg c c'"
  unfolding spares_def
proof
  assume t: "tidy cfg c"
  let ?get = "ic_get (cm_cache (cc_manager cfg))" and ?id = "getIdTokenCacheKey (Some (cc_clientId cfg))"
  have id: "?get c' ?id = ?get c ?id"
    using assms(1) [of ?id] t by (auto simp: tidy_def touched_def split: option.splits)
  moreover have "\<not> truthy (ce_id_token b)" if "?get c' j = Some (Wrapped b x)" for j b x
    using that assms(1) [of j] t assms(2) by (fastforce simp: tidy_def touched_def split: option.splits cacheable.splits)
  ultimately show "tidy cfg c' \<and> ?get c' ?id = ?get c ?id" using t by (auto simp: tidy_def)
qed

lemma spares_strip: "spares cfg c (stripRefreshToken (cc_manager cfg) t c)"
proof (rule spares_touched)
  show "ic_get (cm_cache (cc_manager cfg)) (stripRefreshToken (cc_manager cfg) t c) j = ic_get (cm_cache (cc_manager cfg)) c j \<or>
     ic_get (cm_cache (cc_manager cfg)) (stripRefreshToken (cc_manager cfg) t c) j =
       touched (strip_fun t) j (ic_get (cm_cache (cc_manager cfg)) c j)" for j
    using cache.get_stripRefreshToken [where m = "cc_manager cfg" and c = c, OF refl]
    by (cases "getCacheKeys (cc_manager cfg) c") (simp_all add: stripRefreshToken_def)
qed (auto simp: strip_fun_def split: if_splits)

lemma spares_update: "spares cfg c (updateEntry (cc_manager cfg) old new cid mrrt c)"
proof (rule spares_touched)
  show "ic_get (cm_cache (cc_manager cfg)) (updateEntry (cc_manager cfg) old new cid mrrt c) j = ic_get (cm_cache (cc_manager cfg)) c j \<or>
     ic_get (cm_cache (cc_manager cfg)) (updateEntry (cc_manager cfg) old new cid mrrt c) j =
       touched (update_fun old new cid mrrt) j (ic_get (cm_cache (cc_manager cfg)) c j)" for j
    using cache.get_updateEntry [where m = "cc_manager cfg" and c = c, OF refl]
    by (cases "getCacheKeys (cc_manager cfg) c") (simp_all add: updateEntry_def)
qed (auto simp: update_fun_def split: if_splits)

lemma found_spares:
  assumes "cm_get_found (cc_manager cfg) now adj w r c = (e, c')" and "toKey r \<noteq> getIdTokenCacheKey (Some (cc_clientId cfg))"
    and "ic_get (cm_cache (cc_manager cfg)) c j = Some w"
  shows "spares cfg c c' \<and> (tidy cfg c \<longrightarrow> (\<forall>b. e = Some b \<longrightarrow> \<not> truthy (ce_id_token b)))"
proof (cases "\<exists>b x. w = Wrapped b x \<and> lapsed x adj (now div 1000)")
  case True
  then obtain b x where w: "w = Wrapped b x" "lapsed x adj (now div 1000)" by blast
  have part: "\<not> truthy (ce_id_token (refresh_part b))" by (simp add: refresh_part_def empty_entry_def truthy_def)
  note found = cache.get_cm_get_found [where m = "cc_manager cfg" and b = b and k = r and c = c, OF refl _ w(2)]
  have get: "ic_get (cm_cache (cc_manager cfg)) c' i = (if i = toKey r
      then (if truthy (ce_refresh_token b) then Some (Wrapped (refresh_part b) x) else None)
      else ic_get (cm_cache (cc_manager cfg)) c i)" for i
    using found(2) [of i] assms(1) w no_manifest by simp
  have "e = (if truthy (ce_refresh_token b) then Some (refresh_part b) else None)"
    using found(1) assms(1) w no_manifest by simp
  with get assms(2) part show ?thesis
    by (auto simp: spares_def tidy_def split: if_splits)
next
  case False
  with assms show ?thesis
    by (cases w) (auto simp: cm_get_found_def tidy_def Let_def)
qed

lemma get_spares:
  assumes run: "cm_get (cc_manager cfg) now k adj mrrt mode c = (e, c')"
    and k: "ck_prefix k = CACHE_KEY_PREFIX" "ck_clientId k = Some (cc_clientId cfg)" "truthy (ck_audience k)"
      "truthy (ck_scope k)"
  shows "spares cfg c c' \<and> (tidy cfg c \<longrightarrow> (\<forall>b. e = Some b \<longrightarrow> \<not> truthy (ce_id_token b)))"
proof -
  have refresh: "\<not> truthy (ce_id_token b)" if "getEntryWithRefreshToken (cc_manager cfg) k ks c = Some b" for ks b
    using getEntryWithRefreshToken_Some [OF that] by (auto simp: refresh_part_def empty_entry_def truthy_def)
  show ?thesis
  proof (cases "ic_get (cm_cache (cc_manager cfg)) c (toKey k)")
    case (Some w)
    with run found_spares [OF _ own_key [OF k] Some] show ?thesis by (simp add: cm_get_def)
  next
    case None
    obtain ks where ks: "getCacheKeys (cc_manager cfg) c = Some ks"
      using cache.allKeys no_manifest by (simp add: getCacheKeys_def)
    show ?thesis
    proof (cases "Option.bind (matchExistingCacheKey k ks) (ic_get (cm_cache (cc_manager cfg)) c)")
      case none: None
      with run None ks refresh show ?thesis by (auto simp: cm_get_def Let_def split: if_splits)
    next
      case (Some w)
      then obtain j where j: "matchExistingCacheKey k ks = Some j" "ic_get (cm_cache (cc_manager cfg)) c j = Some w"
        by (auto simp: bind_eq_Some_conv)
      from own_match [OF matchExistingCacheKey_Some(2) [OF j(1)] k(2,3)]
      have "toKey (fromKey j) \<noteq> getIdTokenCacheKey (Some (cc_clientId cfg))" .
      from found_spares [OF _ this j(2)] run None ks Some j show ?thesis by (simp add: cm_get_def)
    qed
  qed
qed

lemma tidy_clear: "tidy cfg c \<Longrightarrow> tidy cfg (cm_clear (cc_manager cfg) cid c)"
  using cache.get_fold_remove no_manifest by (auto simp: tidy_def cm_clear_def Let_def split: option.split)

section \<open>The pieces of the methods\<close>

abbreviation aligned :: "('c, 'k, 'w) client_state \<Rightarrow> ('c, 'k, 'w) client_state \<Rightarrow> bool" where
  "aligned \<equiv> keeps (in_step cfg)"

lemma client_get_aligned:
  assumes "truthy scope" "audience \<noteq> []"
  shows "effect aligned (client_get br cfg scope audience adj mode)"
proof (rule effectI)
  fix s r t
  assume run: "client_get br cfg scope audience adj mode s = (r, t)"
  let ?k = "new_CacheKey (Some (cc_clientId cfg)) scope (Some audience)"
  obtain e c where get: "cm_get (cc_manager cfg) (client_now br s) ?k adj (co_useMrrt (cc_options cfg)) mode (st_cache s) = (e, c)" by force
  with run have "t = s\<lparr>st_cache := c\<rparr>" by (simp add: client_get_def on_cache_def)
  with get_spares [OF get] assms show "aligned s t"
    by (auto simp: keeps_def new_CacheKey_def truthy_def intro: in_step_spared)
qed

lemma id_token_aligned:
  assumes run: "getIdTokenFromCache br cfg s = (r, t)" and s: "in_step cfg s"
  shows "in_step cfg t" and "r = Inr (st_user t)"
proof -
  let ?get = "ic_get (cm_cache (cc_manager cfg))" and ?id = "getIdTokenCacheKey (Some (cc_clientId cfg))"
  let ?a = "or_default (opt_str (cc_params cfg) ''audience'') DEFAULT_AUDIENCE"
  let ?k = "new_CacheKey (Some (cc_clientId cfg)) (map_of (cc_scope cfg) ?a) (Some ?a)"
  have "in_step cfg t \<and> r = Inr (st_user t)"
  proof (cases "?get (st_cache s) ?id")
    case (Some w)
    with s obtain i where "w = IdTok i" by (auto simp: in_step_def tidy_def)
    with Some run s show ?thesis
      by (cases s) (auto simp: getIdTokenFromCache_def cm_getIdToken_def new_CacheKey_def in_step_def Let_def split: if_splits)
  next
    case None
    with s have user: "st_user s = None" by (auto simp: in_step_def)
    obtain x c where x: "cm_getIdToken (cc_manager cfg) (client_now br s) ?k (st_cache s) = (x, c)" by force
    have "x = None \<and> spares cfg (st_cache s) c"
    proof (cases "truthy (ck_scope ?k) \<and> truthy (ck_audience ?k)")
      case True
      obtain e c1 where e: "cm_get (cc_manager cfg) (client_now br s) ?k 0 False None (st_cache s) = (e, c1)" by force
      with get_spares [OF e] True s show ?thesis
        using x None by (auto simp: cm_getIdToken_def new_CacheKey_def in_step_def split: option.splits)
    next
      case False
      with x None show ?thesis by (auto simp: cm_getIdToken_def new_CacheKey_def)
    qed
    with run x user have "r = Inr None" "t = s\<lparr>st_cache := c, st_user := None\<rparr>"
      by (simp_all add: getIdTokenFromCache_def Let_def)
    with in_step_spared [OF s, of c] \<open>x = None \<and> spares cfg (st_cache s) c\<close> show ?thesis by (simp add: in_step_def)
  qed
  then show "in_step cfg t" "r = Inr (st_user t)" by simp_all
qed

lemma id_read_aligned [effect_intro]: "effect aligned (getIdTokenFromCache br cfg)"
  by (rule effectI) (simp add: keeps_def id_token_aligned)

lemma entry_aligned:
  "truthy scope \<Longrightarrow> audience \<noteq> [] \<Longrightarrow> effect aligned (getEntryFromCache br cfg scope audience mode)"
  unfolding getEntryFromCache_def by (auto intro!: effect_intro client_get_aligned split: option.split)

lemma propagate_aligned: "effect aligned (propagateRotatedRefreshToken cfg old new)"
proof -
  have "effect aligned (on_cache (\<lambda>c. ((), updateEntry (cc_manager cfg) a b i mrrt c)))" for a b i mrrt
    by (rule effectI) (auto simp: on_cache_def keeps_def spares_update intro!: in_step_spared)
  then show ?thesis unfolding propagateRotatedRefreshToken_def by (auto intro!: effect_intro)
qed

lemma strip_aligned: "effect aligned (on_cache (\<lambda>c. ((), stripRefreshToken (cc_manager cfg) tok c)))"
  by (rule effectI) (auto simp: on_cache_def keeps_def spares_strip intro!: in_step_spared)

lemma cleared_aligned: "effect aligned (clearLocalSession br cfg client)"
proof (rule effectI)
  fix s r t assume run: "clearLocalSession br cfg client s = (r, t)"
  let ?c = "cm_clear (cc_manager cfg)
    (case client of ClientNull \<Rightarrow> None | ClientDefault \<Rightarrow> Some (cc_clientId cfg) | ClientGiven i \<Rightarrow> Some i) (st_cache s)"
  let ?tail = "andNext (if cc_dpop cfg then catching (on_dpop (dp_clear (cc_clientId cfg))) (\<lambda>_. ret ()) else ret ())
       (if cc_worker cfg then catching (andNext (client_send br ClearMsg) (ret ())) (\<lambda>_. ret ()) else ret ())"
  have tail: "effect (frame cached_session) ?tail"
    by (auto intro!: effect_intro cached.on_dpop_step cached.send_step cached.pre)
  have cache: "andNext (on_cache (\<lambda>c. ((), f c))) n v = n (v\<lparr>st_cache := f (st_cache v)\<rparr>)"
    and web: "andNext (on_web g) n v = n (v\<lparr>st_web := g (st_web v)\<rparr>)"
    and user: "andNext (modify h) n v = n (h v)"
    for f g h v and n :: "(('c, 'k, 'w) client_state, js_error, unit) act"
    by (simp_all add: on_cache_def on_web_def andNext_def andThen_def modify_def)
  obtain u where u: "?tail u = (r, t)" "st_user u = None" "st_cache u = ?c"
    using run unfolding clearLocalSession_def cache web user by simp
  with effectD [OF tail u(1)] have "st_user t = None" "st_cache t = ?c" by (simp_all add: frame_def cached_session_def)
  then show "aligned s t" using tidy_clear by (auto simp: keeps_def in_step_def)
qed

lemma ceiling_aligned: "effect aligned (isSessionCeilingReached br cfg)"
proof -
  have read: "effect aligned (\<lambda>s. case st_user s of Some i \<Rightarrow> (Inr (Some i), s)
      | None \<Rightarrow> on_cache (cm_getIdToken (cc_manager cfg) (client_now br s) (new_CacheKey (Some (cc_clientId cfg)) None None)) s)"
  proof (rule effectI)
    fix s r t
    assume run: "(case st_user s of Some i \<Rightarrow> (Inr (Some i), s)
      | None \<Rightarrow> on_cache (cm_getIdToken (cc_manager cfg) (client_now br s) (new_CacheKey (Some (cc_clientId cfg)) None None)) s) = (r, t)"
    obtain x c where x: "cm_getIdToken (cc_manager cfg) (client_now br s) (new_CacheKey (Some (cc_clientId cfg)) None None) (st_cache s) =
        (x, c)" by force
    then have "c = st_cache s"
      by (auto simp: cm_getIdToken_def new_CacheKey_def truthy_def split: option.splits cacheable.splits)
    with run x have "t = s \<or> t = s\<lparr>st_cache := st_cache s\<rparr>" by (auto simp: on_cache_def split: option.splits)
    then show "aligned s t" by (auto simp: keeps_def in_step_def)
  qed
  show ?thesis unfolding isSessionCeilingReached_def Let_def
    by (auto intro!: effect_intro read cleared_aligned split: option.split)
qed

lemma user_aligned: "effect aligned (getUser br cfg)" "effect aligned (getIdTokenClaims br cfg)"
  unfolding getUser_def getIdTokenClaims_def by (auto intro!: effect_intro ceiling_aligned)

lemma check_user_aligned: "effect aligned (check_user br cfg d)"
proof -
  have "effect aligned (andNext (on_cache (\<lambda>c. ((), cm_clear (cc_manager cfg) cid c))) (modify (\<lambda>s. s\<lparr>st_user := None\<rparr>)))" for cid
    by (rule effectI) (auto simp: act_simps on_cache_def modify_def keeps_def in_step_def tidy_clear)
  then show ?thesis unfolding check_user_def Let_def
    by (intro effect_andThen effect_if effect_ret id_read_aligned preorder_keeps)
qed

lemma carry_aligned:
  "truthy scope \<Longrightarrow> effect aligned (carry_refresh_token br cfg ps scope a)"
  unfolding carry_refresh_token_def
  by (auto intro!: effect_intro client_get_aligned simp: or_default_def DEFAULT_AUDIENCE_def split: option.split)

lemma establish_aligned:
  assumes "truthy (opt_str ps ''scope'')"
  shows "effect aligned (establish_session br cfg ps extra a d)"
proof (rule effectI)
  fix s r t assume run: "establish_session br cfg ps extra a d s = (r, t)"
  let ?get = "ic_get (cm_cache (cc_manager cfg))" and ?id = "getIdTokenCacheKey (Some (cc_clientId cfg))"
  let ?k = "new_CacheKey (Some (cc_clientId cfg)) (opt_str ps ''scope'') (Some (or_default (opt_str ps ''audience'') DEFAULT_AUDIENCE))"
  show "aligned s t"
  proof (cases "session_expiry_error (jd_claims d)")
    case (Some e)
    with run show ?thesis by (simp add: establish_session_def saveEntryInCache_def act_simps keeps_def)
  next
    case None
    with establish_returns [OF None, of br cfg ps extra a s] run have "r = Inr (a, d)" by auto
    note stored = establish_stores(2,4) [OF run [unfolded this]]
    have "toKey ?k \<noteq> ?id"
      using assms by (intro own_key) (auto simp: new_CacheKey_def or_default_def DEFAULT_AUDIENCE_def truthy_def split: option.split)
    then have "?get (st_cache t) j = (if j = toKey ?k then Some (wrapCacheEntry (client_now br t) (entry_of_result cfg ps a))
        else if j = ?id then Some (IdTok (id_entry_of a d)) else ?get (st_cache s) j)" for j
      using stored(2) no_manifest
      by (simp add: cm_set_def cm_setIdToken_def cm_track_def wrapCacheEntry_def id_entry_of_def entry_of_result_def
          cache.get_set Let_def)
    with stored(1) \<open>toKey ?k \<noteq> ?id\<close> show ?thesis
      by (auto simp: keeps_def in_step_def tidy_def id_entry_of_def wrapCacheEntry_def entry_of_result_def truthy_def split: if_splits)
  qed
qed

lemma answered_aligned:
  assumes "truthy (opt_str ps ''scope'')"
  shows "effect aligned (request_answered br cfg ps extra a)"
proof -
  have verify: "effect aligned (verifyIdToken br cfg x n org age)" for x n org age
    by (rule effectI) (auto simp: verifyIdToken_def keeps_def Let_def)
  have "truthy (or_else (rx_scopesToRequest extra) (opt_str ps ''scope''))" using assms by (simp add: or_else_def)
  then show ?thesis
    unfolding request_answered_def pin_ceiling_def
    by (auto intro!: effect_intro verify check_user_aligned carry_aligned establish_aligned assms)
qed

lemma removed_aligned:
  assumes "truthy scope" "audience \<noteq> []"
  shows "effect aligned (on_cache (\<lambda>c. ((), cm_remove (cc_manager cfg) (Some (cc_clientId cfg)) (Some audience) scope c)))"
proof -
  let ?k = "new_CacheKey (Some (cc_clientId cfg)) scope (Some audience)"
  have "toKey ?k \<noteq> getIdTokenCacheKey (Some (cc_clientId cfg))"
    using assms by (intro own_key) (simp_all add: new_CacheKey_def truthy_def)
  then have "spares cfg c (cm_remove (cc_manager cfg) (Some (cc_clientId cfg)) (Some audience) scope c)" for c
    by (auto simp: spares_def tidy_def cm_remove_def cache.get_remove)
  then show ?thesis by (intro effectI) (auto simp: on_cache_def keeps_def intro: in_step_spared)
qed

end

interpretation own_page: own_cache "offline_client options" "\<lambda>p. obj_keys (pc_memory p)" for options
  by (simp add: own_cache_def offline_session.session_store_axioms)

section \<open>In any order\<close>

text \<open>
  One piece at a time, whichever call it belongs to: an answer arrives, a session ends, the user or a
  token is asked for, entries are rotated, revoked or removed, and everything that touches
  neither the cache nor the user.
\<close>

inductive session_step ::
  "('k, 'w) browser \<Rightarrow> ('c, 'w) client_config \<Rightarrow> ('c, 'k, 'w) client_state \<Rightarrow> ('c, 'k, 'w) client_state \<Rightarrow> bool" for br cfg where
  step_answer: "request_answered br cfg ps extra a s = (r, t) \<Longrightarrow> truthy (opt_str ps ''scope'') \<Longrightarrow> session_step br cfg s t"
| step_end: "clearLocalSession br cfg client s = (r1, t) \<Longrightarrow> session_step br cfg s t"
| step_ceiling: "isSessionCeilingReached br cfg s = (r2, t) \<Longrightarrow> session_step br cfg s t"
| step_user: "getUser br cfg s = (r3, t) \<Longrightarrow> session_step br cfg s t"
| step_claims: "getIdTokenClaims br cfg s = (r3, t) \<Longrightarrow> session_step br cfg s t"
| step_token: "getEntryFromCache br cfg scope audience mode s = (r4, t) \<Longrightarrow> truthy scope \<Longrightarrow> audience \<noteq> [] \<Longrightarrow>
    session_step br cfg s t"
| step_refresh: "client_get br cfg scope audience adj mode s = (r5, t) \<Longrightarrow> truthy scope \<Longrightarrow> audience \<noteq> [] \<Longrightarrow>
    session_step br cfg s t"
| step_rotate: "propagateRotatedRefreshToken cfg old new s = (r1, t) \<Longrightarrow> session_step br cfg s t"
| step_revoke: "on_cache (\<lambda>c. ((), stripRefreshToken (cc_manager cfg) tok c)) s = (r1, t) \<Longrightarrow> session_step br cfg s t"
| step_remove: "on_cache (\<lambda>c. ((), cm_remove (cc_manager cfg) (Some (cc_clientId cfg)) (Some audience) scope c)) s = (r1, t) \<Longrightarrow>
    truthy scope \<Longrightarrow> audience \<noteq> [] \<Longrightarrow> session_step br cfg s t"
| step_elsewhere: "st_cache t = st_cache s \<Longrightarrow> st_user t = st_user s \<Longrightarrow> session_step br cfg s t"

context own_cache
begin

lemma step_aligned: "session_step br cfg s t \<Longrightarrow> aligned s t"
proof (induction rule: session_step.induct)
  case (step_elsewhere t s)
  then show ?case by (simp add: keeps_def in_step_def)
qed (auto elim!: effectD [OF answered_aligned, rotated -1] effectD [OF cleared_aligned] effectD [OF ceiling_aligned]
  effectD [OF user_aligned(1)] effectD [OF user_aligned(2)] effectD [OF entry_aligned, rotated -1]
  effectD [OF client_get_aligned, rotated -1] effectD [OF propagate_aligned] effectD [OF strip_aligned] effectD [OF removed_aligned, rotated -1])

lemma run_aligned: "(session_step br cfg)\<^sup>*\<^sup>* s t \<Longrightarrow> in_step cfg s \<Longrightarrow> in_step cfg t"
proof (induction rule: rtranclp_induct)
  case (step t u)
  with step_aligned [OF step.hyps(2)] show ?case by (simp add: keeps_def)
qed

end

section \<open>The user the application sees\<close>


lemma rotation_tidy: "tidy (offline_client page_options) (st_cache rotation_state)"
  by (auto simp: tidy_def sample_cache sample_cfg rotation_state_def on_part_def InMemoryCache_def empty_entry_def truthy_def
      split: if_splits)


end
