(* ===== verification/DpopDb.thy ===== *)
theory DpopDb
  imports Dpop
begin

text \<open>
  \<open>src/dpop/storage.ts\<close> down to IndexedDB: the handle of the database, opened by the first request and
  kept, and one request per operation. The database is the browser's, a parameter with the laws of its
  documentation; over it the storage does what \<open>Dpop\<close> says of two maps.
\<close>

section \<open>The database\<close>

definition VERSION :: int where
  "VERSION = 1"

definition NAME :: string where
  "NAME = ''auth0-spa-js''"

datatype idb_table = NONCE | KEYPAIR

definition TABLES :: "idb_table list" where
  "TABLES = [NONCE, KEYPAIR]"

text \<open>What is stored, the requests to an object store, and their results.\<close>

datatype 'k stored = StoredNonce string | StoredPair 'k

datatype idb_mode = Readwrite | Readonly

datatype 'k idb_op = Put string "'k stored" | Get string | GetAllKeys | Delete string

datatype 'k idb_result = is_Done: Done | Found "'k stored option" | AllKeys "string list"

text \<open>\<open>idb_open\<close> takes the stores that \<open>onupgradeneeded\<close> creates.\<close>

record ('h, 'k, 'w) idb =
  idb_open :: "string \<Rightarrow> int \<Rightarrow> idb_table list \<Rightarrow> 'w \<Rightarrow> (js_error + 'h) \<times> 'w"
  idb_request :: "'h \<Rightarrow> idb_table \<Rightarrow> idb_mode \<Rightarrow> 'k idb_op \<Rightarrow> 'w \<Rightarrow> (js_error + 'k idb_result) \<times> 'w"

record ('h, 'w) db_state =
  db_handle :: "'h option"
  db_world :: 'w

section \<open>Requests\<close>

definition createDbHandle :: "('h, 'k, 'w) idb \<Rightarrow> (('h, 'w) db_state, js_error, 'h) act" where
  "createDbHandle idb s = (case idb_open idb NAME VERSION TABLES (db_world s) of
     (r, w) \<Rightarrow> (r, s\<lparr>db_world := w\<rparr>))"

definition getDbHandle :: "('h, 'k, 'w) idb \<Rightarrow> (('h, 'w) db_state, js_error, 'h) act" where
  "getDbHandle idb s = (case db_handle s of
     Some h \<Rightarrow> (Inr h, s)
   | None \<Rightarrow> andThen (createDbHandle idb) (\<lambda>h. andNext (modify (\<lambda>s. s\<lparr>db_handle := Some h\<rparr>)) (ret h)) s)"

definition executeDbRequest ::
  "('h, 'k, 'w) idb \<Rightarrow> idb_table \<Rightarrow> idb_mode \<Rightarrow> 'k idb_op \<Rightarrow> (('h, 'w) db_state, js_error, 'k idb_result) act" where
  "executeDbRequest idb table mode request =
     andThen (getDbHandle idb) (\<lambda>db s. case idb_request idb db table mode request (db_world s) of
       (r, w) \<Rightarrow> (r, s\<lparr>db_world := w\<rparr>))"

definition db_save ::
  "('h, 'k, 'w) idb \<Rightarrow> idb_table \<Rightarrow> string \<Rightarrow> 'k stored \<Rightarrow> (('h, 'w) db_state, js_error, unit) act" where
  "db_save idb table key obj = andNext (executeDbRequest idb table Readwrite (Put key obj)) (ret ())"

definition db_find ::
  "('h, 'k, 'w) idb \<Rightarrow> idb_table \<Rightarrow> string \<Rightarrow> (('h, 'w) db_state, js_error, 'k stored option) act" where
  "db_find idb table key = andThen (executeDbRequest idb table Readonly (Get key)) (\<lambda>r.
     ret (case r of Found v \<Rightarrow> v | _ \<Rightarrow> None))"

text \<open>\<open>Promise.all\<close> over requests that are all started: each is carried out, and the first that fails
  decides the result.\<close>

fun promise_all :: "('s, 'e, 'a) act list \<Rightarrow> ('s, 'e, unit) act" where
  "promise_all [] s = (Inr (), s)"
| "promise_all (m # ms) s = (case m s of
     (r, t) \<Rightarrow> (case promise_all ms t of (rs, u) \<Rightarrow> (case r of Inl e \<Rightarrow> (Inl e, u) | Inr _ \<Rightarrow> (rs, u))))"

definition db_deleteBy ::
  "('h, 'k, 'w) idb \<Rightarrow> idb_table \<Rightarrow> (string \<Rightarrow> bool) \<Rightarrow> (('h, 'w) db_state, js_error, unit) act" where
  "db_deleteBy idb table predicate =
     andThen (executeDbRequest idb table Readonly GetAllKeys) (\<lambda>r.
       promise_all (map (\<lambda>k. executeDbRequest idb table Readwrite (Delete k))
         (filter predicate (case r of AllKeys ks \<Rightarrow> ks | _ \<Rightarrow> []))))"

definition deleteByClientId ::
  "('h, 'k, 'w) idb \<Rightarrow> idb_table \<Rightarrow> string \<Rightarrow> (('h, 'w) db_state, js_error, unit) act" where
  "deleteByClientId idb table clientId = db_deleteBy idb table (\<lambda>k. starts_with k (clientId @ ''::''))"

section \<open>The handle\<close>

text \<open>The database is opened once: with a handle a request is one request.\<close>

lemma opened_once:
  "db_handle s = Some h \<Longrightarrow> executeDbRequest idb table mode request s =
     (case idb_request idb h table mode request (db_world s) of (r, w) \<Rightarrow> (r, s\<lparr>db_world := w\<rparr>))"
  by (simp add: executeDbRequest_def getDbHandle_def andThen_def)

section \<open>The contract of the database\<close>

text \<open>\<open>view\<close> is what the object stores hold. Opening keeps it, a request that fails keeps it, and one that
  succeeds does what its name says.\<close>

locale indexed_db =
  fixes idb :: "('h, 'k, 'w) idb" and view :: "'w \<Rightarrow> idb_table \<Rightarrow> string \<Rightarrow> 'k stored option"
  assumes open_view: "idb_open idb NAME VERSION TABLES w = (x, w') \<Longrightarrow> view w' = view w"
    and failed_view: "idb_request idb h t m q w = (Inl e, w') \<Longrightarrow> view w' = view w"
    and put_view: "idb_request idb h t Readwrite (Put k v) w = (Inr r, w') \<Longrightarrow> view w' = (view w)(t := (view w t)(k \<mapsto> v))"
    and get_view: "idb_request idb h t Readonly (Get k) w = (Inr r, w') \<Longrightarrow> r = Found (view w t k) \<and> view w' = view w"
    and keys_view: "idb_request idb h t Readonly GetAllKeys w = (Inr r, w') \<Longrightarrow>
      (\<exists>ks. r = AllKeys ks \<and> set ks = dom (view w t)) \<and> view w' = view w"
    and delete_view: "idb_request idb h t Readwrite (Delete k) w = (Inr r, w') \<Longrightarrow> view w' = (view w)(t := (view w t)(k := None))"
begin

lemma handle_view: "getDbHandle idb s = (r, s') \<Longrightarrow> view (db_world s') = view (db_world s)"
  using open_view
  by (auto simp: getDbHandle_def createDbHandle_def act_simps modify_def split: option.splits prod.splits sum.splits)

lemma request_fails:
  assumes "executeDbRequest idb t m q s = (Inl e, s')"
  shows "view (db_world s') = view (db_world s)"
proof -
  obtain x u where u: "getDbHandle idb s = (x, u)" by force
  with assms failed_view handle_view [OF u] show ?thesis
    by (cases x) (auto simp: executeDbRequest_def andThen_def split: prod.splits)
qed

lemma request_done:
  assumes "executeDbRequest idb t m q s = (Inr y, s')"
  obtains h w where "view w = view (db_world s)" "idb_request idb h t m q w = (Inr y, db_world s')"
proof -
  obtain x u where u: "getDbHandle idb s = (x, u)" by force
  then show thesis
  proof (cases x)
    case (Inr h)
    with assms u handle_view [OF u] that [of "db_world u" h] show thesis
      by (auto simp: executeDbRequest_def andThen_def split: prod.splits)
  qed (use assms u in \<open>simp add: executeDbRequest_def andThen_def\<close>)
qed

lemma save_view:
  assumes "db_save idb t k v s = (r, s')"
  shows "view (db_world s') = (case r of Inl _ \<Rightarrow> view (db_world s)
    | Inr _ \<Rightarrow> (view (db_world s))(t := (view (db_world s) t)(k \<mapsto> v)))"
proof (cases r)
  case (Inl e)
  with assms have "executeDbRequest idb t Readwrite (Put k v) s = (Inl e, s')"
    by (auto simp: db_save_def act_simps split: prod.splits sum.splits)
  from request_fails [OF this] Inl show ?thesis by simp
next
  case (Inr x)
  with assms obtain y where "executeDbRequest idb t Readwrite (Put k v) s = (Inr y, s')"
    by (auto simp: db_save_def act_simps split: prod.splits sum.splits)
  then obtain h w where "view w = view (db_world s)" "idb_request idb h t Readwrite (Put k v) w = (Inr y, db_world s')"
    by (rule request_done)
  from put_view [OF this(2)] this(1) Inr show ?thesis by simp
qed

lemma find_view:
  assumes "db_find idb t k s = (r, s')"
  shows "view (db_world s') = view (db_world s)" and "r = Inr v \<Longrightarrow> v = view (db_world s) t k"
proof -
  have "view (db_world s') = view (db_world s) \<and> (\<forall>v. r = Inr v \<longrightarrow> v = view (db_world s) t k)"
  proof (cases r)
    case (Inl e)
    with assms have "executeDbRequest idb t Readonly (Get k) s = (Inl e, s')"
      by (auto simp: db_find_def act_simps split: prod.splits sum.splits)
    from request_fails [OF this] Inl show ?thesis by simp
  next
    case (Inr v)
    with assms obtain y where y: "executeDbRequest idb t Readonly (Get k) s = (Inr y, s')"
      "v = (case y of Found v \<Rightarrow> v | _ \<Rightarrow> None)"
      by (auto simp: db_find_def act_simps split: prod.splits sum.splits)
    from y(1) obtain h w where "view w = view (db_world s)" "idb_request idb h t Readonly (Get k) w = (Inr y, db_world s')"
      by (rule request_done)
    from get_view [OF this(2)] this(1) Inr y(2) show ?thesis by simp
  qed
  then show "view (db_world s') = view (db_world s)" "r = Inr v \<Longrightarrow> v = view (db_world s) t k" by simp_all
qed

text \<open>The deletions of one clean-up: all that succeed are done, and when none failed all are.\<close>

lemma delete_request:
  assumes "executeDbRequest idb t Readwrite (Delete k) s = (r, s')"
  shows "view (db_world s') = (case r of Inl _ \<Rightarrow> view (db_world s)
    | Inr _ \<Rightarrow> (view (db_world s))(t := (view (db_world s) t)(k := None)))"
proof (cases r)
  case (Inl e)
  with assms request_fails show ?thesis by simp
next
  case (Inr y)
  with assms have "executeDbRequest idb t Readwrite (Delete k) s = (Inr y, s')" by simp
  then obtain h w where "view w = view (db_world s)" "idb_request idb h t Readwrite (Delete k) w = (Inr y, db_world s')"
    by (rule request_done)
  from delete_view [OF this(2)] this(1) Inr show ?thesis by simp
qed

lemma deletes_view:
  "promise_all (map (\<lambda>k. executeDbRequest idb t Readwrite (Delete k)) ks) s = (r, s') \<Longrightarrow>
     (\<exists>gone. gone \<subseteq> set ks \<and> (r = Inr () \<longrightarrow> gone = set ks) \<and>
        view (db_world s') = (view (db_world s))(t := (\<lambda>k. if k \<in> gone then None else view (db_world s) t k)))"
proof (induction ks arbitrary: s r)
  case (Cons k ks)
  obtain x u where x: "executeDbRequest idb t Readwrite (Delete k) s = (x, u)" by force
  obtain rs where rs: "promise_all (map (\<lambda>k. executeDbRequest idb t Readwrite (Delete k)) ks) u = (rs, s')"
    and r: "r = (case x of Inl e \<Rightarrow> Inl e | Inr _ \<Rightarrow> rs)"
    using Cons.prems x by (auto split: prod.splits sum.splits)
  from Cons.IH [OF rs] obtain gone where gone: "gone \<subseteq> set ks" "rs = Inr () \<Longrightarrow> gone = set ks"
    "view (db_world s') = (view (db_world u))(t := (\<lambda>k. if k \<in> gone then None else view (db_world u) t k))" by blast
  show ?case
  proof (cases x)
    case (Inl e)
    from delete_request [OF x] Inl have v: "view (db_world u) = view (db_world s)" by simp
    from gone(1) r Inl show ?thesis by (intro exI [of _ gone]) (auto simp: gone(3) [unfolded v])
  next
    case (Inr y)
    from delete_request [OF x] Inr have "view (db_world u) = (view (db_world s))(t := (view (db_world s) t)(k := None))" by simp
    then have "view (db_world s') = (view (db_world s))(t := (\<lambda>j. if j \<in> insert k gone then None else view (db_world s) t j))"
      by (simp add: gone(3) fun_eq_iff)
    with gone(1,2) r Inr show ?thesis by (intro exI [of _ "insert k gone"]) auto
  qed
qed (simp add: fun_eq_iff)

lemma deleteBy_view:
  assumes "db_deleteBy idb t p s = (r, s')"
  shows "\<exists>gone. (\<forall>k \<in> gone. p k) \<and> (r = Inr () \<longrightarrow> gone = {k \<in> dom (view (db_world s) t). p k}) \<and>
     view (db_world s') = (view (db_world s))(t := (\<lambda>k. if k \<in> gone then None else view (db_world s) t k))"
proof -
  obtain x u where x: "executeDbRequest idb t Readonly GetAllKeys s = (x, u)" by force
  show ?thesis
  proof (cases x)
    case (Inl e)
    with assms x have "r = Inl e" "s' = u" by (simp_all add: db_deleteBy_def act_simps)
    with request_fails [OF x [unfolded Inl]] show ?thesis by (intro exI [of _ "{}"]) simp
  next
    case (Inr y)
    from x [unfolded Inr] obtain h w where "view w = view (db_world s)" "idb_request idb h t Readonly GetAllKeys w = (Inr y, db_world u)"
      by (rule request_done)
    from keys_view [OF this(2)] this(1) obtain ks where
      ks: "y = AllKeys ks" "set ks = dom (view (db_world s) t)" "view (db_world u) = view (db_world s)" by auto
    have "db_deleteBy idb t p s = promise_all (map (\<lambda>k. executeDbRequest idb t Readwrite (Delete k)) (filter p ks)) u"
      unfolding db_deleteBy_def andThen_def x Inr ks(1) by simp
    with assms have "promise_all (map (\<lambda>k. executeDbRequest idb t Readwrite (Delete k)) (filter p ks)) u = (r, s')" by simp
    from deletes_view [OF this] obtain gone where gone: "gone \<subseteq> set (filter p ks)" "r = Inr () \<longrightarrow> gone = set (filter p ks)"
      "view (db_world s') = (view (db_world s))(t := (\<lambda>k. if k \<in> gone then None else view (db_world s) t k))"
      unfolding ks(3) by blast
    have "set (filter p ks) = {k \<in> dom (view (db_world s) t). p k}" by (simp add: ks(2))
    with gone show ?thesis by (intro exI [of _ gone]) blast
  qed
qed

end

section \<open>The maps of \<open>Dpop\<close> as a database\<close>

text \<open>The two maps of \<open>dpop_state\<close> behind the interface of IndexedDB; an object of the wrong kind is
  refused. This is the database that \<open>Dpop\<close> works on.\<close>

fun store_op :: "idb_table \<Rightarrow> 'k idb_op \<Rightarrow> (('k, 'w) dpop_state, js_error, 'k idb_result) act" where
  "store_op NONCE (Put k (StoredNonce v)) = andNext (modify (\<lambda>s. s\<lparr>dp_nonces := AList.update k v (dp_nonces s)\<rparr>)) (ret Done)"
| "store_op KEYPAIR (Put k (StoredPair v)) = andNext (modify (\<lambda>s. s\<lparr>dp_keypairs := AList.update k v (dp_keypairs s)\<rparr>)) (ret Done)"
| "store_op _ (Put _ _) = throw (Foreign None ''DataError'')"
| "store_op NONCE (Get k) = gets (\<lambda>s. Found (map_option StoredNonce (map_of (dp_nonces s) k)))"
| "store_op KEYPAIR (Get k) = gets (\<lambda>s. Found (map_option StoredPair (map_of (dp_keypairs s) k)))"
| "store_op NONCE GetAllKeys = gets (\<lambda>s. AllKeys (obj_keys (dp_nonces s)))"
| "store_op KEYPAIR GetAllKeys = gets (\<lambda>s. AllKeys (obj_keys (dp_keypairs s)))"
| "store_op NONCE (Delete k) = andNext (modify (\<lambda>s. s\<lparr>dp_nonces := AList.delete k (dp_nonces s)\<rparr>)) (ret Done)"
| "store_op KEYPAIR (Delete k) = andNext (modify (\<lambda>s. s\<lparr>dp_keypairs := AList.delete k (dp_keypairs s)\<rparr>)) (ret Done)"

definition maps_idb :: "(unit, 'k, ('k, 'w) dpop_state) idb" where
  "maps_idb = \<lparr>idb_open = (\<lambda>_ _ _. db_request (ret ())), idb_request = (\<lambda>_ t _ q. db_request (store_op t q))\<rparr>"

fun maps_view :: "('k, 'w) dpop_state \<Rightarrow> idb_table \<Rightarrow> string \<Rightarrow> 'k stored option" where
  "maps_view s NONCE k = map_option StoredNonce (map_of (dp_nonces s) k)"
| "maps_view s KEYPAIR k = map_option StoredPair (map_of (dp_keypairs s) k)"

lemma table_split: "(f :: idb_table \<Rightarrow> 'a) = g \<longleftrightarrow> f NONCE = g NONCE \<and> f KEYPAIR = g KEYPAIR"
  by (auto simp: fun_eq_iff) (metis idb_table.exhaust)

lemma maps_put: "store_op t (Put k v) s = (Inr r, s') \<Longrightarrow> maps_view s' = (maps_view s)(t := (maps_view s t)(k \<mapsto> v))"
  by (cases t; cases v) (auto simp: act_simps modify_def throw_def table_split fun_eq_iff update_Some_unfold map_of_update)

lemma maps_get: "store_op t (Get k) s = (x, s') \<Longrightarrow> x = Inr (Found (maps_view s t k)) \<and> s' = s"
  by (cases t) (auto simp: gets_def)

lemma maps_keys: "store_op t GetAllKeys s = (x, s') \<Longrightarrow> (\<exists>ks. x = Inr (AllKeys ks) \<and> set ks = dom (maps_view s t)) \<and> s' = s"
  by (cases t) (auto simp: gets_def set_obj_keys dom_def)

lemma maps_delete: "store_op t (Delete k) s = (x, s') \<Longrightarrow> maps_view s' = (maps_view s)(t := (maps_view s t)(k := None))"
  by (cases t) (auto simp: act_simps modify_def table_split fun_eq_iff delete_conv')

lemma maps_fail: "store_op t q s = (Inl e, s') \<Longrightarrow> s' = s"
  by (cases "(t, q)" rule: store_op.cases) (auto simp: act_simps modify_def throw_def gets_def)

interpretation maps: indexed_db "maps_idb :: (unit, 'k, ('k, 'w) dpop_state) idb" maps_view
  by unfold_locales
    (auto simp: maps_idb_def db_request_def ret_def split: if_splits dest: maps_put maps_get maps_keys maps_delete maps_fail)

section \<open>\<open>Dpop\<close> is the storage over its database\<close>

text \<open>The page of the storage: what a request gives, and the maps after it.\<close>

definition on_maps :: "((unit, ('k, 'w) dpop_state) db_state, js_error, 'a) act \<Rightarrow> unit option \<Rightarrow>
    (('k, 'w) dpop_state, js_error, 'a) act" where
  "on_maps m h d = (case m \<lparr>db_handle = h, db_world = d\<rparr> of (r, s) \<Rightarrow> (r, db_world s))"

definition stored_nonce :: "('s, js_error, 'k stored option) act \<Rightarrow> ('s, js_error, string option) act" where
  "stored_nonce m = andThen m (\<lambda>v. ret (case v of Some (StoredNonce n) \<Rightarrow> Some n | _ \<Rightarrow> None))"

definition stored_pair :: "('s, js_error, 'k stored option) act \<Rightarrow> ('s, js_error, 'k option) act" where
  "stored_pair m = andThen m (\<lambda>v. ret (case v of Some (StoredPair k) \<Rightarrow> Some k | _ \<Rightarrow> None))"

lemma one_request:
  "executeDbRequest maps_idb t m q \<lparr>db_handle = h, db_world = d\<rparr> = (case db_request (store_op t q) d of
     (r, d') \<Rightarrow> (r, \<lparr>db_handle = if dp_available d then Some () else h, db_world = d'\<rparr>))"
  by (cases h) (auto simp: executeDbRequest_def getDbHandle_def createDbHandle_def maps_idb_def db_request_def
      act_simps modify_def split: prod.splits)

lemma save_nonce: "on_maps (db_save maps_idb NONCE (dp_buildKey c i) (StoredNonce n)) h = dp_setNonce c n i"
  by (rule ext) (simp add: on_maps_def db_save_def dp_setNonce_def act_simps one_request db_request_def modify_def)

lemma save_pair: "on_maps (db_save maps_idb KEYPAIR (dp_buildKey c None) (StoredPair k)) h = dp_setKeyPair c k"
  by (rule ext) (simp add: on_maps_def db_save_def dp_setKeyPair_def act_simps one_request db_request_def modify_def)

lemma find_nonce: "on_maps (stored_nonce (db_find maps_idb NONCE (dp_buildKey c i))) h = dp_findNonce c i"
  by (rule ext) (simp add: on_maps_def stored_nonce_def db_find_def dp_findNonce_def act_simps one_request db_request_def
      gets_def split: option.splits)

lemma find_pair: "on_maps (stored_pair (db_find maps_idb KEYPAIR (dp_buildKey c None))) h = dp_findKeyPair c"
  by (rule ext) (simp add: on_maps_def stored_pair_def db_find_def dp_findKeyPair_def act_simps one_request db_request_def
      gets_def split: option.splits)

lemma deletes_nonces:
  "dp_available d \<Longrightarrow> promise_all (map (\<lambda>k. executeDbRequest maps_idb NONCE Readwrite (Delete k)) ks) \<lparr>db_handle = Some (), db_world = d\<rparr> =
     (Inr (), \<lparr>db_handle = Some (), db_world = d\<lparr>dp_nonces := fold AList.delete ks (dp_nonces d)\<rparr>\<rparr>)"
  by (induction ks arbitrary: d) (simp_all add: one_request db_request_def act_simps modify_def)

lemma deletes_pairs:
  "dp_available d \<Longrightarrow> promise_all (map (\<lambda>k. executeDbRequest maps_idb KEYPAIR Readwrite (Delete k)) ks) \<lparr>db_handle = Some (), db_world = d\<rparr> =
     (Inr (), \<lparr>db_handle = Some (), db_world = d\<lparr>dp_keypairs := fold AList.delete ks (dp_keypairs d)\<rparr>\<rparr>)"
  by (induction ks arbitrary: d) (simp_all add: one_request db_request_def act_simps modify_def)

lemma delete_nonces: "on_maps (deleteByClientId maps_idb NONCE c) h = dp_clearNonces c"
  by (rule ext) (simp add: on_maps_def deleteByClientId_def db_deleteBy_def dp_clearNonces_def dp_deleteBy_def act_simps
      one_request db_request_def modify_def gets_def deletes_nonces)

lemma delete_pairs: "on_maps (deleteByClientId maps_idb KEYPAIR c) h = dp_clearKeyPairs c"
  by (rule ext) (simp add: on_maps_def deleteByClientId_def db_deleteBy_def dp_clearKeyPairs_def dp_deleteBy_def act_simps
      one_request db_request_def modify_def gets_def deletes_pairs)

section \<open>Runs of the storage\<close>

datatype 'k dpop_call = SetNonce string "string option" | SetKeyPair 'k | FindNonce "string option" | FindKeyPair
  | ClearNonces | ClearKeyPairs

fun storage_call ::
  "('h, 'k, 'w) idb \<Rightarrow> string \<Rightarrow> 'k dpop_call \<Rightarrow> (('h, 'w) db_state, js_error, 'k stored option) act" where
  "storage_call idb c (SetNonce n i) = andNext (db_save idb NONCE (dp_buildKey c i) (StoredNonce n)) (ret None)"
| "storage_call idb c (SetKeyPair k) = andNext (db_save idb KEYPAIR (dp_buildKey c None) (StoredPair k)) (ret None)"
| "storage_call idb c (FindNonce i) = db_find idb NONCE (dp_buildKey c i)"
| "storage_call idb c FindKeyPair = db_find idb KEYPAIR (dp_buildKey c None)"
| "storage_call idb c ClearNonces = andNext (deleteByClientId idb NONCE c) (ret None)"
| "storage_call idb c ClearKeyPairs = andNext (deleteByClientId idb KEYPAIR c) (ret None)"

fun storage_run ::
  "('h, 'k, 'w) idb \<Rightarrow> string \<Rightarrow> 'k dpop_call list \<Rightarrow> ('h, 'w) db_state
     \<Rightarrow> (js_error + 'k stored option) list \<times> ('h, 'w) db_state" where
  "storage_run idb c [] s = ([], s)"
| "storage_run idb c (q # qs) s = (case storage_call idb c q s of
     (r, t) \<Rightarrow> (case storage_run idb c qs t of (rs, u) \<Rightarrow> (r # rs, u)))"

text \<open>What is promised: two maps.\<close>

type_synonym 'k tables = "idb_table \<Rightarrow> string \<Rightarrow> 'k stored option"

definition forget :: "string \<Rightarrow> idb_table \<Rightarrow> 'k tables \<Rightarrow> 'k tables" where
  "forget c t m = m(t := (\<lambda>k. if starts_with k (c @ ''::'') then None else m t k))"

fun promised :: "string \<Rightarrow> 'k dpop_call \<Rightarrow> 'k tables \<Rightarrow> 'k stored option \<times> 'k tables" where
  "promised c (SetNonce n i) m = (None, m(NONCE := (m NONCE)(dp_buildKey c i \<mapsto> StoredNonce n)))"
| "promised c (SetKeyPair k) m = (None, m(KEYPAIR := (m KEYPAIR)(dp_buildKey c None \<mapsto> StoredPair k)))"
| "promised c (FindNonce i) m = (m NONCE (dp_buildKey c i), m)"
| "promised c FindKeyPair m = (m KEYPAIR (dp_buildKey c None), m)"
| "promised c ClearNonces m = (None, forget c NONCE m)"
| "promised c ClearKeyPairs m = (None, forget c KEYPAIR m)"

fun promised_run :: "string \<Rightarrow> 'k dpop_call list \<Rightarrow> 'k tables \<Rightarrow> 'k stored option list \<times> 'k tables" where
  "promised_run c [] m = ([], m)"
| "promised_run c (q # qs) m = (case promised c q m of
     (r, m1) \<Rightarrow> (case promised_run c qs m1 of (rs, m2) \<Rightarrow> (r # rs, m2)))"

definition elsewhere :: "string \<Rightarrow> 'k tables \<Rightarrow> 'k tables \<Rightarrow> bool" where
  "elsewhere c m m' \<longleftrightarrow> (\<forall>t k. \<not> starts_with k (c @ ''::'') \<longrightarrow> m' t k = m t k)"

context indexed_db
begin

lemma save_call:
  assumes "andNext (db_save idb t (dp_buildKey c i) v) (ret None) s = (r, s')"
  shows "elsewhere c (view (db_world s)) (view (db_world s'))"
    and "r = Inr x \<Longrightarrow> x = None \<and> view (db_world s') = (view (db_world s))(t := (view (db_world s) t)(dp_buildKey c i \<mapsto> v))"
proof -
  obtain y u where y: "db_save idb t (dp_buildKey c i) v s = (y, u)" by force
  from assms y have u: "u = s'" "r = (case y of Inl e \<Rightarrow> Inl e | Inr _ \<Rightarrow> Inr None)" by (cases y; simp add: act_simps)+
  from save_view [OF y] buildKey_own [of c i] show "elsewhere c (view (db_world s)) (view (db_world s'))"
    by (cases y) (auto simp: u(1) elsewhere_def)
  show "x = None \<and> view (db_world s') = (view (db_world s))(t := (view (db_world s) t)(dp_buildKey c i \<mapsto> v))" if "r = Inr x"
    using that save_view [OF y] by (cases y) (simp_all add: u)
qed

lemma clear_call:
  assumes "andNext (deleteByClientId idb t c) (ret None) s = (r, s')"
  shows "elsewhere c (view (db_world s)) (view (db_world s'))"
    and "r = Inr x \<Longrightarrow> x = None \<and> view (db_world s') = forget c t (view (db_world s))"
proof -
  obtain y u where y: "deleteByClientId idb t c s = (y, u)" by force
  from assms y have u: "u = s'" "r = (case y of Inl e \<Rightarrow> Inl e | Inr _ \<Rightarrow> Inr None)" by (cases y; simp add: act_simps)+
  from deleteBy_view [OF y [unfolded deleteByClientId_def]] obtain gone where
    gone: "\<forall>k \<in> gone. starts_with k (c @ ''::'')"
      "y = Inr () \<longrightarrow> gone = {k \<in> dom (view (db_world s) t). starts_with k (c @ ''::'')}"
      "view (db_world s') = (view (db_world s))(t := (\<lambda>k. if k \<in> gone then None else view (db_world s) t k))"
    unfolding u(1) by blast
  from gone(1) show "elsewhere c (view (db_world s)) (view (db_world s'))"
    by (auto simp: gone(3) elsewhere_def)
  show "x = None \<and> view (db_world s') = forget c t (view (db_world s))" if "r = Inr x"
  proof -
    from that u have "y = Inr ()" by (cases y) simp_all
    with gone(2) have g: "gone = {k \<in> dom (view (db_world s) t). starts_with k (c @ ''::'')}" by simp
    from that u(2) have "x = None" by (cases y) simp_all
    moreover have "(\<lambda>k. if k \<in> gone then None else view (db_world s) t k) =
        (\<lambda>k. if starts_with k (c @ ''::'') then None else view (db_world s) t k)"
      by (auto simp: g fun_eq_iff)
    ultimately show ?thesis by (simp add: gone(3) forget_def)
  qed
qed

lemma one_call:
  assumes "storage_call idb c q s = (r, s')"
  shows "elsewhere c (view (db_world s)) (view (db_world s')) \<and>
    (\<forall>x. r = Inr x \<longrightarrow> promised c q (view (db_world s)) = (x, view (db_world s')))"
proof (cases q)
  case (SetNonce n i)
  with assms save_call show ?thesis by fastforce
next
  case (SetKeyPair k)
  with assms save_call show ?thesis by fastforce
next
  case (FindNonce i)
  with assms have "db_find idb NONCE (dp_buildKey c i) s = (r, s')" by simp
  from find_view [OF this] FindNonce show ?thesis by (simp add: elsewhere_def)
next
  case FindKeyPair
  with assms have "db_find idb KEYPAIR (dp_buildKey c None) s = (r, s')" by simp
  from find_view [OF this] FindKeyPair show ?thesis by (simp add: elsewhere_def)
next
  case ClearNonces
  with assms clear_call show ?thesis by fastforce
next
  case ClearKeyPairs
  with assms clear_call show ?thesis by fastforce
qed

lemma run_refines:
  "storage_run idb c qs s = (rs, s') \<Longrightarrow>
     elsewhere c (view (db_world s)) (view (db_world s')) \<and>
     ((\<forall>r \<in> set rs. \<not> isl r) \<longrightarrow> promised_run c qs (view (db_world s)) = (map projr rs, view (db_world s')))"
proof (induction qs arbitrary: s rs)
  case (Cons q qs)
  obtain r t where r: "storage_call idb c q s = (r, t)" by force
  obtain rs' where rs: "storage_run idb c qs t = (rs', s')" "rs = r # rs'"
    using Cons.prems r by (auto split: prod.splits)
  from one_call [OF r] Cons.IH [OF rs(1)] show ?case
    by (cases r) (auto simp: rs(2) elsewhere_def)
qed (auto simp: elsewhere_def)

end

text \<open>
  C36: over any database within the contract of IndexedDB, calls of the storage of one client, failing or
  not, never touch an entry of another; when none fails, the finds give and the tables hold what two
  plain maps would.
\<close>

theorem storage_refines_maps:
  assumes "indexed_db idb view" and "storage_run idb c qs s = (rs, s')"
  shows "(\<forall>t k. \<not> starts_with k (c @ ''::'') \<longrightarrow> view (db_world s') t k = view (db_world s) t k) \<and>
    ((\<forall>r \<in> set rs. \<not> isl r) \<longrightarrow> promised_run c qs (view (db_world s)) = (map projr rs, view (db_world s')))"
  using indexed_db.run_refines [OF assms] by (simp add: elsewhere_def)

theorem storage_refines_maps_witness:
  "\<exists>rs s'. storage_run maps_idb ''app'' [SetNonce ''n1'' None, FindNonce None, ClearNonces, FindNonce None]
      \<lparr>db_handle = None, db_world = \<lparr>dp_available = True, dp_nonces = [(''web::auth0'', ''n0'')],
        dp_keypairs = [(''app::auth0'', 7 :: int)], dp_world = ()\<rparr>\<rparr> = (rs, s') \<and>
     map projr rs = [None, Some (StoredNonce ''n1''), None, None] \<and>
     maps_view (db_world s') NONCE ''web::auth0'' = Some (StoredNonce ''n0'') \<and>
     maps_view (db_world s') KEYPAIR ''app::auth0'' = Some (StoredPair 7)"
proof -
  let ?qs = "[SetNonce ''n1'' None, FindNonce None, ClearNonces, FindNonce None] :: int dpop_call list"
  let ?d = "\<lparr>dp_available = True, dp_nonces = [(''web::auth0'', ''n0'')], dp_keypairs = [(''app::auth0'', 7 :: int)], dp_world = ()\<rparr>"
  obtain rs s' where run: "storage_run maps_idb ''app'' ?qs \<lparr>db_handle = None, db_world = ?d\<rparr> = (rs, s')" by force
  then have ok: "\<forall>r \<in> set rs. \<not> isl r"
    by (auto simp: db_save_def db_find_def deleteByClientId_def db_deleteBy_def one_request db_request_def act_simps
        modify_def gets_def dp_buildKey_def truthy_def AUTH0_NONCE_ID_def starts_with_def obj_keys_def)
  from storage_refines_maps [OF maps.indexed_db_axioms run, THEN conjunct2] ok have all: "promised_run ''app'' ?qs (maps_view ?d) = (map projr rs, maps_view (db_world s'))"
    by (simp del: promised_run.simps)
  have res: "map projr rs = fst (promised_run ''app'' ?qs (maps_view ?d))" by (simp only: all fst_conv)
  have tables: "maps_view (db_world s') t k = snd (promised_run ''app'' ?qs (maps_view ?d)) t k" for t k
    by (simp only: all snd_conv)
  have "maps_view (db_world s') NONCE ''web::auth0'' = Some (StoredNonce ''n0'')"
    "maps_view (db_world s') KEYPAIR ''app::auth0'' = Some (StoredPair 7)"
    unfolding tables by (simp_all add: forget_def starts_with_def dp_buildKey_def AUTH0_NONCE_ID_def truthy_def)
  moreover have "map projr rs = [None, Some (StoredNonce ''n1''), None, None]"
    unfolding res by (simp add: forget_def starts_with_def dp_buildKey_def AUTH0_NONCE_ID_def truthy_def)
  ultimately show ?thesis
    by (intro exI [of _ rs] exI [of _ s'] conjI run)
qed

end
