(* ===== verification/FailedRequests.thy ===== *)
theory FailedRequests
  imports SilentTokens
begin

text \<open>
  A token request that fails, at the endpoint or in one of the checks of its answer, leaves no
  token of that answer in the page: the steps up to the failure can only remove what was there.
\<close>

section \<open>The tokens of the page\<close>

fun tokens_of :: "cacheable \<Rightarrow> string set" where
  "tokens_of (Wrapped b x) = set_option (ce_access_token b) \<union> set_option (ce_refresh_token b) \<union> set_option (ce_id_token b)"
| "tokens_of (IdTok i) = set_option (ide_id_token i)"
| "tokens_of (Manifest ks) = {}"

definition cache_tokens :: "'c icache \<Rightarrow> 'c \<Rightarrow> string set" where
  "cache_tokens ic c = \<Union> {tokens_of v | v. \<exists>j. ic_get ic c j = Some v}"

definition page_tokens :: "('c, 'w) client_config \<Rightarrow> ('c, 'k, 'w) client_state \<Rightarrow> string set" where
  "page_tokens cfg s = cache_tokens (cm_cache (cc_manager cfg)) (st_cache s) \<union>
     set_option (Option.bind (st_user s) ide_id_token)"

lemma cache_tokens_member: "ic_get ic c j = Some v \<Longrightarrow> t \<in> tokens_of v \<Longrightarrow> t \<in> cache_tokens ic c"
  by (auto simp: cache_tokens_def)

text \<open>No token more, the same cookies, the same anonymous session.\<close>

definition sheds :: "('c, 'w) client_config \<Rightarrow> ('c, 'k, 'w) client_state \<Rightarrow> ('c, 'k, 'w) client_state \<Rightarrow> bool" where
  "sheds cfg s t \<longleftrightarrow> page_tokens cfg t \<subseteq> page_tokens cfg s \<and> st_web t = st_web s \<and> st_anon t = st_anon s"

lemma preorder_sheds: "preorder_rel (sheds cfg)"
  by (auto simp: preorder_rel_def sheds_def)

interpretation shed: net_frame "sheds cfg" for cfg
  by unfold_locales (simp_all add: sheds_def page_tokens_def preorder_sheds)

section \<open>Reads of the cache\<close>

lemma refresh_part_tokens: "tokens_of (Wrapped (refresh_part b) x) \<subseteq> tokens_of (Wrapped b y)"
  by (auto simp: refresh_part_def empty_entry_def)

context cache_laws
begin

lemma tokens_set: "ok v \<Longrightarrow> cache_tokens ic (ic_set ic k v c) \<subseteq> cache_tokens ic c \<union> tokens_of v"
  by (auto simp: cache_tokens_def get_set split: if_splits)

lemma tokens_remove: "cache_tokens ic (ic_remove ic k c) \<subseteq> cache_tokens ic c"
  by (auto simp: cache_tokens_def get_remove split: if_splits)

lemma tokens_removes: "cache_tokens ic (fold (ic_remove ic) ks c) \<subseteq> cache_tokens ic c"
  by (auto simp: cache_tokens_def get_fold_remove split: if_splits)

lemma tokens_found:
  assumes "cm_cache m = ic" "cm_keyManifest m = None" "ic_get ic c j = Some w"
    and run: "cm_get_found m now adj w k c = (e, d)"
  shows "cache_tokens ic d \<subseteq> cache_tokens ic c \<and> (\<forall>b. e = Some b \<longrightarrow> tokens_of (Wrapped b None) \<subseteq> cache_tokens ic c)"
proof (cases w)
  case (Wrapped b x)
  have ok: "ok (Wrapped (refresh_part b) x)"
    using get_ok [OF assms(3)] unfolding Wrapped refresh_part_def by (rule ok_strip)
  have b: "tokens_of (Wrapped b y) \<subseteq> cache_tokens ic c" for y
    using cache_tokens_member [OF assms(3)] Wrapped by auto
  have r: "tokens_of (Wrapped (refresh_part b) y) \<subseteq> cache_tokens ic c" for y
    using refresh_part_tokens [of b y x] b [of x] by blast
  from run assms(1,2) Wrapped have "(e = Some b \<and> d = c) \<or> (e = Some (refresh_part b) \<and> d = ic_set ic (toKey k) (Wrapped (refresh_part b) x) c)
      \<or> (e = None \<and> d = ic_remove ic (toKey k) c)"
    by (auto simp: cm_get_found_def modifiedCachedEntry_def cm_untrack_def Let_def split: if_splits)
  then show ?thesis
    using b [of None] r [of None] r [of x] tokens_set [OF ok, of "toKey k" c] tokens_remove [of "toKey k" c] by auto
qed (use run in \<open>auto simp: cm_get_found_def\<close>)

lemma tokens_refresh:
  "cm_cache m = ic \<Longrightarrow> getEntryWithRefreshToken m k ks c = Some b \<Longrightarrow> tokens_of (Wrapped b None) \<subseteq> cache_tokens ic c"
proof (induction ks)
  case (Cons key ks)
  have "tokens_of (Wrapped b None) \<subseteq> cache_tokens ic c"
    if "Option.bind (ic_get ic c key) entry_body = Some b'" "b = refresh_part b'" for b'
  proof -
    from that(1) obtain x where "ic_get ic c key = Some (Wrapped b' x)"
      by (auto simp: bind_eq_Some_conv elim!: entry_body.elims)
    then have "tokens_of (Wrapped b' x) \<subseteq> cache_tokens ic c" by (auto intro: cache_tokens_member)
    with that(2) refresh_part_tokens [of b' None x] show ?thesis by blast
  qed
  with Cons show ?case by (auto simp: Let_def split: if_splits option.splits)
qed simp

lemma tokens_get:
  assumes m: "cm_cache m = ic" "cm_keyManifest m = None" and run: "cm_get m now k adj mrrt mode c = (e, d)"
  shows "cache_tokens ic d \<subseteq> cache_tokens ic c \<and> (\<forall>b. e = Some b \<longrightarrow> tokens_of (Wrapped b None) \<subseteq> cache_tokens ic c)"
proof (cases "ic_get ic c (toKey k)")
  case (Some w)
  with run m tokens_found [OF m Some] show ?thesis by (simp add: cm_get_def)
next
  case None
  show ?thesis
  proof (cases "getCacheKeys m c")
    case (Some ks)
    show ?thesis
    proof (cases "Option.bind (matchExistingCacheKey k ks) (ic_get ic c)")
      case found: (Some w)
      then obtain j where j: "ic_get ic c j = Some w" by (auto simp: bind_eq_Some_conv)
      from run None m Some found
      have "cm_get_found m now adj w (fromKey (the (matchExistingCacheKey k ks))) c = (e, d)"
        by (simp add: cm_get_def Let_def)
      then show ?thesis by (rule tokens_found [OF m j])
    next
      case none: None
      with run None m Some have "d = c" "e = None \<or> e = getEntryWithRefreshToken m k ks c"
        by (auto simp: cm_get_def Let_def split: if_splits)
      with tokens_refresh [OF m(1), of k ks c] show ?thesis
        by (cases e) (auto simp del: tokens_of.simps)
    qed
  qed (use run None m in \<open>simp add: cm_get_def\<close>)
qed

lemma tokens_getIdToken:
  assumes m: "cm_cache m = ic" "cm_keyManifest m = None" and run: "cm_getIdToken m now k c = (e, d)"
  shows "cache_tokens ic d \<subseteq> cache_tokens ic c \<and> set_option (Option.bind e ide_id_token) \<subseteq> cache_tokens ic c"
proof (cases "ic_get ic c (getIdTokenCacheKey (ck_clientId k))")
  case (Some v)
  with run m cache_tokens_member [OF Some] show ?thesis
    by (cases v) (auto simp: cm_getIdToken_def)
next
  case None
  obtain e' c' where get: "cm_get m now k 0 False None c = (e', c')" by force
  from tokens_get [OF m get] run None m get show ?thesis
    by (auto simp: cm_getIdToken_def split: if_splits option.splits)
qed

lemma tokens_clear:
  assumes "cm_cache m = ic" "cm_keyManifest m = None"
  shows "cache_tokens ic (cm_clear m cid c) \<subseteq> cache_tokens ic c"
  using assms tokens_removes by (auto simp: cm_clear_def Let_def split: option.split)

end

section \<open>The steps up to the answer\<close>

text \<open>Only the failing runs of a method have to keep a relation.\<close>

definition on_failure :: "('s \<Rightarrow> 's \<Rightarrow> bool) \<Rightarrow> ('s, 'e, 'a) act \<Rightarrow> bool" where
  "on_failure R m \<longleftrightarrow> (\<forall>s e t. m s = (Inl e, t) \<longrightarrow> R s t)"

lemma on_failure_andThen:
  "preorder_rel R \<Longrightarrow> effect R m \<Longrightarrow> (\<And>x. on_failure R (f x)) \<Longrightarrow> on_failure R (andThen m f)"
  unfolding on_failure_def effect_def preorder_rel_def andThen_def
  by (auto split: prod.splits sum.splits) (metis snd_conv)+

lemma on_failure_catching:
  assumes "preorder_rel R" "on_failure R m" "\<And>e. effect R (h e)"
  shows "on_failure R (catching m h)"
  unfolding on_failure_def
proof (intro allI impI)
  fix s e t assume run: "catching m h s = (Inl e, t)"
  obtain r u where m: "m s = (r, u)" by force
  with run obtain e' where "r = Inl e'" "h e' u = (Inl e, t)"
    by (cases r) (simp_all add: catching_def)
  with m assms show "R s t" unfolding on_failure_def effect_def preorder_rel_def by (metis snd_conv)
qed

lemma establish_fails: "preorder_rel R \<Longrightarrow> on_failure R (establish_session br cfg options extra r d)"
  by (auto simp: on_failure_def establish_session_def saveEntryInCache_def act_simps on_cache_def on_web_def modify_def
      processOrgHint_def preorder_rel_def Let_def split: option.splits if_splits)

context session_store
begin

lemma shed_id_token [effect_intro]:
  fixes br :: "('k, 'w) browser"
  shows "effect (sheds cfg) (getIdTokenFromCache br cfg)"
proof (rule effectI)
  fix s r and t :: "('c, 'k, 'w) client_state" assume run: "getIdTokenFromCache br cfg s = (r, t)"
  obtain e c where e: "cm_getIdToken (cc_manager cfg) (client_now br s)
      (new_CacheKey (Some (cc_clientId cfg)) (map_of (cc_scope cfg) (or_default (opt_str (cc_params cfg) ''audience'') DEFAULT_AUDIENCE))
        (Some (or_default (opt_str (cc_params cfg) ''audience'') DEFAULT_AUDIENCE))) (st_cache s) = (e, c)" by force
  from run e have "t = s\<lparr>st_cache := c\<rparr> \<or> t = s\<lparr>st_cache := c, st_user := e\<rparr>"
    by (auto simp: getIdTokenFromCache_def Let_def split: if_splits)
  with cache.tokens_getIdToken [OF refl no_manifest e] show "sheds cfg s t"
    by (auto simp: sheds_def page_tokens_def)
qed

lemma shed_get [effect_intro]:
  fixes br :: "('k, 'w) browser"
  shows "effect (sheds cfg) (client_get br cfg scope audience adj mode)"
proof (rule effectI)
  fix s r and t :: "('c, 'k, 'w) client_state" assume run: "client_get br cfg scope audience adj mode s = (r, t)"
  obtain e c where e: "cm_get (cc_manager cfg) (client_now br s) (new_CacheKey (Some (cc_clientId cfg)) scope (Some audience)) adj
      (co_useMrrt (cc_options cfg)) mode (st_cache s) = (e, c)" by force
  from run e have "t = s\<lparr>st_cache := c\<rparr>" by (simp add: client_get_def on_cache_def)
  with cache.tokens_get [OF refl no_manifest e] show "sheds cfg s t" by (auto simp: sheds_def page_tokens_def)
qed

lemma shed_clear [effect_intro]: "effect (sheds cfg) (on_cache (\<lambda>c. ((), cm_clear (cc_manager cfg) cid c)))"
  using cache.tokens_clear [OF refl no_manifest]
  by (auto simp: effect_def on_cache_def sheds_def page_tokens_def)

lemma shed_check [effect_intro]: "effect (sheds cfg) (check_user br cfg d)"
proof -
  have "sheds cfg s (s\<lparr>st_user := None\<rparr>)" for s :: "('c, 'k, 'w) client_state"
    by (auto simp: sheds_def page_tokens_def)
  then show ?thesis
    unfolding check_user_def Let_def by (auto intro!: effect_intro preorder_sheds)
qed

lemma request_sheds: "on_failure (sheds cfg) (requestToken br cfg options extra)"
proof -
  have "effect (sheds cfg) (pin_ceiling br cfg d)" "effect (sheds cfg) (carry_refresh_token br cfg options scope r)" for d scope r
    unfolding pin_ceiling_def carry_refresh_token_def by (auto intro!: effect_intro preorder_sheds split: option.split)
  then show ?thesis
    unfolding requestToken_def Let_def
    by (intro on_failure_catching on_failure_andThen establish_fails preorder_sheds)
      (auto intro!: effect_intro preorder_sheds)
qed

end

section \<open>Properties\<close>


text \<open>Alice's session has the ceiling of an earlier one: her new id token is issued after it.\<close>

definition stale_session :: "(unit page_caches, unit, string obj) client_state" where
  "stale_session = fresh_state\<lparr>st_cache := \<lparr>pc_memory = [(getIdTokenCacheKey (Some ''client''), IdTok (sample_user 0))],
     pc_local = [], pc_custom = ()\<rparr>\<rparr>"

lemma stale_request:
  "\<exists>e t. requestToken (serving 5000000 True rotated) (offline_client page_options) orders_request no_extra stale_session = (Inl e, t)"
proof -
  let ?br = "serving 5000000 True rotated"
  let ?cfg = "offline_client page_options :: (unit page_caches, string obj) client_config"
  let ?s = "stale_session\<lparr>st_log := [Fetched (cc_domainUrl ?cfg @ ''/oauth/token'')]\<rparr>"
  let ?d = "(decoded_claims alice_claims)\<lparr>jd_claims := AList.update ''session_expiry'' (JNum 0)
      (jd_claims (decoded_claims alice_claims))\<rparr>"
  have wf: "json_wf (JObj alice_claims)" "json_wf (JObj rotated)" "response_data rotated = rotated"
    by (simp_all add: alice_claims_def user_claims_def rotated_def token_result_def response_data_def)
  have verify: "verifyIdToken ?br ?cfg (Some (issued alice_claims)) None None None ?s = (Inr (decoded_claims alice_claims), ?s)"
    using serving_verify [of "''alice''" "''n''" None 5000000 True rotated ?s] wf(1) by (simp add: alice_claims_def)
  have "ic_get (cm_cache (cc_manager ?cfg)) (st_cache ?s) (getIdTokenCacheKey (Some (cc_clientId ?cfg))) = Some (IdTok (sample_user 0))"
    by (simp add: sample_cfg sample_cache stale_session_def on_part_def InMemoryCache_def)
  from id_token_found [OF this, of "''id''" ?br]
  have found: "getIdTokenFromCache ?br ?cfg ?s = (Inr (Some (sample_user 0)), ?s\<lparr>st_user := Some (sample_user 0)\<rparr>)"
    by (simp add: sample_user_def stale_session_def fresh_state_def)
  have pin: "pin_ceiling ?br ?cfg (decoded_claims alice_claims) ?s = (Inr ?d, ?s\<lparr>st_user := Some (sample_user 0)\<rparr>)"
    by (simp add: pin_ceiling_def andThen_def found entry_claim_def) (simp add: sample_user_def)
  have "\<exists>e. session_expiry_error (jd_claims ?d) = Some (GenericError ''invalid_token'' e None)"
    by (simp add: session_expiry_error_def decoded_claims_def alice_claims_def user_claims_def as_number_def update_conv')
  then obtain e where "establish_session ?br ?cfg orders_request no_extra rotated ?d u = (Inl (GenericError ''invalid_token'' e None), u)" for u
    by (auto simp: establish_session_def saveEntryInCache_def act_simps)
  moreover have "json_str (map_of rotated ''id_token'') = Some (issued alice_claims)"
    by (simp add: rotated_def token_result_def json_str_def)
  moreover have "carry_refresh_token ?br ?cfg orders_request sc rotated v = (Inr rotated, v)" for sc v
    by (simp add: carry_refresh_token_def sample_cfg)
  moreover have "\<not> is_code_grant orders_request" "map_of orders_request ''baseUrl'' = None" "st_log stale_session = []"
    by (simp_all add: is_code_grant_def orders_request_def opt_str_def json_str_def stale_session_def fresh_state_def)
  ultimately show ?thesis
    using serving_oauth [OF wf(2,3) sample_cfg(1), of 5000000] verify pin
    by (simp add: requestToken_def client_dpop_def sample_cfg act_simps no_extra_def endpoint_base Let_def storeMfaContext_def)
qed


end
