(* ===== verification/Spec2Isabelle.thy ===== *)
theory Spec2Isabelle
  imports CacheModel KeyPairs Promise Passkey MyAccountTypes MfaContext DomainDiscovery TokenExchange SharedCalls ClientAnonymous
    ClientCalls SilentTokens StepUp LoginFlow PageTokens Tabs TokenReturned SessionSteps DpopDb FailedRequests LateAnswers
begin

text \<open>
  A verification library for \<open>auth0-spa-js\<close>, the SDK with which a single-page application signs
  users in at Auth0 and obtains tokens. All paths below are relative to \<open>src/src/\<close>.

  \<^bold>\<open>The program.\<close> \<open>Auth0Client\<close> is the object an application holds. It starts logins (by redirect
  or popup), redeems their codes, keeps the tokens in a cache, renews them (by refresh token or
  by a hidden iframe), and ends sessions. Under it are: a cache manager over a cache in memory, in
  the browser's storage, or of the application; a store for the transaction of a login that is
  under way; cookies that remember that someone is signed in; a worker that keeps refresh tokens
  out of the page; locks that keep tabs from renewing at the same time; the verification of id
  tokens; DPoP keys and nonces; anonymous sessions; and clients for the My Account API, for MFA
  and for passkeys.

  \<^bold>\<open>The theories\<close>, in the order of their imports. The name of a definition is the name in the
  source, or that name with a prefix of its component where it would clash.

  \<^item> \<open>Js_Prelude\<close>, \<open>Js_Text\<close>, \<open>Js_Json\<close>, \<open>Js_Encoding\<close>: what the source uses of the language and the
    platform: insertion-ordered objects (\<open>obj\<close>), truthiness, the effect type \<open>act\<close> of an
    asynchronous method (a function from a state to an error or a value, and the state left
    behind), string methods, JSON, UTF-8, base64 and form encoding, with their round trips.
  \<^item> \<open>Errors\<close> (\<open>errors.ts\<close>, \<open>mfa/errors.ts\<close>, \<open>passkey/errors.ts\<close>): one constructor of \<open>js_error\<close> per
    class. \<open>Scope\<close> (\<open>scope.ts\<close>, the scope functions of \<open>Auth0Client.utils.ts\<close>).
  \<^item> \<open>CacheKey\<close>, \<open>Cache\<close>, \<open>CacheManager\<close> (\<open>cache/\<close>): keys and their text; the entries; the interface
    \<open>ICache\<close> as the record \<open>icache\<close> and its contract as the locales \<open>cache_laws\<close> and
    \<open>listing_cache\<close>, interpreted on both caches; every operation of the manager over any of them,
    and the manifest of keys for a cache that cannot list them. An expiry is an \<open>int option\<close>, \<open>None\<close>
    being the \<open>NaN\<close> of an answer without \<open>expires_in\<close>. \<open>CacheModel\<close>: the manager refines a plain map;
    the two caches are equivalent (on entries with an expiry); what is stored under which key.
  \<^item> \<open>Promise\<close> (\<open>promise-utils.ts\<close>), \<open>Lock\<close> (\<open>lock.ts\<close>), \<open>Worker\<close> (\<open>worker/\<close>): the components whose
    point is interleaving, each a transition system (\<open>sp_step\<close>, \<open>lock_step\<close>, \<open>worker_step\<close>) over the
    functions of the source, with invariants of the reachable states.
  \<^item> \<open>Storage\<close> (\<open>storage.ts\<close>, \<open>transaction-manager.ts\<close>): three storages under the contract
    \<open>storage_laws\<close>, over a cookie library with the contract \<open>cookie_laws\<close>; the transactions.
  \<^item> \<open>Utils\<close> (\<open>utils.ts\<close>), \<open>Jwt\<close> (\<open>jwt.ts\<close>), \<open>Dpop\<close>, \<open>KeyPairs\<close> and \<open>DpopDb\<close> (\<open>dpop/\<close>;
    \<open>KeyPairs\<close> cuts the use of the key pair at its awaits and interleaves the uses, \<open>DpopDb\<close> carries the
    storage out request by request on a database under the contract \<open>indexed_db\<close>), \<open>Http\<close> (\<open>http.ts\<close>, \<open>api.ts\<close>), \<open>Fetcher\<close>
    (\<open>fetcher.ts\<close>), \<open>Anonymous\<close> (\<open>anonymous/\<close>), \<open>MyAccount\<close> and \<open>MyAccountTypes\<close> (\<open>myaccount/\<close>),
    \<open>MfaContext\<close> (\<open>mfa/MfaContextManager.ts\<close>, \<open>mfa/utils.ts\<close>), \<open>Passkey\<close> (\<open>passkey/\<close>),
    \<open>DomainDiscovery\<close> (\<open>domain-discovery.ts\<close>): one theory each. What a component calls (the
    network, the packages of Auth0, the authenticator) is a record of operations on the caller's
    state \<open>'s\<close>, so that the client can provide them.
  \<^item> \<open>ClientConfig\<close>, \<open>Client\<close>, \<open>ClientFlows\<close>, \<open>ClientExchange\<close> (\<open>Auth0Client.ts\<close>, with \<open>mfa/MfaApiClient.ts\<close>
    and \<open>index.ts\<close>), \<open>TokenExchange\<close> (\<open>TokenExchange.ts\<close>): the constructor as a function to the configuration \<open>client_config\<close>; the state
    \<open>client_state\<close> (cache, worker, database of DPoP, cookies and session storage, anonymous
    session, user, held locks, MFA contexts, and a log of what went out); the environment
    \<open>browser\<close>; every method of the client as an \<open>act\<close> on that state.
  \<^item> \<open>ClientFrame\<close>: the locales that say what a method may change. A relation that every step of a
    part of the environment keeps is kept by the methods made of those steps; every method is
    walked through once. \<open>PageCalls\<close>: the methods that deal with the session and its tokens as one
    datatype of calls. \<open>ClientCalls\<close>: every public method, those of the clients for anonymous sessions,
    MFA, passkeys and the My Account API included, with the functions an application passes. \<open>ClientSafety\<close>,
    \<open>ClientSession\<close>, \<open>LoginFlow\<close>, \<open>UserSwitch\<close> and \<open>ClientAnonymous\<close> interpret them; \<open>SilentTokens\<close> and \<open>StepUp\<close> follow tokens and MFA
    challenges through the calls of the client; \<open>FailedRequests\<close> follows a request to its failure. \<open>SharedCalls\<close> composes \<open>Promise\<close> with the client: calls of
    \<open>getTokenSilently\<close> in flight together. \<open>BareTokens\<close> and \<open>PageTokens\<close> compose the client with the
    worker: a judgement that follows a value through a method, and the locale \<open>worker_page\<close>, met by every
    client the constructor makes with a worker; \<open>WorkerCalls\<close> evaluates one exchange through the worker. \<open>Tabs\<close> interleaves the calls of several tabs over one
    cache. \<open>TokenReturned\<close> follows \<open>getTokenSilently\<close> along each of its ways to the state it leaves;
    \<open>LateAnswers\<close> cuts a request at its answer and computes what a late one does to another session.
    \<open>SessionSteps\<close> runs such pieces in any order: answers, ends of the session, and reads. \<open>OfflinePage\<close> and \<open>OnlinePage\<close> are two concrete environments
    on which the theorems about the client are applied.

  \<^bold>\<open>What is shown.\<close> For a login: the callback redeems the code with the verifier, nonce,
  audience, scope and redirect URI of the login that was started, refuses another state, and can be used once (\<open>LoginFlow\<close>). For a session: a logout, its
  ceiling (also of a session that only the cache knows, after a reload), and the login of another user end it with all its
  tokens (\<open>ClientSession\<close>, \<open>UserSwitch\<close>);
  no public method leaks a lock (\<open>ClientCalls\<close>); reads of the cache stay off the network, a token exchange leaves
  the session alone, a fetcher calls the API at most twice, a token request is sent at most three
  times, or six with DPoP (\<open>ClientSafety\<close>); a request that fails brings no token into the page (\<open>FailedRequests\<close>).
  For tokens: the one
  that was obtained is served while more than sixty seconds remain of it, and a refresh token that was rotated is in no
  entry any more (\<open>SilentTokens\<close>); what a silent call returns is what the cache holds for it (\<open>TokenReturned\<close>); the user
  in memory is the one of the cached id token, however overlapping calls are cut (\<open>SessionSteps\<close>, for a cache that only
  this client writes); an MFA verification asks for what was refused (\<open>StepUp\<close>). With a worker no refresh token ever
  is in the page or in an answer, over any run of the methods (\<open>PageTokens\<close>); a token one tab obtained is
  served without a request to the others whose own sessions last (\<open>Tabs\<close>); the parameters an application adds to a token
  exchange change nothing of its own (\<open>TokenExchange\<close>). For the cache: reads
  hand out fresh entries for the requested client, audience and scope; the manifest covers the
  cache of a client through every operation on its own entries; the manager refines a map, the caches are equivalent as long as every
  entry has an expiry, and well typed. For the worker: no
  reply carries a refresh token and nothing but the two endpoints of its origin is fetched, in
  every interleaving. For id tokens: what is accepted is exactly what the specification accepts,
  and a token as an issuer encodes it is decoded. For shared calls and locks: one call runs per
  key, no key is stuck in a fair run (one in which callbacks settle), no call of \<open>getTokenSilently\<close> is lost or answered for another request, no
  lock is kept; overlapping uses of the DPoP key pair settle on one (\<open>KeyPairs\<close>),
  and the DPoP storage over IndexedDB refines two maps, apart from those of other clients (\<open>DpopDb\<close>). An anonymous visitor stays the same through renewals until the service
  declares the session expired or its token invalid (\<open>ClientAnonymous\<close>); a signup with a passkey makes one credential over all its
  attempts (\<open>Passkey\<close>); an id given to the My Account API stays in its segment of the URL, the two dot
  segments excepted (\<open>MyAccount\<close>). The rest are the contracts of the smaller components:
  round trips of keys, transactions, tokens and buffers, termination of the random strings and how
  many tapes of random bytes lead to each, lifetimes of MFA contexts.

  \<^bold>\<open>Bounds and loops.\<close> Every definition but one is a total function, and there is no fuel. The loop
  that draws random characters may run forever with a generator that delivers no usable byte: it
  is a \<open>partial_function\<close> whose value is \<open>None\<close> then, and \<open>createRandomString_uniform\<close> proves that it
  returns with every fair generator. The waits for an iframe and a popup run over the list of
  events that arrive; a wait that never settles is \<open>None\<close>. The attempts of a request (three) and
  of the acquisition of a lock (ten) are those of the source.

  \<^bold>\<open>Simplifications\<close>, which every statement is to be read with. A character is a code unit below
  256, a number is an integer. A method of the client runs to its end without another call of the
  same client in between; calls in flight together are the subject of \<open>Promise\<close>,
  \<open>SharedCalls\<close>, \<open>Tabs\<close>, \<open>KeyPairs\<close>, \<open>LateAnswers\<close>, \<open>SessionSteps\<close>, \<open>Lock\<close> and \<open>Worker\<close>. The clock is a function of the world, read when the source reads it. An entry of the
  cache is a value, so that a caller cannot change it in place. A parameter of the
  application named \<open>dpop\<close>, which would override the object of that name, is left aside. The logout that follows \<open>login_required\<close> in an iframe is run to its end
  before the error is thrown (the source does not wait for it). Anonymous sessions have a store
  of their own: that clearing the storage cache removes their keys too is a finding, not part
  of the model. Warnings on the console are modelled for the constructor only.

  \<^bold>\<open>Not modelled.\<close> Code outside the repository is a parameter: the packages \<open>@auth0/auth0-auth-js\<close>,
  \<open>browser-tabs-lock\<close>, \<open>es-cookie\<close> and \<open>dpop\<close>, the cryptography, the database engine, windows,
  iframes, timers and \<open>fetch\<close>. The interfaces of responses that the SDK hands through unread
  (\<open>myaccount/types.ts\<close>, \<open>mfa/types.ts\<close>, \<open>global.ts\<close>) are JSON values; re-exports have no behaviour.
  Mocks, tests, build files, examples, the pages and the old build under \<open>static/\<close>, and the
  generated documentation are not part of the SDK that runs.
\<close>

end
